(* ===== verification/Prelude.thy ===== *)
theory Prelude
  imports Main "HOL-Library.AList" "HOL-Library.Multiset"
begin

text \<open>
  Shared vocabulary of the development: the result type of fallible Go functions, keyed tables
  as association lists (Go maps and SQL tables with a primary key), Go's unspecified map
  iteration order as a permutation, the collections of simplification rules the component
  theories fill, and the interface locales that several components share.
\<close>

section \<open>Results and collections of facts\<close>

text \<open>
  A Go function that returns \<open>(T, error)\<close> becomes a function into \<open>'a result\<close>: \<open>Inl\<close> carries the
  text of the error (error values are only ever printed or put into a message by this program),
  \<open>Inr\<close> the value.
\<close>

type_synonym 'a result = "string + 'a"

named_theorems store_simps \<open>what each operation of the hub store does to each table\<close>
named_theorems hub_simps \<open>frame and effect rules of the hub's handlers\<close>
named_theorems daemon_simps \<open>frame and effect rules of the daemon's operations\<close>

section \<open>Keyed tables\<close>

text \<open>
  A table maps each key to one row and remembers the order of insertion. Its operations are
  those of \<open>HOL-Library.AList\<close>: \<open>AList.update\<close> overwrites in place or appends,
  \<open>AList.delete\<close> removes the key.
\<close>

type_synonym ('k, 'v) table = "('k \<times> 'v) list"

abbreviation keys :: "('k, 'v) table \<Rightarrow> 'k list" where
  "keys t \<equiv> map fst t"

definition wf_table :: "('k, 'v) table \<Rightarrow> bool" where
  "wf_table t \<longleftrightarrow> distinct (keys t)"

lemma wf_table_Nil [simp]: "wf_table []"
  by (simp add: wf_table_def)

lemma wf_table_update [simp]: "wf_table t \<Longrightarrow> wf_table (AList.update k v t)"
  by (simp add: wf_table_def distinct_update)

lemma wf_table_delete [simp]: "wf_table t \<Longrightarrow> wf_table (AList.delete k t)"
  by (simp add: wf_table_def distinct_delete)

lemma wf_table_lookup: "wf_table t \<Longrightarrow> (k, v) \<in> set t \<longleftrightarrow> map_of t k = Some v"
  by (simp add: wf_table_def)

lemma lookup_update [simp]:
  "map_of (AList.update k v t) k' = (if k' = k then Some v else map_of t k')"
  by (simp add: update_conv')

lemma lookup_delete [simp]:
  "map_of (AList.delete k t) k' = (if k' = k then None else map_of t k')"
  by (simp add: delete_conv')

lemma set_keys_update: "set (keys (AList.update k v t)) = insert k (set (keys t))"
  by (simp add: dom_update)

lemma set_keys_delete: "set (keys (AList.delete k t)) = set (keys t) - {k}"
  by (simp add: delete_keys)

lemma in_keys_iff: "k \<in> set (keys t) \<longleftrightarrow> map_of t k \<noteq> None"
  by (metis map_of_eq_None_iff set_map)

lemma set_delete_imp: "x \<in> set (AList.delete k t) \<Longrightarrow> x \<in> set t"
  by (induction t) (auto split: if_splits)

lemma set_update_imp: "x \<in> set (AList.update k v t) \<Longrightarrow> x = (k, v) \<or> x \<in> set t"
  by (induction t) (auto split: if_splits)

lemma filter_key_Nil: "filter (\<lambda>r. fst r = k) t = [] \<longleftrightarrow> map_of t k = None"
  by (induction t) auto

lemma keys_update_mem: "k \<in> set (keys t) \<Longrightarrow> keys (AList.update k v t) = keys t"
  by (simp add: update_keys)

section \<open>Map iteration\<close>

text \<open>
  Go ranges over a map in an unspecified order. A function that ranges takes the order as an
  argument: \<open>ord\<close> rearranges the list of entries. What the language promises of it is
  \<open>is_order ord\<close>: every entry is visited exactly once.
\<close>

definition is_order :: "('a list \<Rightarrow> 'a list) \<Rightarrow> bool" where
  "is_order ord \<longleftrightarrow> (\<forall>xs. mset (ord xs) = mset xs)"

lemma is_order_id [simp]: "is_order (\<lambda>xs. xs)"
  by (simp add: is_order_def)

lemma is_order_rev [simp]: "is_order rev"
  by (simp add: is_order_def)

lemma is_order_set [simp]: "is_order ord \<Longrightarrow> set (ord xs) = set xs"
  by (metis is_order_def set_mset_mset)

lemma is_order_length [simp]: "is_order ord \<Longrightarrow> length (ord xs) = length xs"
  by (metis is_order_def size_mset)

lemma is_order_distinct [simp]: "is_order ord \<Longrightarrow> distinct (ord xs) = distinct xs"
  by (metis is_order_def mset_eq_imp_distinct_iff)

section \<open>Interfaces\<close>

subsection \<open>Machines driven by events\<close>

text \<open>
  A component that reacts to events: \<open>step\<close> is one reaction, \<open>ok\<close> says which events the
  environment may produce, \<open>inv\<close> is what the component promises to keep. The law is that every
  reaction keeps \<open>inv\<close>; the client gets it for whole runs, an induction principle for facts that
  need the invariant, and the step of a run at which a fact that was false became true.
\<close>

locale event_machine =
  fixes step :: "'e \<Rightarrow> 's \<Rightarrow> 's"
    and ok :: "'e \<Rightarrow> bool"
    and inv :: "'s \<Rightarrow> bool"
  assumes inv_step: "ok e \<Longrightarrow> inv s \<Longrightarrow> inv (step e s)"
begin

lemma inv_run: "list_all ok es \<Longrightarrow> inv s \<Longrightarrow> inv (fold step es s)"
  by (induction es arbitrary: s) (auto intro: inv_step)

lemma run_preserves:
  assumes "\<And>e s. e \<in> set es \<Longrightarrow> ok e \<Longrightarrow> inv s \<Longrightarrow> P s \<Longrightarrow> P (step e s)"
    and "list_all ok es" "inv s" "P s"
  shows "P (fold step es s)"
  using assms by (induction es arbitrary: s) (auto intro: inv_step)

lemma became_true:
  assumes "list_all ok es" and "inv s" and "\<not> P s" and "P (fold step es s)"
  shows "\<exists>es1 e es2. es = es1 @ e # es2 \<and> ok e \<and> inv (fold step es1 s) \<and>
           \<not> P (fold step es1 s) \<and> P (step e (fold step es1 s))"
  using assms
proof (induction es arbitrary: s)
  case (Cons e es)
  show ?case
  proof (cases "P (step e s)")
    case True
    with Cons.prems show ?thesis by (intro exI [of _ "[]"] exI [of _ e] exI [of _ es]) simp
  next
    case False
    have "list_all ok es" "inv (step e s)" "P (fold step es (step e s))"
      using Cons.prems by (auto intro: inv_step)
    from Cons.IH [OF this(1,2) False this(3)] obtain es1 e' es2 where "es = es1 @ e' # es2" "ok e'"
      "inv (fold step es1 (step e s))" "\<not> P (fold step es1 (step e s))"
      "P (step e' (fold step es1 (step e s)))" by blast
    then show ?thesis by (intro exI [of _ "e # es1"] exI [of _ e'] exI [of _ es2]) simp
  qed
qed simp

end

end
