(* ===== verification/GoStd.thy ===== *)
theory GoStd
  imports Prelude "HOL-Library.Char_ord" "HOL-Library.List_Lexorder" "HOL-Library.Word"
begin

text \<open>
  The parts of Go and of its standard library the program computes with: byte strings
  (a Go string is a sequence of bytes, here \<open>string\<close> = \<open>char list\<close>; \<open>s < t\<close> is Go's bytewise
  comparison, by the lexicographic order on lists and the order of bytes on characters), 64-bit
  integers, \<open>strings.HasPrefix/HasSuffix/TrimSuffix/Index/Split/Join/Fields/TrimSpace\<close>,
  \<open>strconv.Itoa/Atoi/ParseInt\<close> and the \<open>%d\<close> verb of \<open>fmt.Sscanf\<close>. The lemmas are the laws the
  components use: split and join are inverse, the printed form of a 64-bit integer reads back.
\<close>

section \<open>Integers\<close>

text \<open>A Go \<open>int\<close> is a 64-bit two's complement value; \<open>int64\<close> wraps an exact result to it.\<close>

definition int64 :: "int \<Rightarrow> int" where
  "int64 i = sint (word_of_int i :: 64 word)"

definition is_int64 :: "int \<Rightarrow> bool" where
  "is_int64 i \<longleftrightarrow> - (2 ^ 63) \<le> i \<and> i < 2 ^ 63"

lemma int64_id [simp]:
  assumes "is_int64 i"
  shows "int64 i = i"
proof -
  have "int64 i = signed_take_bit 63 i"
    by (simp add: int64_def signed_of_int)
  also have "\<dots> = i"
    using assms unfolding is_int64_def by (intro signed_take_bit_int_eq_self) auto
  finally show ?thesis .
qed

lemma int64_range [simp]: "is_int64 (int64 i)"
proof -
  have "sint (word_of_int i :: 64 word) \<ge> - (2 ^ 63)" "sint (word_of_int i :: 64 word) < 2 ^ 63"
    using sint_greater_eq [of "word_of_int i :: 64 word"] sint_less [of "word_of_int i :: 64 word"]
    by simp_all
  then show ?thesis by (simp add: int64_def is_int64_def)
qed

lemma int64_min_neg: "int64 9223372036854775808 = - 9223372036854775808"
  by (simp add: int64_def)

section \<open>Bytes and strings\<close>

abbreviation byte_val :: "char \<Rightarrow> nat" where
  "byte_val c \<equiv> of_char c"

definition has_prefix :: "string \<Rightarrow> string \<Rightarrow> bool" where
  "has_prefix s p \<longleftrightarrow> take (length p) s = p"

definition has_suffix :: "string \<Rightarrow> string \<Rightarrow> bool" where
  "has_suffix s p \<longleftrightarrow> length p \<le> length s \<and> drop (length s - length p) s = p"

definition trim_suffix :: "string \<Rightarrow> string \<Rightarrow> string" where
  "trim_suffix s p = (if has_suffix s p then take (length s - length p) s else s)"

lemma has_prefix_append [simp]: "has_prefix (p @ s) p"
  by (simp add: has_prefix_def)

lemma has_suffix_append [simp]: "has_suffix (s @ p) p"
  by (simp add: has_suffix_def)

lemma trim_suffix_append [simp]: "trim_suffix (s @ p) p = s"
  by (simp add: trim_suffix_def)

text \<open>The em dash of the program's messages, in UTF-8.\<close>

definition em_dash :: string where
  "em_dash = [CHR 0xE2, CHR 0x80, CHR 0x94]"

text \<open>\<open>strings.Index(s, c)\<close> for a separator of one byte.\<close>

fun index_byte :: "char \<Rightarrow> string \<Rightarrow> nat option" where
  "index_byte c [] = None"
| "index_byte c (x # xs) = (if x = c then Some 0 else map_option Suc (index_byte c xs))"

lemma index_byte_None: "index_byte c s = None \<longleftrightarrow> c \<notin> set s"
  by (induction s) auto

lemma index_byte_Some:
  "index_byte c s = Some i \<Longrightarrow> i < length s \<and> s ! i = c \<and> c \<notin> set (take i s)"
proof (induction s arbitrary: i)
  case (Cons x xs)
  then show ?case by (cases i) (auto split: if_splits)
qed simp

lemma index_byte_append [simp]: "c \<notin> set s \<Longrightarrow> index_byte c (s @ c # t) = Some (length s)"
  by (induction s) auto

text \<open>\<open>strings.Split(s, c)\<close> and \<open>strings.Join(xs, c)\<close> for a separator of one byte.\<close>

fun split_byte :: "char \<Rightarrow> string \<Rightarrow> string list" where
  "split_byte c [] = [[]]"
| "split_byte c (x # xs) =
     (if x = c then [] # split_byte c xs
      else (case split_byte c xs of [] \<Rightarrow> [[x]] | p # ps \<Rightarrow> (x # p) # ps))"

fun join_byte :: "char \<Rightarrow> string list \<Rightarrow> string" where
  "join_byte c [] = []"
| "join_byte c [s] = s"
| "join_byte c (s # t # ss) = s @ c # join_byte c (t # ss)"

lemma split_byte_not_Nil [simp]: "split_byte c s \<noteq> []"
  by (cases s) (auto split: list.splits)

lemma join_split [simp]: "join_byte c (split_byte c s) = s"
proof (induction s)
  case (Cons x xs)
  then obtain p ps where "split_byte c xs = p # ps" by (cases "split_byte c xs") auto
  with Cons show ?case by (cases ps) auto
qed simp

lemma split_byte_free [simp]: "c \<notin> set s \<Longrightarrow> split_byte c s = [s]"
  by (induction s) auto

lemma split_byte_append: "c \<notin> set s \<Longrightarrow> split_byte c (s @ c # t) = s # split_byte c t"
  by (induction s) auto

lemma split_byte_parts: "p \<in> set (split_byte c s) \<Longrightarrow> c \<notin> set p"
proof (induction s arbitrary: p)
  case (Cons x xs)
  then obtain q qs where "split_byte c xs = q # qs" by (cases "split_byte c xs") auto
  with Cons show ?case by (auto split: if_splits)
qed simp

lemma split_byte_snoc: "c \<notin> set t \<Longrightarrow> split_byte c (s @ c # t) = split_byte c s @ [t]"
proof (induction s)
  case (Cons x s)
  then show ?case by (cases "split_byte c s") auto
qed simp

lemma split_join:
  "ss \<noteq> [] \<Longrightarrow> \<forall>s\<in>set ss. c \<notin> set s \<Longrightarrow> split_byte c (join_byte c ss) = ss"
proof (induction c ss rule: join_byte.induct)
  case (3 c s t ss)
  then show ?case by (simp add: split_byte_append)
qed simp_all


section \<open>White space\<close>

text \<open>
  The white space of \<open>unicode.IsSpace\<close> in UTF-8. No encoding is a prefix of another and all
  start with a byte that cannot stand inside another character, so a byte-wise scan finds the
  same runs as Go's rune-wise scan. \<open>space_len s\<close> is the length in bytes of the white space
  character \<open>s\<close> starts with, 0 when it starts with none.
\<close>

definition unicode_spaces :: "string list" where
  "unicode_spaces =
     [[CHR 0x0A], [CHR 0x20], [CHR 0x09], [CHR 0x0B], [CHR 0x0C], [CHR 0x0D],
      [CHR 0xC2, CHR 0x85], [CHR 0xC2, CHR 0xA0], [CHR 0xE1, CHR 0x9A, CHR 0x80],
      [CHR 0xE2, CHR 0x80, CHR 0x80], [CHR 0xE2, CHR 0x80, CHR 0x81], [CHR 0xE2, CHR 0x80, CHR 0x82],
      [CHR 0xE2, CHR 0x80, CHR 0x83], [CHR 0xE2, CHR 0x80, CHR 0x84], [CHR 0xE2, CHR 0x80, CHR 0x85],
      [CHR 0xE2, CHR 0x80, CHR 0x86], [CHR 0xE2, CHR 0x80, CHR 0x87], [CHR 0xE2, CHR 0x80, CHR 0x88],
      [CHR 0xE2, CHR 0x80, CHR 0x89], [CHR 0xE2, CHR 0x80, CHR 0x8A], [CHR 0xE2, CHR 0x80, CHR 0xA8],
      [CHR 0xE2, CHR 0x80, CHR 0xA9], [CHR 0xE2, CHR 0x80, CHR 0xAF], [CHR 0xE2, CHR 0x81, CHR 0x9F],
      [CHR 0xE3, CHR 0x80, CHR 0x80]]"

definition space_len :: "string \<Rightarrow> nat" where
  "space_len s =
     (case filter (has_prefix s) unicode_spaces of [] \<Rightarrow> 0 | w # _ \<Rightarrow> length w)"

definition space_len_end :: "string \<Rightarrow> nat" where
  "space_len_end s =
     (case filter (has_suffix s) unicode_spaces of [] \<Rightarrow> 0 | w # _ \<Rightarrow> length w)"

lemma unicode_spaces_pos: "w \<in> set unicode_spaces \<Longrightarrow> w \<noteq> []"
  by (auto simp: unicode_spaces_def)

lemma space_len_le: "space_len s \<le> length s"
  unfolding space_len_def
  by (auto split: list.splits simp: has_prefix_def filter_eq_Cons_iff) (metis length_take min.cobounded1)

lemma space_len_end_le: "space_len_end s \<le> length s"
  unfolding space_len_end_def
  by (auto split: list.splits simp: has_suffix_def filter_eq_Cons_iff)

text \<open>\<open>strings.TrimSpace\<close>: white space is removed from both ends.\<close>

function trim_left :: "string \<Rightarrow> string" where
  "trim_left s = (if space_len s = 0 then s else trim_left (drop (space_len s) s))"
  by pat_completeness auto
termination
proof (relation "measure length", goal_cases)
  case (2 s)
  then show ?case using space_len_le [of s] by simp
qed simp

function trim_right :: "string \<Rightarrow> string" where
  "trim_right s =
     (if space_len_end s = 0 then s else trim_right (take (length s - space_len_end s) s))"
  by pat_completeness auto
termination
proof (relation "measure length", goal_cases)
  case (2 s)
  then show ?case using space_len_end_le [of s] by simp
qed simp

declare trim_left.simps [simp del] trim_right.simps [simp del]

definition trim_space :: "string \<Rightarrow> string" where
  "trim_space s = trim_right (trim_left s)"

text \<open>\<open>strings.Fields\<close>: the maximal runs without white space; \<open>w\<close> is the field being read.\<close>

function fields_from :: "string \<Rightarrow> string \<Rightarrow> string list" where
  "fields_from w [] = (if w = [] then [] else [w])"
| "fields_from w (c # s) =
     (let n = space_len (c # s)
      in if n = 0 then fields_from (w @ [c]) s
         else (if w = [] then [] else [w]) @ fields_from [] (drop n (c # s)))"
  by pat_completeness auto
termination
  by (relation "measure (length \<circ> snd)") auto

definition fields :: "string \<Rightarrow> string list" where
  "fields s = fields_from [] s"

lemma fields_from_nonempty: "f \<in> set (fields_from w s) \<Longrightarrow> f \<noteq> []"
  by (induction w s rule: fields_from.induct) (auto simp: Let_def split: if_splits)

lemma fields_nonempty: "f \<in> set (fields s) \<Longrightarrow> f \<noteq> []"
  by (simp add: fields_def fields_from_nonempty)


section \<open>Numbers as text\<close>

definition is_digit :: "char \<Rightarrow> bool" where
  "is_digit c \<longleftrightarrow> 48 \<le> byte_val c \<and> byte_val c \<le> 57"

definition digit_val :: "char \<Rightarrow> nat" where
  "digit_val c = byte_val c - 48"

definition digit_char :: "nat \<Rightarrow> char" where
  "digit_char d = char_of (48 + d)"

lemma digit_char_props [simp]:
  assumes "d < 10"
  shows "is_digit (digit_char d)" "digit_val (digit_char d) = d"
  using assms by (auto simp: is_digit_def digit_val_def digit_char_def of_char_of)

lemma not_digit_sign [simp]: "\<not> is_digit CHR ''-''" "\<not> is_digit CHR ''+''" "\<not> is_digit CHR '':''"
  by (simp_all add: is_digit_def)

text \<open>\<open>strconv.Itoa\<close>: decimal digits, most significant first, after a minus sign if negative.\<close>

fun nat_digits :: "nat \<Rightarrow> string" where
  "nat_digits n = (if n < 10 then [digit_char n] else nat_digits (n div 10) @ [digit_char (n mod 10)])"

declare nat_digits.simps [simp del]

definition itoa :: "int \<Rightarrow> string" where
  "itoa i = (if i < 0 then CHR ''-'' # nat_digits (nat (- i)) else nat_digits (nat i))"

text \<open>
  \<open>strconv.ParseInt(s, 10, 64)\<close>, which is also \<open>strconv.Atoi\<close>: an optional sign, then digits
  only and at least one; a value outside the 64-bit range is an error. \<open>None\<close> is the error.
\<close>

fun digits_val :: "nat \<Rightarrow> string \<Rightarrow> nat option" where
  "digits_val acc [] = Some acc"
| "digits_val acc (c # cs) = (if is_digit c then digits_val (acc * 10 + digit_val c) cs else None)"

definition split_sign :: "string \<Rightarrow> bool \<times> string" where
  "split_sign s =
     (case s of [] \<Rightarrow> (False, [])
      | c # cs \<Rightarrow> if c = CHR ''-'' then (True, cs) else if c = CHR ''+'' then (False, cs) else (False, s))"

definition parse_int64 :: "string \<Rightarrow> int option" where
  "parse_int64 s =
     (let (neg, ds) = split_sign s
      in if ds = [] then None
         else (case digits_val 0 ds of None \<Rightarrow> None
               | Some n \<Rightarrow> let v = (if neg then - int n else int n)
                         in if is_int64 v then Some v else None))"

text \<open>
  \<open>fmt.Sscanf(s, "%d", &x)\<close>: white space is skipped (a line break is an error), then a sign
  and a non-empty run of digits is read as \<open>ParseInt\<close> reads it; what follows is ignored.
\<close>

definition sscanf_d :: "string \<Rightarrow> int option" where
  "sscanf_d s =
     (let t = trim_left s; skipped = take (length s - length t) s; (neg, ds) = split_sign t;
          run = takeWhile is_digit ds
      in if CHR 0x0A \<in> set skipped then None
         else if run = [] then None
         else parse_int64 ((if neg then [CHR ''-''] else []) @ run))"

lemma nat_digits_not_Nil [simp]: "nat_digits n \<noteq> []"
  by (subst nat_digits.simps) simp

lemma nat_digits_all [simp]: "\<forall>c\<in>set (nat_digits n). is_digit c"
proof (induction n rule: nat_digits.induct)
  case (1 n)
  then show ?case by (subst nat_digits.simps) auto
qed

lemma digits_val_append:
  "digits_val acc (xs @ ys) = (case digits_val acc xs of None \<Rightarrow> None | Some a \<Rightarrow> digits_val a ys)"
  by (induction xs arbitrary: acc) auto

lemma digits_val_nat_digits [simp]: "digits_val 0 (nat_digits n) = Some n"
proof (induction n rule: nat_digits.induct)
  case (1 n)
  then show ?case by (subst nat_digits.simps) (auto simp: digits_val_append)
qed

lemma nat_digits_hd: "hd (nat_digits n) \<noteq> CHR ''-'' \<and> hd (nat_digits n) \<noteq> CHR ''+''"
  using nat_digits_all [of n] nat_digits_not_Nil [of n] not_digit_sign by (metis hd_in_set)

lemma split_sign_nat_digits [simp]: "split_sign (nat_digits n) = (False, nat_digits n)"
  using nat_digits_hd [of n] nat_digits_not_Nil [of n]
  by (cases "nat_digits n") (auto simp: split_sign_def)

lemma split_sign_minus [simp]: "split_sign (CHR ''-'' # s) = (True, s)"
  by (simp add: split_sign_def)

lemma parse_itoa [simp]: "is_int64 i \<Longrightarrow> parse_int64 (itoa i) = Some i"
  by (auto simp: itoa_def parse_int64_def)

lemma itoa_not_Nil [simp]: "itoa i \<noteq> []"
  by (simp add: itoa_def)

lemma itoa_inj: "is_int64 i \<Longrightarrow> is_int64 j \<Longrightarrow> itoa i = itoa j \<Longrightarrow> i = j"
  by (metis parse_itoa option.inject)

lemma colon_not_in_itoa [simp]: "CHR '':'' \<notin> set (itoa i)"
  by (auto simp: itoa_def dest: bspec [OF nat_digits_all])

lemma parse_int64_range: "parse_int64 s = Some i \<Longrightarrow> is_int64 i"
  by (auto simp: parse_int64_def Let_def split: prod.splits option.splits if_splits)

end
