(* ===== verification/Proto.thy ===== *)
theory Proto
  imports GoStd
begin

text \<open>
  The wire protocol (\<^verbatim>\<open>internal/proto/proto.go\<close>): the message types of the hub protocol, the relay
  services, the hub message \<open>Msg\<close>, the machine list entry, and the control protocol between the
  CLI and the local daemon. A field that the code leaves out of a composite literal has Go's zero
  value: \<open>zero_msg\<close>, \<open>zero_ctl_resp\<close> and \<open>zero_ctl_req\<close> are those literals, and a message of the
  code is written as an update of them. JSON itself is not modelled: a component receives the
  decoded record, or the fact that decoding failed.
\<close>

section \<open>Message types of the hub protocol\<close>

definition THello :: string where "THello = ''hello''"
definition TCreateCode :: string where "TCreateCode = ''create_code''"
definition TPair :: string where "TPair = ''pair''"
definition TRevoke :: string where "TRevoke = ''revoke''"
definition TList :: string where "TList = ''list''"
definition TRelay :: string where "TRelay = ''relay''"
definition TRelayClose :: string where "TRelayClose = ''relay_close''"
definition TWelcome :: string where "TWelcome = ''welcome''"
definition TCodeCreated :: string where "TCodeCreated = ''code_created''"
definition TPaired :: string where "TPaired = ''paired''"
definition TRevoked :: string where "TRevoked = ''revoked''"
definition TMachineUpdate :: string where "TMachineUpdate = ''machine_update''"
definition TError :: string where "TError = ''error''"

lemmas msg_type_defs =
  THello_def TCreateCode_def TPair_def TRevoke_def TList_def TRelay_def TRelayClose_def
  TWelcome_def TCodeCreated_def TPaired_def TRevoked_def TMachineUpdate_def TError_def

definition ServiceDocker :: string where "ServiceDocker = ''docker''"
definition ServiceTCP :: string where "ServiceTCP = ''tcp''"
definition ServiceCaps :: string where "ServiceCaps = ''caps''"

lemmas service_defs = ServiceDocker_def ServiceTCP_def ServiceCaps_def

section \<open>Hub messages\<close>

record machine_info =
  mi_ID :: string
  mi_Name :: string
  mi_PubKey :: string
  mi_Online :: bool

record msg =
  m_Type :: string
  m_MachineID :: string
  m_Name :: string
  m_PubKey :: string
  m_Token :: string
  m_Code :: string
  m_Target :: string
  m_From :: string
  m_To :: string
  m_Channel :: string
  m_Service :: string
  m_Dial :: string
  m_Data :: string
  m_Machines :: "machine_info list"
  m_Peer :: "machine_info option"
  m_Message :: string

definition zero_info :: machine_info where
  "zero_info = \<lparr>mi_ID = [], mi_Name = [], mi_PubKey = [], mi_Online = False\<rparr>"

definition zero_msg :: msg where
  "zero_msg =
     \<lparr>m_Type = [], m_MachineID = [], m_Name = [], m_PubKey = [], m_Token = [], m_Code = [],
      m_Target = [], m_From = [], m_To = [], m_Channel = [], m_Service = [], m_Dial = [],
      m_Data = [], m_Machines = [], m_Peer = None, m_Message = []\<rparr>"

section \<open>The control protocol\<close>

definition CtlStatus :: string where "CtlStatus = ''status''"
definition CtlPair :: string where "CtlPair = ''pair''"
definition CtlMachines :: string where "CtlMachines = ''machines''"
definition CtlRevoke :: string where "CtlRevoke = ''revoke''"
definition CtlUse :: string where "CtlUse = ''use''"
definition CtlUnuse :: string where "CtlUnuse = ''unuse''"
definition CtlForward :: string where "CtlForward = ''forward''"
definition CtlUnforward :: string where "CtlUnforward = ''unforward''"
definition CtlForwards :: string where "CtlForwards = ''forwards''"
definition CtlActive :: string where "CtlActive = ''active''"

lemmas ctl_cmd_defs =
  CtlStatus_def CtlPair_def CtlMachines_def CtlRevoke_def CtlUse_def CtlUnuse_def
  CtlForward_def CtlUnforward_def CtlForwards_def CtlActive_def

record forward_info =
  f_Local :: int
  f_Remote :: int
  f_Machine :: string
  f_Auto :: bool

record ctl_req =
  q_Cmd :: string
  q_Name :: string
  q_Code :: string
  q_Local :: int
  q_Remote :: int
  q_Auto :: bool

record ctl_resp =
  r_OK :: bool
  r_Error :: string
  r_MachineID :: string
  r_Name :: string
  r_Active :: string
  r_Port :: int
  r_Code :: string
  r_GPU :: string
  r_Machines :: "machine_info list"
  r_Forwards :: "forward_info list"

definition zero_ctl_req :: ctl_req where
  "zero_ctl_req =
     \<lparr>q_Cmd = [], q_Name = [], q_Code = [], q_Local = 0, q_Remote = 0, q_Auto = False\<rparr>"

definition zero_ctl_resp :: ctl_resp where
  "zero_ctl_resp =
     \<lparr>r_OK = False, r_Error = [], r_MachineID = [], r_Name = [], r_Active = [], r_Port = 0,
      r_Code = [], r_GPU = [], r_Machines = [], r_Forwards = []\<rparr>"

lemmas zero_defs = zero_info_def zero_msg_def zero_ctl_req_def zero_ctl_resp_def

end
