(* ===== verification/HubStore.thy ===== *)
theory HubStore
  imports Proto
begin

text \<open>
  The hub's SQLite state (\<^verbatim>\<open>internal/hub/state.go\<close>): the tables \<open>machines\<close>, \<open>codes\<close> and \<open>acls\<close> with
  their primary keys, and one definition per method of \<open>Store\<close>, which writes out what its SQL
  statements do to the tables. The database driver is not under the repository; what it decides is
  the argument \<open>db_env\<close>: for each statement whether it fails and with which error text, the clock,
  the order in which a scan without \<^verbatim>\<open>ORDER BY\<close> returns rows, and the text of a primary key
  violation. A statement that fails changes nothing, and a transaction that is not committed is
  rolled back, as SQL has it.

  Two interfaces are stated as locales, interpreted on these operations, and used by the hub:
  \<open>link_acl\<close> (who may talk to whom) and \<open>pairing_codes\<close> (one-time codes).
\<close>

section \<open>State\<close>

record machine_row =
  row_name :: string
  row_pubkey :: string
  row_created :: int

record code_row =
  row_owner :: string
  row_expires :: int

record store =
  machines :: "(string, machine_row) table"
  codes :: "(string, code_row) table"
  acls :: "(string \<times> string, int) table"

definition empty_store :: store where
  "empty_store = \<lparr>machines = [], codes = [], acls = []\<rparr>"

datatype stmt =
    OpenDb | CreateSchema
  | UpsertStmt | GetStmt string | ListStmt
  | InsertCode | BeginTx | SelectCode | DeleteCode | CommitTx
  | InsertACL | CountACL | DeleteACL

record db_env =
  db_now :: int
  db_err :: "stmt \<Rightarrow> string option"
  db_rows :: "string list \<Rightarrow> string list"
  db_dup :: string

definition wf_store :: "store \<Rightarrow> bool" where
  "wf_store s \<longleftrightarrow> wf_table (machines s) \<and> wf_table (codes s) \<and> wf_table (acls s)"

section \<open>Operations\<close>

definition open_store :: "db_env \<Rightarrow> store option \<Rightarrow> store result" where
  "open_store env existing =
     (case db_err env OpenDb of
        Some e \<Rightarrow> Inl (''open db: '' @ e)
      | None \<Rightarrow>
         (case db_err env CreateSchema of
            Some e \<Rightarrow> Inl (''schema: '' @ e)
          | None \<Rightarrow> Inr (case existing of None \<Rightarrow> empty_store | Some s \<Rightarrow> s)))"

definition upsert_machine ::
  "db_env \<Rightarrow> string \<Rightarrow> string \<Rightarrow> string \<Rightarrow> store \<Rightarrow> store \<times> string option" where
  "upsert_machine env mid name pubkey s =
     (case db_err env UpsertStmt of
        Some e \<Rightarrow> (s, Some e)
      | None \<Rightarrow>
         (case map_of (machines s) mid of
            None \<Rightarrow> (s\<lparr>machines := AList.update mid
                      \<lparr>row_name = name, row_pubkey = pubkey, row_created = db_now env\<rparr> (machines s)\<rparr>, None)
          | Some r \<Rightarrow> (s\<lparr>machines := AList.update mid
                      (r\<lparr>row_name := name, row_pubkey := pubkey\<rparr>) (machines s)\<rparr>, None)))"

definition get_machine :: "db_env \<Rightarrow> string \<Rightarrow> store \<Rightarrow> (string \<times> string) result" where
  "get_machine env mid s =
     (case db_err env (GetStmt mid) of
        Some e \<Rightarrow> Inl e
      | None \<Rightarrow> (case map_of (machines s) mid of
                  None \<Rightarrow> Inr ([], [])
                | Some r \<Rightarrow> Inr (row_name r, row_pubkey r)))"

definition list_machines :: "db_env \<Rightarrow> store \<Rightarrow> string list result" where
  "list_machines env s =
     (case db_err env ListStmt of
        Some e \<Rightarrow> Inl e
      | None \<Rightarrow> Inr (db_rows env (keys (machines s))))"

text \<open>\<open>codeTTL\<close> is 24 hours, in the seconds of \<open>Unix()\<close>.\<close>

definition codeTTL :: int where
  "codeTTL = 24 * 60 * 60"

definition create_code ::
  "db_env \<Rightarrow> string \<Rightarrow> string \<Rightarrow> int \<Rightarrow> store \<Rightarrow> store \<times> string option" where
  "create_code env owner code ttl s =
     (case db_err env InsertCode of
        Some e \<Rightarrow> (s, Some e)
      | None \<Rightarrow>
         (case map_of (codes s) code of
            Some _ \<Rightarrow> (s, Some (db_dup env))
          | None \<Rightarrow> (s\<lparr>codes := AList.update code
                      \<lparr>row_owner = owner, row_expires = db_now env + ttl\<rparr> (codes s)\<rparr>, None)))"

text \<open>
  \<open>ConsumeCode\<close> runs in a transaction whose deferred rollback undoes every path that does not
  reach the commit, the deletion of an expired code among them: \<open>tx\<close> is the state inside the
  transaction, \<open>s\<close> the state it is rolled back to.
\<close>

definition consume_code :: "db_env \<Rightarrow> string \<Rightarrow> store \<Rightarrow> store \<times> string result" where
  "consume_code env code s =
     (case db_err env BeginTx of
        Some e \<Rightarrow> (s, Inl e)
      | None \<Rightarrow>
       let tx = s in
         (case db_err env SelectCode of
            Some e \<Rightarrow> (s, Inl e)
          | None \<Rightarrow>
             (case map_of (codes tx) code of
                None \<Rightarrow> (s, Inl ''invalid pairing code'')
              | Some r \<Rightarrow>
                 (let tx' = tx\<lparr>codes := AList.delete code (codes tx)\<rparr> in
                  if db_now env > row_expires r then (s, Inl ''pairing code expired'')
                  else
                   (case db_err env DeleteCode of
                      Some e \<Rightarrow> (s, Inl e)
                    | None \<Rightarrow>
                       (case db_err env CommitTx of
                          Some e \<Rightarrow> (s, Inl e)
                        | None \<Rightarrow> (tx', Inr (row_owner r))))))))"

text \<open>The ACL stores each pair once, the smaller id first.\<close>

definition acl_key :: "string \<Rightarrow> string \<Rightarrow> string \<times> string" where
  "acl_key a b = (if a > b then (b, a) else (a, b))"

definition add_acl :: "db_env \<Rightarrow> string \<Rightarrow> string \<Rightarrow> store \<Rightarrow> store \<times> string option" where
  "add_acl env a b s =
     (case db_err env InsertACL of
        Some e \<Rightarrow> (s, Some e)
      | None \<Rightarrow>
         (case map_of (acls s) (acl_key a b) of
            Some _ \<Rightarrow> (s, None)
          | None \<Rightarrow> (s\<lparr>acls := AList.update (acl_key a b) (db_now env) (acls s)\<rparr>, None)))"

definition has_acl :: "db_env \<Rightarrow> string \<Rightarrow> string \<Rightarrow> store \<Rightarrow> bool result" where
  "has_acl env a b s =
     (case db_err env CountACL of
        Some e \<Rightarrow> Inl e
      | None \<Rightarrow> Inr (length (filter (\<lambda>r. fst r = acl_key a b) (acls s)) > 0))"

definition delete_acl :: "db_env \<Rightarrow> string \<Rightarrow> string \<Rightarrow> store \<Rightarrow> store \<times> string option" where
  "delete_acl env a b s =
     (case db_err env DeleteACL of
        Some e \<Rightarrow> (s, Some e)
      | None \<Rightarrow> (s\<lparr>acls := AList.delete (acl_key a b) (acls s)\<rparr>, None))"

section \<open>What each operation does to each table\<close>

lemma acl_key_commute: "acl_key a b = acl_key b a"
  by (auto simp: acl_key_def)

lemma acl_key_eq: "acl_key a b = acl_key c d \<longleftrightarrow> {a, b} = {c, d}"
  by (auto simp: acl_key_def doubleton_eq_iff)

text \<open>\<open>linked s a b\<close>: the two machines are authorised to talk.\<close>

definition linked :: "store \<Rightarrow> string \<Rightarrow> string \<Rightarrow> bool" where
  "linked s a b \<longleftrightarrow> map_of (acls s) (acl_key a b) \<noteq> None"

lemma has_acl_eq:
  "has_acl env a b s = (case db_err env CountACL of Some e \<Rightarrow> Inl e | None \<Rightarrow> Inr (linked s a b))"
  by (simp add: has_acl_def linked_def filter_key_Nil split: option.splits)

lemma upsert_machine_frame [store_simps]:
  "codes (fst (upsert_machine env mid name pub s)) = codes s"
  "acls (fst (upsert_machine env mid name pub s)) = acls s"
  by (auto simp: upsert_machine_def split: option.splits)

lemma create_code_frame [store_simps]:
  "machines (fst (create_code env own code ttl s)) = machines s"
  "acls (fst (create_code env own code ttl s)) = acls s"
  by (auto simp: create_code_def split: option.splits)

lemma consume_code_frame [store_simps]:
  "machines (fst (consume_code env code s)) = machines s"
  "acls (fst (consume_code env code s)) = acls s"
  by (auto simp: consume_code_def Let_def split: option.splits)

lemma add_acl_frame [store_simps]:
  "machines (fst (add_acl env a b s)) = machines s"
  "codes (fst (add_acl env a b s)) = codes s"
  by (auto simp: add_acl_def split: option.splits)

lemma delete_acl_frame [store_simps]:
  "machines (fst (delete_acl env a b s)) = machines s"
  "codes (fst (delete_acl env a b s)) = codes s"
  by (auto simp: delete_acl_def split: option.splits)

definition machine_ids :: "store \<Rightarrow> string set" where
  "machine_ids s = set (keys (machines s))"

lemma machine_ids_frame [store_simps]:
  "machine_ids (fst (create_code env own code ttl s)) = machine_ids s"
  "machine_ids (fst (consume_code env code s)) = machine_ids s"
  "machine_ids (fst (add_acl env a b s)) = machine_ids s"
  "machine_ids (fst (delete_acl env a b s)) = machine_ids s"
  by (simp_all add: machine_ids_def store_simps)

lemma machine_ids_upsert:
  "machine_ids (fst (upsert_machine env mid name pub s)) =
     (if snd (upsert_machine env mid name pub s) = None then insert mid (machine_ids s)
      else machine_ids s)"
  by (auto simp: machine_ids_def upsert_machine_def dom_update split: option.splits)

lemma linked_acls: "acls s = acls t \<Longrightarrow> linked s = linked t"
  by (simp add: linked_def fun_eq_iff)

lemma linked_frame [store_simps]:
  "linked (fst (upsert_machine env mid name pub s)) = linked s"
  "linked (fst (create_code env own code ttl s)) = linked s"
  "linked (fst (consume_code env code s)) = linked s"
  by (rule linked_acls, simp add: store_simps)+

lemma wf_store_empty [simp]: "wf_store empty_store"
  by (simp add: wf_store_def empty_store_def)

lemma wf_store_ops:
  assumes "wf_store s"
  shows "wf_store (fst (upsert_machine env mid name pub s))"
    and "wf_store (fst (create_code env own code ttl s))"
    and "wf_store (fst (consume_code env code s))"
    and "wf_store (fst (add_acl env a b s))"
    and "wf_store (fst (delete_acl env a b s))"
  using assms
  by (auto simp: wf_store_def upsert_machine_def create_code_def consume_code_def add_acl_def
      delete_acl_def Let_def split: option.splits)

lemma upsert_machine_lookup:
  "snd (upsert_machine env mid name pub s) = None \<Longrightarrow>
   \<exists>r. map_of (machines (fst (upsert_machine env mid name pub s))) = (map_of (machines s))(mid \<mapsto> r)
     \<and> row_name r = name \<and> row_pubkey r = pub
     \<and> row_created r = (case map_of (machines s) mid of None \<Rightarrow> db_now env | Some r0 \<Rightarrow> row_created r0)"
  by (auto simp: upsert_machine_def update_conv' split: option.splits)

lemma upsert_machine_error:
  "snd (upsert_machine env mid name pub s) \<noteq> None \<Longrightarrow> fst (upsert_machine env mid name pub s) = s"
  by (auto simp: upsert_machine_def split: option.splits)

lemma get_machine_upsert:
  assumes "snd (upsert_machine env mid name pub s) = None" and "db_err env' (GetStmt k) = None"
  shows "get_machine env' k (fst (upsert_machine env mid name pub s)) =
    (if k = mid then Inr (name, pub) else get_machine env' k s)"
  using upsert_machine_lookup [OF assms(1)] assms(2) by (auto simp: get_machine_def)


section \<open>Interface: who may talk to whom\<close>

text \<open>
  What the hub relies on: \<open>lnk s x y\<close> is the relation, \<open>add\<close> and \<open>del\<close> change it for one pair, in
  both directions at once, and a failed operation changes nothing. The client lemmas are the
  two a relay needs: a cut pair stays cut until it is granted again, and an operation on one
  pair does not touch another.
\<close>

locale link_acl =
  fixes add :: "'env \<Rightarrow> 'id \<Rightarrow> 'id \<Rightarrow> 's \<Rightarrow> 's \<times> string option"
    and del :: "'env \<Rightarrow> 'id \<Rightarrow> 'id \<Rightarrow> 's \<Rightarrow> 's \<times> string option"
    and lnk :: "'s \<Rightarrow> 'id \<Rightarrow> 'id \<Rightarrow> bool"
  assumes lnk_add: "snd (add e a b s) = None \<Longrightarrow>
      lnk (fst (add e a b s)) x y \<longleftrightarrow> lnk s x y \<or> {x, y} = {a, b}"
    and lnk_del: "snd (del e a b s) = None \<Longrightarrow>
      lnk (fst (del e a b s)) x y \<longleftrightarrow> lnk s x y \<and> {x, y} \<noteq> {a, b}"
    and add_err: "snd (add e a b s) \<noteq> None \<Longrightarrow> fst (add e a b s) = s"
    and del_err: "snd (del e a b s) \<noteq> None \<Longrightarrow> fst (del e a b s) = s"
    and lnk_sym: "lnk s x y = lnk s y x"
begin

lemma add_mono: "lnk s x y \<Longrightarrow> lnk (fst (add e a b s)) x y"
  by (cases "snd (add e a b s) = None") (simp_all add: lnk_add add_err)

lemma add_only: "lnk (fst (add e a b s)) x y \<Longrightarrow> lnk s x y \<or> {x, y} = {a, b}"
  by (cases "snd (add e a b s) = None") (simp_all add: lnk_add add_err)

lemma del_anti: "lnk (fst (del e a b s)) x y \<Longrightarrow> lnk s x y"
  by (cases "snd (del e a b s) = None") (simp_all add: lnk_del del_err)

lemma del_other: "{x, y} \<noteq> {a, b} \<Longrightarrow> lnk (fst (del e a b s)) x y = lnk s x y"
  by (cases "snd (del e a b s) = None") (simp_all add: lnk_del del_err)

lemma del_cuts:
  "snd (del e a b s) = None \<Longrightarrow> \<not> lnk (fst (del e a b s)) a b \<and> \<not> lnk (fst (del e a b s)) b a"
  by (simp add: lnk_del insert_commute)

lemma del_add:
  assumes "snd (add e a b s) = None" and "snd (del e' a b (fst (add e a b s))) = None"
  shows "lnk (fst (del e' a b (fst (add e a b s)))) x y \<longleftrightarrow> lnk s x y \<and> {x, y} \<noteq> {a, b}"
  using assms by (auto simp: lnk_add lnk_del)

end

lemma linked_sym: "linked s x y = linked s y x"
  by (simp add: linked_def acl_key_commute [of x])

interpretation acl: link_acl add_acl delete_acl linked
proof unfold_locales
  fix e a b x y and s :: store
  show "snd (add_acl e a b s) = None \<Longrightarrow>
      linked (fst (add_acl e a b s)) x y \<longleftrightarrow> linked s x y \<or> {x, y} = {a, b}"
    by (auto simp: add_acl_def linked_def split: option.splits if_splits)
      (auto simp: acl_key_eq)
  show "snd (delete_acl e a b s) = None \<Longrightarrow>
      linked (fst (delete_acl e a b s)) x y \<longleftrightarrow> linked s x y \<and> {x, y} \<noteq> {a, b}"
    by (auto simp: delete_acl_def linked_def acl_key_eq split: option.splits if_splits)
  show "snd (add_acl e a b s) \<noteq> None \<Longrightarrow> fst (add_acl e a b s) = s"
    by (auto simp: add_acl_def split: option.splits)
  show "snd (delete_acl e a b s) \<noteq> None \<Longrightarrow> fst (delete_acl e a b s) = s"
    by (auto simp: delete_acl_def split: option.splits)
  show "linked s x y = linked s y x" by (rule linked_sym)
qed

section \<open>Interface: one-time pairing codes\<close>

text \<open>
  \<open>pending s c\<close> is the owner and the deadline of an unredeemed code. Issuing a code needs it to
  be fresh; redeeming one returns its owner not later than the deadline and removes it; an error
  of either changes nothing.
\<close>

locale pairing_codes =
  fixes issue :: "'env \<Rightarrow> 'id \<Rightarrow> 'c \<Rightarrow> int \<Rightarrow> 's \<Rightarrow> 's \<times> string option"
    and redeem :: "'env \<Rightarrow> 'c \<Rightarrow> 's \<Rightarrow> 's \<times> 'id result"
    and pending :: "'s \<Rightarrow> 'c \<Rightarrow> ('id \<times> int) option"
    and clock :: "'env \<Rightarrow> int"
  assumes issue_ok: "snd (issue e own c ttl s) = None \<Longrightarrow>
      pending s c = None \<and> pending (fst (issue e own c ttl s)) = (pending s)(c \<mapsto> (own, clock e + ttl))"
    and issue_err: "snd (issue e own c ttl s) \<noteq> None \<Longrightarrow> fst (issue e own c ttl s) = s"
    and redeem_ok: "snd (redeem e c s) = Inr own \<Longrightarrow>
      (\<exists>d. pending s c = Some (own, d) \<and> clock e \<le> d) \<and>
      pending (fst (redeem e c s)) = (pending s)(c := None)"
    and redeem_err: "snd (redeem e c s) = Inl m \<Longrightarrow> fst (redeem e c s) = s"
begin

lemma redeem_once: "snd (redeem e c s) = Inr own \<Longrightarrow> snd (redeem e' c (fst (redeem e c s))) \<noteq> Inr own'"
  by (metis fun_upd_same option.distinct(1) redeem_ok)

lemma not_redeemable: "pending s c = None \<Longrightarrow> snd (redeem e c s) \<noteq> Inr own"
  using redeem_ok by fastforce

lemma redeem_pending: "pending (fst (redeem e c s)) c' = Some r \<Longrightarrow> pending s c' = Some r"
  by (cases "snd (redeem e c s)") (auto dest: redeem_ok redeem_err split: if_splits)

lemma issue_other: "c' \<noteq> c \<Longrightarrow> pending (fst (issue e own c ttl s)) c' = pending s c'"
  by (cases "snd (issue e own c ttl s) = None") (simp_all add: issue_ok issue_err)

lemma redeem_issued:
  assumes "snd (issue e own c ttl s) = None"
    and "snd (redeem e' c (fst (issue e own c ttl s))) = Inr own'"
  shows "own' = own \<and> clock e' \<le> clock e + ttl"
  using redeem_ok [OF assms(2)] issue_ok [OF assms(1)] by auto

end

definition pending_code :: "store \<Rightarrow> string \<Rightarrow> (string \<times> int) option" where
  "pending_code s c = map_option (\<lambda>r. (row_owner r, row_expires r)) (map_of (codes s) c)"

lemma pending_codes: "codes s = codes t \<Longrightarrow> pending_code s = pending_code t"
  by (simp add: pending_code_def fun_eq_iff)

interpretation pc: pairing_codes create_code consume_code pending_code db_now
proof unfold_locales
  fix e own c ttl m and s :: store
  show "snd (create_code e own c ttl s) = None \<Longrightarrow> pending_code s c = None \<and>
      pending_code (fst (create_code e own c ttl s)) = (pending_code s)(c \<mapsto> (own, db_now e + ttl))"
    by (auto simp: create_code_def pending_code_def fun_eq_iff split: option.splits)
  show "snd (create_code e own c ttl s) \<noteq> None \<Longrightarrow> fst (create_code e own c ttl s) = s"
    by (auto simp: create_code_def split: option.splits)
  show "snd (consume_code e c s) = Inr own \<Longrightarrow>
      (\<exists>d. pending_code s c = Some (own, d) \<and> db_now e \<le> d) \<and>
      pending_code (fst (consume_code e c s)) = (pending_code s)(c := None)"
    by (auto simp: consume_code_def pending_code_def Let_def fun_eq_iff
        split: option.splits if_splits)
  show "snd (consume_code e c s) = Inl m \<Longrightarrow> fst (consume_code e c s) = s"
    by (auto simp: consume_code_def Let_def split: option.splits if_splits)
qed

end
