(* ===== verification/Hub.thy ===== *)
theory Hub
  imports HubStore
begin

text \<open>
  The relay server (\<^verbatim>\<open>internal/hub/hub.go\<close>). A connection is a handle into \<open>h_conns\<close>, where the code
  has a pointer to a \<open>client\<close>; \<open>h_clients\<close> is the map from machine ids to connections. The \<open>send\<close>
  channel of a client is a queue of at most 64 messages: \<open>reply\<close> appends to it, drops the message
  when it is still full after the code's five seconds, and panics when the channel is closed. What
  the outside decides in one handler (database, map iteration order, random bytes) is the argument
  \<open>henv\<close>. \<open>relay_lookup\<close> and \<open>close_lookup\<close> are the two relay handlers up to the send: the code
  gives up the hub's mutex between the two halves.
\<close>

section \<open>State\<close>

record client =
  c_id :: string
  c_name :: string
  c_send :: "msg list"
  c_closed :: bool

record hub =
  h_store :: store
  h_token :: string
  h_clients :: "(string, nat) table"
  h_conns :: "nat \<rightharpoonup> client"
  h_panic :: bool

record henv =
  e_db :: db_env
  e_iter :: "nat list \<Rightarrow> nat list"
  e_rand :: "char list result"

definition new_hub :: "store \<Rightarrow> string \<Rightarrow> hub" where
  "new_hub s tok =
     \<lparr>h_store = s, h_token = tok, h_clients = [], h_conns = Map.empty, h_panic = False\<rparr>"

definition new_client :: client where
  "new_client = \<lparr>c_id = [], c_name = [], c_send = [], c_closed = False\<rparr>"

definition health :: "hub \<Rightarrow> nat" where
  "health h = length (h_clients h)"

definition client_id :: "hub \<Rightarrow> nat \<Rightarrow> string" where
  "client_id h c = (case h_conns h c of None \<Rightarrow> [] | Some cl \<Rightarrow> c_id cl)"

definition queue :: "hub \<Rightarrow> nat \<Rightarrow> msg list" where
  "queue h c = (case h_conns h c of None \<Rightarrow> [] | Some cl \<Rightarrow> c_send cl)"

definition is_open :: "hub \<Rightarrow> nat \<Rightarrow> bool" where
  "is_open h c = (case h_conns h c of None \<Rightarrow> False | Some cl \<Rightarrow> \<not> c_closed cl)"

section \<open>Replies and broadcasts\<close>

definition send_cap :: nat where
  "send_cap = 64"

definition reply :: "nat \<Rightarrow> msg \<Rightarrow> hub \<Rightarrow> hub" where
  "reply c m h =
     (case h_conns h c of
        None \<Rightarrow> h
      | Some cl \<Rightarrow>
          if c_closed cl then h\<lparr>h_panic := True\<rparr>
          else if length (c_send cl) < send_cap
               then h\<lparr>h_conns := (h_conns h)(c \<mapsto> cl\<lparr>c_send := c_send cl @ [m]\<rparr>)\<rparr>
               else h)"

definition reply_error :: "nat \<Rightarrow> string \<Rightarrow> hub \<Rightarrow> hub" where
  "reply_error c t h = reply c (zero_msg\<lparr>m_Type := TError, m_Message := t\<rparr>) h"

definition machine_entry :: "henv \<Rightarrow> hub \<Rightarrow> string \<Rightarrow> machine_info option" where
  "machine_entry env h mid =
     (case get_machine (e_db env) mid (h_store h) of
        Inl _ \<Rightarrow> None
      | Inr (stored, pub) \<Rightarrow>
         (case map_of (h_clients h) mid of
            None \<Rightarrow> Some \<lparr>mi_ID = mid, mi_Name = stored, mi_PubKey = pub, mi_Online = False\<rparr>
          | Some c \<Rightarrow>
              let live = (case h_conns h c of None \<Rightarrow> [] | Some cl \<Rightarrow> c_name cl)
              in Some \<lparr>mi_ID = mid, mi_Name = (if live \<noteq> [] then live else stored),
                       mi_PubKey = pub, mi_Online = True\<rparr>))"

definition machine_list :: "henv \<Rightarrow> hub \<Rightarrow> machine_info list" where
  "machine_list env h =
     (case list_machines (e_db env) (h_store h) of
        Inl _ \<Rightarrow> []
      | Inr ids \<Rightarrow> List.map_filter (machine_entry env h) ids)"

definition update_msg :: "machine_info list \<Rightarrow> msg" where
  "update_msg l = zero_msg\<lparr>m_Type := TMachineUpdate, m_Machines := l\<rparr>"

definition send_update :: "henv \<Rightarrow> nat \<Rightarrow> hub \<Rightarrow> hub" where
  "send_update env c h = reply c (update_msg (machine_list env h)) h"

definition broadcast_update :: "henv \<Rightarrow> hub \<Rightarrow> hub" where
  "broadcast_update env h =
     (let l = machine_list env h
      in fold (\<lambda>c. reply c (update_msg l)) (e_iter env (map snd (h_clients h))) h)"

section \<open>Pairing codes\<close>

definition code_chars :: string where
  "code_chars = ''ABCDEFGHJKLMNPQRSTUVWXYZ23456789''"

fun code_from :: "nat \<Rightarrow> char list \<Rightarrow> string" where
  "code_from i [] = []"
| "code_from i (v # vs) =
     (if i = 3 then ''-'' else []) @
     code_chars ! (byte_val v mod length code_chars) # code_from (Suc i) vs"

definition random_code :: "char list result \<Rightarrow> string result" where
  "random_code rnd = (case rnd of Inl e \<Rightarrow> Inl (''rand: '' @ e) | Inr b \<Rightarrow> Inr (code_from 0 b))"

definition new_code :: "henv \<Rightarrow> string \<Rightarrow> store \<Rightarrow> store \<times> string result" where
  "new_code env owner s =
     (case random_code (e_rand env) of
        Inl e \<Rightarrow> (s, Inl e)
      | Inr code \<Rightarrow>
         (case create_code (e_db env) owner code codeTTL s of
            (s', Some e) \<Rightarrow> (s', Inl e)
          | (s', None) \<Rightarrow> (s', Inr code)))"

section \<open>Handlers\<close>

definition register :: "nat \<Rightarrow> string \<Rightarrow> string \<Rightarrow> hub \<Rightarrow> hub" where
  "register c mid name h =
     (case h_conns h c of
        None \<Rightarrow> h
      | Some cl \<Rightarrow>
          h\<lparr>h_clients := AList.update mid c
                (if c_id cl \<noteq> [] then AList.delete (c_id cl) (h_clients h) else h_clients h),
            h_conns := (h_conns h)(c \<mapsto> cl\<lparr>c_id := mid, c_name := name\<rparr>)\<rparr>)"

definition on_hello :: "henv \<Rightarrow> nat \<Rightarrow> msg \<Rightarrow> hub \<Rightarrow> hub" where
  "on_hello env c m h =
     (if m_MachineID m = [] \<or> m_PubKey m = [] then
        reply_error c ''hello requires machine_id and pubkey'' h
      else if h_token h \<noteq> [] \<and> m_Token m \<noteq> h_token h then
        reply_error c ''invalid hub token'' h
      else
        (case upsert_machine (e_db env) (m_MachineID m) (m_Name m) (m_PubKey m) (h_store h) of
           (s, Some e) \<Rightarrow> reply_error c (''store: '' @ e) (h\<lparr>h_store := s\<rparr>)
         | (s, None) \<Rightarrow>
            (let h1 = register c (m_MachineID m) (m_Name m) (h\<lparr>h_store := s\<rparr>);
                 h2 = reply c (zero_msg\<lparr>m_Type := TWelcome, m_MachineID := m_MachineID m,
                                m_Name := m_Name m\<rparr>) h1
             in broadcast_update env h2)))"

definition on_create_code :: "henv \<Rightarrow> nat \<Rightarrow> hub \<Rightarrow> hub" where
  "on_create_code env c h =
     (if client_id h c = [] then reply_error c ''not registered'' h
      else
        (case new_code env (client_id h c) (h_store h) of
           (s, Inl e) \<Rightarrow> reply_error c e (h\<lparr>h_store := s\<rparr>)
         | (s, Inr code) \<Rightarrow>
             reply c (zero_msg\<lparr>m_Type := TCodeCreated, m_Code := code\<rparr>) (h\<lparr>h_store := s\<rparr>)))"

definition on_pair :: "henv \<Rightarrow> nat \<Rightarrow> msg \<Rightarrow> hub \<Rightarrow> hub" where
  "on_pair env c m h =
     (if client_id h c = [] then reply_error c ''not registered'' h
      else
        (case consume_code (e_db env) (m_Code m) (h_store h) of
           (s, Inl e) \<Rightarrow> reply_error c e (h\<lparr>h_store := s\<rparr>)
         | (s, Inr owner) \<Rightarrow>
             if owner = client_id h c then
               reply_error c ''cannot pair with yourself'' (h\<lparr>h_store := s\<rparr>)
             else
               (case upsert_machine (e_db env) (client_id h c) (m_Name m) (m_PubKey m) s of
                  (s', Some e) \<Rightarrow> reply_error c (''store: '' @ e) (h\<lparr>h_store := s'\<rparr>)
                | (s', None) \<Rightarrow>
                   (case add_acl (e_db env) owner (client_id h c) s' of
                      (s'', Some e) \<Rightarrow> reply_error c (''store: '' @ e) (h\<lparr>h_store := s''\<rparr>)
                    | (s'', None) \<Rightarrow>
                        broadcast_update env
                          (reply c (zero_msg\<lparr>m_Type := TPaired, m_Peer := Some (zero_info\<lparr>mi_ID := owner\<rparr>)\<rparr>)
                             (h\<lparr>h_store := s''\<rparr>))))))"

definition on_revoke :: "henv \<Rightarrow> nat \<Rightarrow> msg \<Rightarrow> hub \<Rightarrow> hub" where
  "on_revoke env c m h =
     (if client_id h c = [] \<or> m_Target m = [] then reply_error c ''revoke requires a target'' h
      else
        (case delete_acl (e_db env) (client_id h c) (m_Target m) (h_store h) of
           (s, Some e) \<Rightarrow> reply_error c (''store: '' @ e) (h\<lparr>h_store := s\<rparr>)
         | (s, None) \<Rightarrow>
             broadcast_update env
               (reply c (zero_msg\<lparr>m_Type := TRevoked, m_Target := m_Target m\<rparr>) (h\<lparr>h_store := s\<rparr>))))"

definition relay_msg :: "string \<Rightarrow> msg \<Rightarrow> msg" where
  "relay_msg from m =
     zero_msg\<lparr>m_Type := TRelay, m_From := from, m_Channel := m_Channel m,
       m_Service := m_Service m, m_Dial := m_Dial m, m_Data := m_Data m\<rparr>"

definition relay_lookup :: "henv \<Rightarrow> nat \<Rightarrow> msg \<Rightarrow> hub \<Rightarrow> hub \<times> (nat \<times> msg) option" where
  "relay_lookup env c m h =
     (if client_id h c = [] \<or> m_To m = [] \<or> m_Channel m = [] then (h, None)
      else
        (case has_acl (e_db env) (client_id h c) (m_To m) (h_store h) of
           Inl _ \<Rightarrow> (h, None)
         | Inr False \<Rightarrow>
             (reply c (zero_msg\<lparr>m_Type := TError, m_Channel := m_Channel m,
                m_Message := ''no link to '' @ m_To m @ '' (pair first, or ask the owner to pair)''\<rparr>) h,
              None)
         | Inr True \<Rightarrow>
            (case map_of (h_clients h) (m_To m) of
               None \<Rightarrow>
                 (reply c (zero_msg\<lparr>m_Type := TError, m_Channel := m_Channel m,
                    m_Message := m_To m @ '' is offline''\<rparr>) h, None)
             | Some t \<Rightarrow> (h, Some (t, relay_msg (client_id h c) m)))))"

definition close_lookup :: "nat \<Rightarrow> msg \<Rightarrow> hub \<Rightarrow> (nat \<times> msg) option" where
  "close_lookup c m h =
     (if client_id h c = [] \<or> m_To m = [] \<or> m_Channel m = [] then None
      else
        (case map_of (h_clients h) (m_To m) of
           None \<Rightarrow> None
         | Some t \<Rightarrow> Some (t, zero_msg\<lparr>m_Type := TRelayClose, m_From := client_id h c,
                               m_Channel := m_Channel m\<rparr>)))"

definition send_found :: "(nat \<times> msg) option \<Rightarrow> hub \<Rightarrow> hub" where
  "send_found found h = (case found of None \<Rightarrow> h | Some (t, x) \<Rightarrow> reply t x h)"

definition on_relay :: "henv \<Rightarrow> nat \<Rightarrow> msg \<Rightarrow> hub \<Rightarrow> hub" where
  "on_relay env c m h = (case relay_lookup env c m h of (h', found) \<Rightarrow> send_found found h')"

definition on_relay_close :: "nat \<Rightarrow> msg \<Rightarrow> hub \<Rightarrow> hub" where
  "on_relay_close c m h = send_found (close_lookup c m h) h"

definition handle :: "henv \<Rightarrow> nat \<Rightarrow> msg \<Rightarrow> hub \<Rightarrow> hub" where
  "handle env c m h =
     (if m_Type m = THello then on_hello env c m h
      else if m_Type m = TCreateCode then on_create_code env c h
      else if m_Type m = TPair then on_pair env c m h
      else if m_Type m = TRevoke then on_revoke env c m h
      else if m_Type m = TList then send_update env c h
      else if m_Type m = TRelay then on_relay env c m h
      else if m_Type m = TRelayClose then on_relay_close c m h
      else reply_error c (''unknown message type: '' @ m_Type m) h)"

section \<open>Sessions\<close>

text \<open>
  One iteration of \<open>readLoop\<close> on a received frame, the tail of \<open>ServeHTTP\<close> once the loop has
  returned, and the writer taking one message out of the queue.
\<close>

datatype frame = Frame msg | BadFrame string

fun read_frame :: "henv \<Rightarrow> nat \<Rightarrow> frame \<Rightarrow> hub \<Rightarrow> hub" where
  "read_frame env c (Frame m) h = handle env c m h"
| "read_frame env c (BadFrame e) h = reply_error c (''bad message: '' @ e) h"

definition accept :: "nat \<Rightarrow> hub \<Rightarrow> hub" where
  "accept c h = h\<lparr>h_conns := (h_conns h)(c \<mapsto> new_client)\<rparr>"

definition unregister :: "nat \<Rightarrow> hub \<Rightarrow> hub" where
  "unregister c h =
     (case h_conns h c of
        None \<Rightarrow> h
      | Some cl \<Rightarrow>
          h\<lparr>h_clients := (if c_id cl \<noteq> [] then AList.delete (c_id cl) (h_clients h) else h_clients h),
            h_conns := (h_conns h)(c \<mapsto> cl\<lparr>c_closed := True\<rparr>)\<rparr>)"

definition disconnect :: "henv \<Rightarrow> nat \<Rightarrow> hub \<Rightarrow> hub" where
  "disconnect env c h =
     (let h1 = unregister c h in if client_id h c \<noteq> [] then broadcast_update env h1 else h1)"

definition drain :: "nat \<Rightarrow> hub \<Rightarrow> hub" where
  "drain c h =
     (case h_conns h c of
        None \<Rightarrow> h
      | Some cl \<Rightarrow> h\<lparr>h_conns := (h_conns h)(c \<mapsto> cl\<lparr>c_send := tl (c_send cl)\<rparr>)\<rparr>)"

text \<open>The whole session of one connection: accept it, read its frames, unregister it.\<close>

definition serve_http :: "nat \<Rightarrow> (henv \<times> frame) list \<Rightarrow> henv \<Rightarrow> hub \<Rightarrow> hub" where
  "serve_http c frames env h =
     disconnect env c (fold (\<lambda>(env', f). read_frame env' c f) frames (accept c h))"

end
