(* ===== verification/HubRun.thy ===== *)
theory HubRun
  imports Hub
begin

text \<open>
  Executions of the hub: the events of its connections, one step per event, and runs. A handler is
  one step here, as it is for the state behind the hub's mutex; theory HubRace looks at the two
  places where a handler gives the mutex up. The first part says what sending does and does not
  change (\<open>sends_only\<close>), the second states the hub's invariant and proves that every step keeps
  it, the third follows the ACL and the pairing codes through runs.
\<close>

section \<open>What sending changes\<close>

definition shape :: "hub \<Rightarrow> nat \<Rightarrow> (string \<times> string \<times> bool) option" where
  "shape h d = map_option (\<lambda>cl. (c_id cl, c_name cl, c_closed cl)) (h_conns h d)"

definition is_closed :: "hub \<Rightarrow> nat \<Rightarrow> bool" where
  "is_closed h d \<longleftrightarrow> (case shape h d of None \<Rightarrow> False | Some (_, _, x) \<Rightarrow> x)"

text \<open>
  \<open>sends_only P h h'\<close>: from \<open>h\<close> to \<open>h'\<close> nothing but queues changed; each grew at its end, never
  past its capacity, by messages that satisfy \<open>P\<close>.
\<close>

definition sends_only :: "(nat \<Rightarrow> msg \<Rightarrow> bool) \<Rightarrow> hub \<Rightarrow> hub \<Rightarrow> bool" where
  "sends_only P h h' \<longleftrightarrow>
     h_store h' = h_store h \<and> h_token h' = h_token h \<and> h_clients h' = h_clients h \<and>
     shape h' = shape h \<and>
     (\<forall>d. \<exists>xs. queue h' d = queue h d @ xs \<and> (\<forall>x\<in>set xs. P d x) \<and>
        (length (queue h d) \<le> send_cap \<longrightarrow> length (queue h' d) \<le> send_cap))"

lemma sends_only_refl [simp, intro]: "sends_only P h h"
  by (auto simp: sends_only_def)

lemma sends_only_trans [trans]:
  assumes "sends_only P h h1" and "sends_only P h1 h2"
  shows "sends_only P h h2"
proof -
  have "\<exists>xs. queue h2 d = queue h d @ xs \<and> (\<forall>x\<in>set xs. P d x) \<and>
      (length (queue h d) \<le> send_cap \<longrightarrow> length (queue h2 d) \<le> send_cap)" for d
  proof -
    obtain xs where "queue h1 d = queue h d @ xs" "\<forall>x\<in>set xs. P d x"
      "length (queue h d) \<le> send_cap \<longrightarrow> length (queue h1 d) \<le> send_cap"
      using assms(1) unfolding sends_only_def by blast
    moreover obtain ys where "queue h2 d = queue h1 d @ ys" "\<forall>x\<in>set ys. P d x"
      "length (queue h1 d) \<le> send_cap \<longrightarrow> length (queue h2 d) \<le> send_cap"
      using assms(2) unfolding sends_only_def by blast
    ultimately show ?thesis by (intro exI [of _ "xs @ ys"]) auto
  qed
  then show ?thesis using assms by (simp add: sends_only_def)
qed

lemma sends_only_mono: "sends_only P h h' \<Longrightarrow> (\<And>d x. P d x \<Longrightarrow> Q d x) \<Longrightarrow> sends_only Q h h'"
  unfolding sends_only_def by (metis (no_types, lifting))

lemma queue_reply:
  "queue (reply c m h) d =
     (if d = c \<and> is_open h c \<and> length (queue h c) < send_cap then queue h d @ [m] else queue h d)"
  by (auto simp: reply_def queue_def is_open_def split: option.splits)

lemma shape_reply [simp]: "shape (reply c m h) = shape h"
  by (auto simp: reply_def shape_def fun_eq_iff split: option.splits)

lemma reply_frame [simp]:
  "h_store (reply c m h) = h_store h" "h_token (reply c m h) = h_token h"
  "h_clients (reply c m h) = h_clients h"
  by (auto simp: reply_def split: option.splits)

lemma panic_reply [simp]: "h_panic (reply c m h) \<longleftrightarrow> h_panic h \<or> is_closed h c"
  by (auto simp: reply_def is_closed_def shape_def split: option.splits)

lemma sends_only_reply: "P c m \<Longrightarrow> sends_only P h (reply c m h)"
  by (auto simp: sends_only_def queue_reply)

lemma sends_only_reply_error:
  "P c (zero_msg\<lparr>m_Type := TError, m_Message := t\<rparr>) \<Longrightarrow> sends_only P h (reply_error c t h)"
  by (simp add: reply_error_def sends_only_reply)

lemma panic_reply_error [simp]: "h_panic (reply_error c t h) \<longleftrightarrow> h_panic h \<or> is_closed h c"
  by (simp add: reply_error_def)

lemma sends_only_fold:
  "(\<And>c. P c x) \<Longrightarrow> sends_only P h (fold (\<lambda>c. reply c x) cs h)"
proof (induction cs arbitrary: h)
  case (Cons c cs)
  then show ?case using sends_only_trans [OF sends_only_reply [of P c x h]] by simp
qed simp

lemma is_closed_reply [simp]: "is_closed (reply c m h) = is_closed h"
  by (simp add: is_closed_def fun_eq_iff)

lemma panic_fold: "h_panic (fold (\<lambda>c. reply c x) cs h) \<longleftrightarrow> h_panic h \<or> (\<exists>c\<in>set cs. is_closed h c)"
  by (induction cs arbitrary: h) auto

lemma sends_only_broadcast:
  "(\<And>d l. P d (update_msg l)) \<Longrightarrow> sends_only P h (broadcast_update env h)"
  by (simp add: broadcast_update_def Let_def sends_only_fold)

lemma sends_only_send_update:
  "(\<And>d l. P d (update_msg l)) \<Longrightarrow> sends_only P h (send_update env c h)"
  by (simp add: send_update_def sends_only_reply)

lemma shape_fields:
  "client_id h c = (case shape h c of None \<Rightarrow> [] | Some (i, _, _) \<Rightarrow> i)"
  "is_open h c \<longleftrightarrow> (case shape h c of None \<Rightarrow> False | Some (_, _, x) \<Rightarrow> \<not> x)"
  by (auto simp: client_id_def is_open_def shape_def split: option.splits)

lemma sends_onlyD:
  assumes "sends_only P h h'"
  shows "h_store h' = h_store h" "h_token h' = h_token h" "h_clients h' = h_clients h"
    "shape h' = shape h" "client_id h' = client_id h" "is_open h' = is_open h"
    "is_closed h' = is_closed h"
  using assms by (auto simp: sends_only_def shape_fields is_closed_def fun_eq_iff)

lemma sends_only_queue:
  "sends_only P h h' \<Longrightarrow> \<exists>xs. queue h' d = queue h d @ xs \<and> (\<forall>x\<in>set xs. P d x)"
  unfolding sends_only_def by blast

lemma store_upd_simps [simp]:
  "shape (h\<lparr>h_store := s\<rparr>) = shape h" "queue (h\<lparr>h_store := s\<rparr>) = queue h"
  "client_id (h\<lparr>h_store := s\<rparr>) = client_id h" "is_open (h\<lparr>h_store := s\<rparr>) = is_open h"
  "is_closed (h\<lparr>h_store := s\<rparr>) = is_closed h"
  by (auto simp: shape_def queue_def client_id_def is_open_def is_closed_def fun_eq_iff)

section \<open>Events, steps and runs\<close>

datatype event =
    Accept nat
  | Inbound henv nat frame
  | Drain nat
  | Disconnect henv nat

text \<open>
  A frame is read, and a connection is taken down, only while its read loop runs: before
  \<open>ServeHTTP\<close> has closed it. A handle is used for one connection only.
\<close>

fun hub_step :: "event \<Rightarrow> hub \<Rightarrow> hub" where
  "hub_step (Accept c) h = (if h_conns h c = None then accept c h else h)"
| "hub_step (Inbound env c f) h = (if is_open h c then read_frame env c f h else h)"
| "hub_step (Drain c) h = drain c h"
| "hub_step (Disconnect env c) h = (if is_open h c then disconnect env c h else h)"

abbreviation hub_run :: "event list \<Rightarrow> hub \<Rightarrow> hub" where
  "hub_run es h \<equiv> fold hub_step es h"

fun event_env :: "event \<Rightarrow> henv option" where
  "event_env (Inbound env _ _) = Some env"
| "event_env (Disconnect env _) = Some env"
| "event_env _ = None"

section \<open>The invariant\<close>

text \<open>
  The map of clients points from each id to an open connection that registered under it; a
  registered machine has a row; the owner of a pending code has a row; every ACL is between two
  different machines with rows, smaller id first; queues respect their capacity; no handler
  panicked.
\<close>

definition clients_ok :: "hub \<Rightarrow> bool" where
  "clients_ok h \<longleftrightarrow> wf_table (h_clients h) \<and>
     (\<forall>i c. map_of (h_clients h) i = Some c \<longrightarrow>
        i \<noteq> [] \<and> (\<exists>n. shape h c = Some (i, n, False)))"

definition rows_ok :: "hub \<Rightarrow> bool" where
  "rows_ok h \<longleftrightarrow> (\<forall>c. client_id h c \<noteq> [] \<longrightarrow> client_id h c \<in> machine_ids (h_store h))"

definition store_ok :: "store \<Rightarrow> bool" where
  "store_ok s \<longleftrightarrow> wf_store s \<and>
     (\<forall>r\<in>set (codes s). row_owner (snd r) \<in> machine_ids s) \<and>
     (\<forall>r\<in>set (acls s). fst (fst r) < snd (fst r) \<and>
        fst (fst r) \<in> machine_ids s \<and> snd (fst r) \<in> machine_ids s)"

definition queues_ok :: "hub \<Rightarrow> bool" where
  "queues_ok h \<longleftrightarrow> (\<forall>d. length (queue h d) \<le> send_cap)"

definition hub_inv :: "hub \<Rightarrow> bool" where
  "hub_inv h \<longleftrightarrow> clients_ok h \<and> rows_ok h \<and> store_ok (h_store h) \<and> queues_ok h \<and> \<not> h_panic h"

lemma store_ok_empty [simp]: "store_ok empty_store"
  by (simp add: store_ok_def) (simp add: empty_store_def)

lemma hub_inv_new: "store_ok s \<Longrightarrow> hub_inv (new_hub s tok)"
  by (simp add: hub_inv_def new_hub_def clients_ok_def rows_ok_def shape_def queues_ok_def queue_def client_id_def)

lemma hub_inv_sends:
  assumes "hub_inv h" and "sends_only P h h'" and "\<not> h_panic h'"
  shows "hub_inv h'"
proof -
  note [simp] = sends_onlyD [OF assms(2)]
  have "queues_ok h'"
    using assms(1,2) unfolding hub_inv_def queues_ok_def sends_only_def by metis
  then show ?thesis
    using assms(1,3) by (simp add: hub_inv_def clients_ok_def rows_ok_def)
qed

lemma hub_inv_open: "hub_inv h \<Longrightarrow> map_of (h_clients h) i = Some c \<Longrightarrow> \<not> is_closed h c \<and> is_open h c"
  unfolding hub_inv_def clients_ok_def is_closed_def shape_fields by fastforce

lemma registered_id: "hub_inv h \<Longrightarrow> map_of (h_clients h) i = Some c \<Longrightarrow> client_id h c = i \<and> i \<noteq> []"
  unfolding hub_inv_def clients_ok_def shape_fields by fastforce

lemma is_open_not_closed: "is_open h c \<Longrightarrow> \<not> is_closed h c"
  by (auto simp: shape_fields is_closed_def split: option.splits)

lemma broadcast_no_panic:
  assumes "hub_inv h" and "is_order (e_iter env)"
  shows "\<not> h_panic (broadcast_update env h)"
proof -
  have "\<not> is_closed h c" if "c \<in> set (map snd (h_clients h))" for c
  proof -
    from that obtain i where "(i, c) \<in> set (h_clients h)" by auto
    then have "map_of (h_clients h) i = Some c"
      using assms(1) by (simp add: hub_inv_def clients_ok_def wf_table_lookup)
    then show ?thesis using hub_inv_open [OF assms(1)] by blast
  qed
  then show ?thesis
    using assms by (auto simp: broadcast_update_def Let_def panic_fold hub_inv_def)
qed

lemma hub_inv_broadcast: "hub_inv h \<Longrightarrow> is_order (e_iter env) \<Longrightarrow> hub_inv (broadcast_update env h)"
  by (rule hub_inv_sends [where P = "\<lambda>_ _. True"]) (auto intro: sends_only_broadcast dest: broadcast_no_panic)

lemma hub_inv_reply: "hub_inv h \<Longrightarrow> is_open h c \<Longrightarrow> hub_inv (reply c m h)"
  by (rule hub_inv_sends [where P = "\<lambda>_ _. True"])
    (auto intro: sends_only_reply simp: is_open_not_closed hub_inv_def)

lemma hub_inv_reply_error: "hub_inv h \<Longrightarrow> is_open h c \<Longrightarrow> hub_inv (reply_error c t h)"
  by (simp add: reply_error_def hub_inv_reply)


subsection \<open>Every step keeps it\<close>

lemma store_ok_upsert:
  assumes "store_ok s"
  shows "store_ok (fst (upsert_machine env mid name pub s))"
  using assms wf_store_ops(1) [of s env mid name pub]
  by (auto simp: store_ok_def store_simps machine_ids_upsert)

lemma store_ok_create:
  assumes "store_ok s" and "own \<in> machine_ids s"
  shows "store_ok (fst (create_code env own code ttl s))"
  using assms wf_store_ops(2) [of s env own code ttl]
  by (auto simp: store_ok_def store_simps)
    (auto simp: create_code_def split: option.splits dest!: set_update_imp)

lemma store_ok_consume:
  assumes "store_ok s"
  shows "store_ok (fst (consume_code env code s))"
  using assms wf_store_ops(3) [of s env code]
  by (auto simp: store_ok_def store_simps)
    (auto simp: consume_code_def Let_def split: option.splits if_splits dest!: set_delete_imp)

lemma store_ok_add_acl:
  assumes "store_ok s" and "a \<noteq> b" and "a \<in> machine_ids s" and "b \<in> machine_ids s"
  shows "store_ok (fst (add_acl env a b s))"
  using assms wf_store_ops(4) [of s env a b]
  by (simp add: store_ok_def store_simps)
    (auto simp: add_acl_def acl_key_def split: option.splits dest!: set_update_imp)

lemma store_ok_delete_acl:
  assumes "store_ok s"
  shows "store_ok (fst (delete_acl env a b s))"
  using assms wf_store_ops(5) [of s env a b]
  by (simp add: store_ok_def store_simps)
    (auto simp: delete_acl_def split: option.splits dest!: set_delete_imp)

lemma redeem_owner_row:
  assumes "store_ok s" and "snd (consume_code env code s) = Inr own"
  shows "own \<in> machine_ids s"
proof -
  obtain d where "pending_code s code = Some (own, d)"
    using pc.redeem_ok [OF assms(2)] by blast
  then obtain r where "map_of (codes s) code = Some r" and "row_owner r = own"
    by (auto simp: pending_code_def)
  then show ?thesis using assms(1) by (force simp: store_ok_def dest: map_of_SomeD)
qed

lemma hub_inv_store:
  assumes "hub_inv h" and "store_ok s"
    and "machine_ids (h_store h) \<subseteq> machine_ids s"
  shows "hub_inv (h\<lparr>h_store := s\<rparr>)"
  using assms by (auto simp: hub_inv_def clients_ok_def rows_ok_def queues_ok_def)

lemma shape_register:
  "shape (register c mid name h) d =
     (if d = c \<and> h_conns h c \<noteq> None then Some (mid, name, is_closed h c) else shape h d)"
  by (auto simp: register_def shape_def is_closed_def split: option.splits)

lemma register_frame [simp]:
  "h_store (register c mid name h) = h_store h" "h_token (register c mid name h) = h_token h"
  "h_panic (register c mid name h) = h_panic h" "queue (register c mid name h) = queue h"
  by (auto simp: register_def queue_def fun_eq_iff split: option.splits)

lemma clients_register:
  "h_conns h c \<noteq> None \<Longrightarrow> h_clients (register c mid name h) =
     AList.update mid c (if client_id h c \<noteq> [] then AList.delete (client_id h c) (h_clients h) else h_clients h)"
  by (auto simp: register_def client_id_def)

lemma is_open_conn: "is_open h c \<Longrightarrow> h_conns h c \<noteq> None"
  by (auto simp: is_open_def split: option.splits)

lemma clients_ok_register:
  assumes "clients_ok h" and "is_open h c" and "mid \<noteq> []"
  shows "clients_ok (register c mid name h)"
proof -
  note c = is_open_conn [OF assms(2)] is_open_not_closed [OF assms(2)]
  have "\<exists>n. shape (register c mid name h) d = Some (i, n, False)"
    if "map_of (h_clients (register c mid name h)) i = Some d" and "i \<noteq> mid" for i d
  proof -
    from that have "map_of (h_clients h) i = Some d" "i \<noteq> client_id h c"
      using assms(1) c by (auto simp: clients_register clients_ok_def split: if_splits)
    then obtain n where "shape h d = Some (i, n, False)" using assms(1) by (auto simp: clients_ok_def)
    moreover from this have "d \<noteq> c" using \<open>i \<noteq> client_id h c\<close> by (auto simp: shape_fields)
    ultimately show ?thesis by (simp add: shape_register)
  qed
  moreover have "map_of (h_clients (register c mid name h)) mid = Some c"
    using c by (simp add: clients_register)
  ultimately show ?thesis
    using assms c
    by (auto simp: clients_ok_def clients_register shape_register split: if_splits)
qed

lemma hub_inv_register:
  assumes "hub_inv h" and "is_open h c" and "mid \<noteq> []" and "mid \<in> machine_ids (h_store h)"
  shows "hub_inv (register c mid name h)"
proof -
  have "rows_ok (register c mid name h)"
    using assms unfolding hub_inv_def rows_ok_def
    by (auto simp: shape_fields shape_register)
  then show ?thesis
    using assms by (simp add: hub_inv_def clients_ok_register queues_ok_def)
qed

lemma is_open_register [simp]: "is_open h c \<Longrightarrow> is_open (register c mid name h) c"
  by (auto simp: shape_fields shape_register is_open_conn is_closed_def split: option.splits)


lemmas hub_inv_intros = hub_inv_reply hub_inv_reply_error hub_inv_broadcast hub_inv_store hub_inv_register

lemma hub_inv_storeD: "hub_inv h \<Longrightarrow> store_ok (h_store h)"
  by (simp add: hub_inv_def)

lemma client_row: "hub_inv h \<Longrightarrow> client_id h c \<noteq> [] \<Longrightarrow> client_id h c \<in> machine_ids (h_store h)"
  by (simp add: hub_inv_def rows_ok_def)

lemma is_open_reply [simp]: "is_open (reply c m h) = is_open h"
  by (simp add: shape_fields fun_eq_iff)

lemma hub_inv_on_hello:
  assumes "hub_inv h" and "is_open h c" and "is_order (e_iter env)"
  shows "hub_inv (on_hello env c m h)"
proof (cases "upsert_machine (e_db env) (m_MachineID m) (m_Name m) (m_PubKey m) (h_store h)")
  case (Pair s r)
  have s: "store_ok s" "machine_ids (h_store h) \<subseteq> machine_ids s"
    using store_ok_upsert [OF hub_inv_storeD [OF assms(1)], of "e_db env" "m_MachineID m" "m_Name m" "m_PubKey m"]
      machine_ids_upsert [of "e_db env" "m_MachineID m" "m_Name m" "m_PubKey m" "h_store h"] Pair
    by (auto split: if_splits)
  have "r = None \<Longrightarrow> m_MachineID m \<in> machine_ids s"
    using machine_ids_upsert [of "e_db env" "m_MachineID m" "m_Name m" "m_PubKey m" "h_store h"] Pair
    by auto
  then show ?thesis
    using assms s Pair by (auto simp: on_hello_def Let_def intro!: hub_inv_intros split: option.splits)
qed

lemma hub_inv_on_create_code:
  assumes "hub_inv h" and "is_open h c"
  shows "hub_inv (on_create_code env c h)"
proof (cases "client_id h c = []")
  case False
  have "store_ok (fst (new_code env (client_id h c) (h_store h)))"
    "machine_ids (fst (new_code env (client_id h c) (h_store h))) = machine_ids (h_store h)"
    using store_ok_create [OF hub_inv_storeD [OF assms(1)] client_row [OF assms(1) False]]
      machine_ids_frame(1)
    by (auto simp: new_code_def hub_inv_storeD [OF assms(1)] split: sum.splits prod.splits option.splits)
      (metis fst_conv)+
  then show ?thesis
    using assms False
    by (auto simp: on_create_code_def intro!: hub_inv_intros split: prod.splits sum.splits)
qed (use assms in \<open>simp add: on_create_code_def hub_inv_reply_error\<close>)

lemma hub_inv_on_revoke:
  assumes "hub_inv h" and "is_open h c" and "is_order (e_iter env)"
  shows "hub_inv (on_revoke env c m h)"
proof -
  have "store_ok (fst (delete_acl (e_db env) (client_id h c) (m_Target m) (h_store h)))"
    using hub_inv_storeD [OF assms(1)] by (rule store_ok_delete_acl)
  moreover have "machine_ids (fst (delete_acl (e_db env) (client_id h c) (m_Target m) (h_store h)))
      = machine_ids (h_store h)"
    by (simp add: store_simps)
  ultimately show ?thesis
    using assms by (auto simp: on_revoke_def intro!: hub_inv_intros split: prod.splits option.splits)
qed

lemma hub_inv_on_pair:
  assumes "hub_inv h" and "is_open h c" and "is_order (e_iter env)"
  shows "hub_inv (on_pair env c m h)"
proof (cases "client_id h c = []")
  case False
  note row = client_row [OF assms(1) False]
  obtain s r where s: "consume_code (e_db env) (m_Code m) (h_store h) = (s, r)" by fastforce
  have ok: "store_ok s" and ids: "machine_ids s = machine_ids (h_store h)"
    using store_ok_consume [OF hub_inv_storeD [OF assms(1)], of "e_db env" "m_Code m"]
      machine_ids_frame(2) [of "e_db env" "m_Code m" "h_store h"] s by simp_all
  obtain s' r' where s': "upsert_machine (e_db env) (client_id h c) (m_Name m) (m_PubKey m) s = (s', r')"
    by fastforce
  have ok': "store_ok s'" and ids': "machine_ids (h_store h) \<subseteq> machine_ids s'"
    using store_ok_upsert [OF ok, of "e_db env" "client_id h c" "m_Name m" "m_PubKey m"]
      machine_ids_upsert [of "e_db env" "client_id h c" "m_Name m" "m_PubKey m" s] s' ids
    by (auto split: if_splits)
  have added: "store_ok (fst (add_acl (e_db env) own (client_id h c) s'))
      \<and> machine_ids (h_store h) \<subseteq> machine_ids (fst (add_acl (e_db env) own (client_id h c) s'))"
    if "r = Inr own" and "own \<noteq> client_id h c" for own
  proof -
    have "own \<in> machine_ids (h_store h)"
      using redeem_owner_row [OF hub_inv_storeD [OF assms(1)]] s that(1) by (metis snd_conv)
    then show ?thesis
      using store_ok_add_acl [OF ok' that(2)] row ids' by (auto simp: store_simps)
  qed
  show ?thesis
    using assms False s s' ok ids ok' ids' added
    by (auto simp: on_pair_def intro!: hub_inv_intros split: sum.splits option.splits prod.splits)
qed (use assms in \<open>simp add: on_pair_def hub_inv_reply_error\<close>)


lemma relay_lookup_sends: "sends_only (\<lambda>_ x. m_Type x = TError) h (fst (relay_lookup env c m h))"
  by (auto simp: relay_lookup_def intro!: sends_only_reply split: sum.splits bool.splits option.splits)

lemma relay_lookup_found:
  "snd (relay_lookup env c m h) = Some (t, x) \<longleftrightarrow>
     client_id h c \<noteq> [] \<and> m_To m \<noteq> [] \<and> m_Channel m \<noteq> [] \<and>
     has_acl (e_db env) (client_id h c) (m_To m) (h_store h) = Inr True \<and>
     map_of (h_clients h) (m_To m) = Some t \<and> x = relay_msg (client_id h c) m"
  by (auto simp: relay_lookup_def split: sum.splits bool.splits option.splits)

lemma close_lookup_found:
  "close_lookup c m h = Some (t, x) \<longleftrightarrow>
     client_id h c \<noteq> [] \<and> m_To m \<noteq> [] \<and> m_Channel m \<noteq> [] \<and>
     map_of (h_clients h) (m_To m) = Some t \<and>
     x = zero_msg\<lparr>m_Type := TRelayClose, m_From := client_id h c, m_Channel := m_Channel m\<rparr>"
  by (auto simp: close_lookup_def split: option.splits)

lemma hub_inv_on_relay:
  assumes "hub_inv h" and "is_open h c"
  shows "hub_inv (on_relay env c m h)"
proof (cases "relay_lookup env c m h")
  case (Pair h' found)
  have h': "hub_inv h'"
    using Pair assms
    by (auto simp: relay_lookup_def intro!: hub_inv_reply split: if_splits sum.splits bool.splits option.splits)
  have "is_open h' t" if "found = Some (t, x)" for t x
  proof -
    have "map_of (h_clients h) (m_To m) = Some t"
      using relay_lookup_found [of env c m h t x] Pair that by simp
    then have "is_open h t" using hub_inv_open [OF assms(1)] by blast
    then show ?thesis using sends_onlyD(6) [OF relay_lookup_sends [of h env c m]] Pair by simp
  qed
  then show ?thesis
    using Pair h' by (auto simp: on_relay_def send_found_def intro: hub_inv_reply split: option.splits)
qed

lemma hub_inv_on_relay_close:
  assumes "hub_inv h"
  shows "hub_inv (on_relay_close c m h)"
  using assms hub_inv_open [OF assms]
  by (auto simp: on_relay_close_def send_found_def close_lookup_found intro!: hub_inv_reply
      split: option.splits)

lemma hub_inv_handle:
  assumes "hub_inv h" and "is_open h c" and "is_order (e_iter env)"
  shows "hub_inv (handle env c m h)"
  using assms
  by (auto simp: handle_def send_update_def hub_inv_on_hello hub_inv_on_create_code hub_inv_on_pair
      hub_inv_on_revoke hub_inv_on_relay hub_inv_on_relay_close hub_inv_reply hub_inv_reply_error)

lemma unregister_frame [simp]:
  "h_store (unregister c h) = h_store h" "h_token (unregister c h) = h_token h"
  "h_panic (unregister c h) = h_panic h" "queue (unregister c h) = queue h"
  by (auto simp: unregister_def queue_def fun_eq_iff split: option.splits)

lemma shape_unregister:
  "shape (unregister c h) d =
     (if d = c then map_option (\<lambda>(i, n, _). (i, n, True)) (shape h c) else shape h d)"
  by (auto simp: unregister_def shape_def split: option.splits)

lemma client_id_unregister [simp]: "client_id (unregister c h) = client_id h"
  by (auto simp: shape_fields shape_unregister fun_eq_iff split: option.splits)

lemma clients_unregister:
  "h_clients (unregister c h) =
     (if client_id h c \<noteq> [] then AList.delete (client_id h c) (h_clients h) else h_clients h)"
  by (auto simp: unregister_def client_id_def split: option.splits)

lemma clients_ok_unregister:
  assumes "clients_ok h"
  shows "clients_ok (unregister c h)"
proof -
  have "\<exists>n. shape (unregister c h) d = Some (i, n, False)"
    if "map_of (h_clients (unregister c h)) i = Some d" for i d
  proof -
    from that have reg: "map_of (h_clients h) i = Some d" and "client_id h c \<noteq> [] \<longrightarrow> i \<noteq> client_id h c"
      by (auto simp: clients_unregister split: if_splits)
    obtain n where n: "shape h d = Some (i, n, False)" "i \<noteq> []"
      using assms reg by (auto simp: clients_ok_def)
    then have "d \<noteq> c" using \<open>client_id h c \<noteq> [] \<longrightarrow> i \<noteq> client_id h c\<close> by (auto simp: shape_fields)
    with n show ?thesis by (simp add: shape_unregister)
  qed
  then show ?thesis
    using assms by (auto simp: clients_ok_def clients_unregister split: if_splits)
qed

lemma hub_inv_disconnect:
  assumes "hub_inv h" and "is_order (e_iter env)"
  shows "hub_inv (disconnect env c h)"
proof -
  have "hub_inv (unregister c h)"
    using assms by (simp add: hub_inv_def clients_ok_unregister rows_ok_def queues_ok_def)
  then show ?thesis using assms by (simp add: disconnect_def Let_def hub_inv_broadcast)
qed

lemma drain_frame [simp]:
  "h_store (drain c h) = h_store h" "h_token (drain c h) = h_token h" "h_clients (drain c h) = h_clients h"
  "h_panic (drain c h) = h_panic h" "shape (drain c h) = shape h"
  "queue (drain c h) d = (if d = c then tl (queue h d) else queue h d)"
  by (auto simp: drain_def shape_def queue_def fun_eq_iff split: option.splits)

lemma hub_inv_drain: "hub_inv h \<Longrightarrow> hub_inv (drain c h)"
  by (auto simp: hub_inv_def clients_ok_def rows_ok_def queues_ok_def shape_fields)
    (meson diff_le_self le_trans)

lemma accept_frame [simp]:
  "h_store (accept c h) = h_store h" "h_token (accept c h) = h_token h"
  "h_clients (accept c h) = h_clients h" "h_panic (accept c h) = h_panic h"
  "shape (accept c h) d = (if d = c then Some ([], [], False) else shape h d)"
  "queue (accept c h) d = (if d = c then [] else queue h d)"
  by (auto simp: accept_def shape_def queue_def new_client_def)

lemma hub_inv_accept: "hub_inv h \<Longrightarrow> h_conns h c = None \<Longrightarrow> hub_inv (accept c h)"
  by (auto simp: hub_inv_def clients_ok_def rows_ok_def queues_ok_def shape_fields)
    (force simp: shape_def)+

definition event_ok :: "event \<Rightarrow> bool" where
  "event_ok e \<longleftrightarrow> (case event_env e of None \<Rightarrow> True | Some env \<Rightarrow> is_order (e_iter env))"

lemma hub_inv_step:
  assumes "event_ok e" and "hub_inv h"
  shows "hub_inv (hub_step e h)"
proof (cases e)
  case (Inbound env c f)
  then show ?thesis
    using assms by (cases f) (auto simp: event_ok_def hub_inv_handle hub_inv_reply_error)
next
  case (Disconnect env c)
  then show ?thesis using assms by (auto simp: event_ok_def hub_inv_disconnect)
qed (use assms in \<open>auto simp: hub_inv_accept hub_inv_drain\<close>)

interpretation hub: event_machine hub_step event_ok hub_inv
  by unfold_locales (rule hub_inv_step)

end
