(* ===== verification/HubTrace.thy ===== *)
theory HubTrace
  imports HubRun
begin

text \<open>
  What each step of the hub can put into a queue, and how the ACL and the pairing codes change
  along a run: the only step that creates a link is a pairing that redeems a pending code, the
  only step that creates a code is a registered machine asking for one.
\<close>

section \<open>What a step sends\<close>

definition appends :: "(nat \<Rightarrow> msg \<Rightarrow> bool) \<Rightarrow> hub \<Rightarrow> hub \<Rightarrow> bool" where
  "appends P h h' \<longleftrightarrow> (\<forall>d. \<exists>xs. queue h' d = queue h d @ xs \<and> (\<forall>x\<in>set xs. P d x))"

lemma appends_refl [simp, intro]: "queue h' = queue h \<Longrightarrow> appends P h h'"
  by (simp add: appends_def)

lemma appends_sends: "sends_only P h1 h' \<Longrightarrow> queue h1 = queue h \<Longrightarrow> appends P h h'"
  unfolding appends_def sends_only_def by metis

lemma appends_trans: "appends P h h1 \<Longrightarrow> appends P h1 h2 \<Longrightarrow> appends P h h2"
  unfolding appends_def by (metis append.assoc set_append Un_iff)

lemma appends_mono: "appends P h h' \<Longrightarrow> (\<And>d x. P d x \<Longrightarrow> Q d x) \<Longrightarrow> appends Q h h'"
  unfolding appends_def by meson

lemma appendsD:
  assumes "appends P h h'" and "queue h' d = queue h d @ xs" and "x \<in> set xs"
  shows "P d x"
  using assms unfolding appends_def by (metis same_append_eq)

text \<open>The answers of the hub: everything but the two forwarded kinds.\<close>

definition is_answer :: "msg \<Rightarrow> bool" where
  "is_answer x \<longleftrightarrow> m_Type x \<noteq> TRelay \<and> m_Type x \<noteq> TRelayClose \<and> m_Data x = []"

lemma is_answer_simps [simp]:
  "is_answer (update_msg l)"
  "is_answer (zero_msg\<lparr>m_Type := TError, m_Message := t\<rparr>)"
  "is_answer (zero_msg\<lparr>m_Type := TError, m_Channel := ch, m_Message := t\<rparr>)"
  "is_answer (zero_msg\<lparr>m_Type := TWelcome, m_MachineID := i, m_Name := n\<rparr>)"
  "is_answer (zero_msg\<lparr>m_Type := TCodeCreated, m_Code := k\<rparr>)"
  "is_answer (zero_msg\<lparr>m_Type := TPaired, m_Peer := p\<rparr>)"
  "is_answer (zero_msg\<lparr>m_Type := TRevoked, m_Target := t\<rparr>)"
  by (simp_all add: is_answer_def update_msg_def zero_msg_def msg_type_defs)

abbreviation answers :: "hub \<Rightarrow> hub \<Rightarrow> bool" where
  "answers \<equiv> appends (\<lambda>_. is_answer)"

lemma answers_reply: "is_answer x \<Longrightarrow> answers h (reply c x h)"
  by (auto intro: appends_sends sends_only_reply)

lemma answers_reply_error: "answers h (reply_error c t h)"
  by (simp add: reply_error_def answers_reply)

lemma answers_broadcast: "answers h (broadcast_update env h)"
  by (rule appends_sends [OF sends_only_broadcast]) simp_all

lemma answers_store: "answers (h\<lparr>h_store := s\<rparr>) h' \<Longrightarrow> answers h h'"
  by (simp add: appends_def)

lemma answers_reply_broadcast: "is_answer x \<Longrightarrow> answers h (broadcast_update env (reply c x h))"
  by (rule appends_trans [OF answers_reply answers_broadcast])

lemmas answers_intros =
  answers_reply answers_reply_error answers_broadcast answers_reply_broadcast
  answers_reply [THEN answers_store] answers_reply_error [THEN answers_store]
  answers_reply_broadcast [THEN answers_store]

lemma answers_on_hello: "answers h (on_hello env c m h)"
proof -
  have "answers h (broadcast_update env (reply c x (register c i n (h\<lparr>h_store := s\<rparr>))))"
    if "is_answer x" for x i n s
    by (rule appends_trans [of _ _ "register c i n (h\<lparr>h_store := s\<rparr>)"])
      (auto intro: answers_reply_broadcast that)
  then show ?thesis
    by (auto simp: on_hello_def Let_def intro!: answers_intros split: prod.splits option.splits)
qed

lemma answers_on_create_code: "answers h (on_create_code env c h)"
  by (auto simp: on_create_code_def intro!: answers_intros split: prod.splits sum.splits)

lemma answers_on_pair: "answers h (on_pair env c m h)"
  by (auto simp: on_pair_def intro!: answers_intros split: prod.splits sum.splits option.splits)

lemma answers_on_revoke: "answers h (on_revoke env c m h)"
  by (auto simp: on_revoke_def intro!: answers_intros split: prod.splits option.splits)

lemma answers_relay_lookup: "answers h (fst (relay_lookup env c m h))"
  by (auto simp: relay_lookup_def intro!: answers_intros split: sum.splits bool.splits option.splits)

lemma answers_handle:
  assumes "m_Type m \<noteq> TRelay" and "m_Type m \<noteq> TRelayClose"
  shows "answers h (handle env c m h)"
  using assms
  by (auto simp: handle_def send_update_def answers_on_hello answers_on_create_code answers_on_pair
      answers_on_revoke intro!: answers_intros)

lemma answers_disconnect: "answers h (disconnect env c h)"
  using answers_broadcast [of "unregister c h" env] by (auto simp: disconnect_def Let_def appends_def)

lemma tl_not_grown: "tl q = q @ xs \<Longrightarrow> xs = []"
  by (cases q) (auto dest: arg_cong [where f = length])

lemma relay_type_neq: "TRelay \<noteq> TRelayClose" "THello \<noteq> TRelay" "TCreateCode \<noteq> TRelay" "TPair \<noteq> TRelay"
    "TRevoke \<noteq> TRelay" "TList \<noteq> TRelay"
  by (simp_all add: msg_type_defs)

lemma handle_relay: "m_Type m = TRelay \<Longrightarrow> handle env c m h = on_relay env c m h"
  by (simp add: handle_def msg_type_defs)

lemma handle_relay_close: "m_Type m = TRelayClose \<Longrightarrow> handle env c m h = on_relay_close c m h"
  by (simp add: handle_def msg_type_defs)

lemma queue_send_found:
  "queue (send_found found h) d =
     (case found of None \<Rightarrow> queue h d
      | Some (t, x) \<Rightarrow> if d = t \<and> is_open h t \<and> length (queue h t) < send_cap then queue h d @ [x] else queue h d)"
  by (auto simp: send_found_def queue_reply split: option.splits)

lemma relay_lookup_Some: "snd (relay_lookup env c m h) = Some f \<Longrightarrow> fst (relay_lookup env c m h) = h"
  by (auto simp: relay_lookup_def split: if_splits sum.splits bool.splits option.splits)

text \<open>A forwarded frame was sent by a linked machine, to that machine's link, and to no one else.\<close>

lemma relayed_step:
  assumes "queue (hub_step e h) d = queue h d @ xs" and "x \<in> set xs" and "m_Type x = TRelay"
  shows "\<exists>env c m. e = Inbound env c (Frame m) \<and> is_open h c \<and> client_id h c \<noteq> [] \<and>
    linked (h_store h) (client_id h c) (m_To m) \<and> map_of (h_clients h) (m_To m) = Some d \<and>
    x = relay_msg (client_id h c) m \<and> xs = [x]"
proof -
  have no: "\<not> answers h (hub_step e h)"
    using appendsD [of "\<lambda>_. is_answer" h "hub_step e h" d xs x] assms by (auto simp: is_answer_def)
  obtain env c m where e: "e = Inbound env c (Frame m)" and op: "is_open h c"
  proof (cases e)
    case (Inbound env c f)
    then show ?thesis
      using no that by (cases f) (auto simp: answers_reply_error split: if_splits)
  next
    case (Disconnect env c)
    then show ?thesis using no by (auto simp: answers_disconnect split: if_splits)
  qed (use assms(1,2) in \<open>auto split: if_splits dest: tl_not_grown\<close>)
  have step: "hub_step e h = handle env c m h" using e op by simp
  have kinds: "m_Type m = TRelay \<or> m_Type m = TRelayClose"
    using no answers_handle [of m h env c] by (auto simp: step)
  have rel: "m_Type m = TRelay"
  proof (rule ccontr)
    assume "m_Type m \<noteq> TRelay"
    then have "hub_step e h = send_found (close_lookup c m h) h"
      using kinds by (simp add: step handle_relay_close on_relay_close_def)
    then have "x = zero_msg\<lparr>m_Type := TRelayClose, m_From := client_id h c, m_Channel := m_Channel m\<rparr>"
      using assms(1,2) by (auto simp: queue_send_found close_lookup_found split: option.splits if_splits)
    then show False using assms(3) by (simp add: zero_msg_def msg_type_defs)
  qed
  obtain h' found where l: "relay_lookup env c m h = (h', found)" by fastforce
  have grow: "queue (send_found found h') d = queue h d @ xs"
    using assms(1) rel l by (simp add: step handle_relay on_relay_def)
  obtain t y where f: "found = Some (t, y)"
    using grow assms(2,3) appendsD [OF answers_relay_lookup [of h env c m], of d xs x] l
    by (cases found) (auto simp: queue_send_found is_answer_def)
  have "h' = h" and t: "map_of (h_clients h) (m_To m) = Some t" and y: "y = relay_msg (client_id h c) m"
    and i: "client_id h c \<noteq> []" and acl: "has_acl (e_db env) (client_id h c) (m_To m) (h_store h) = Inr True"
    using relay_lookup_found [of env c m h t y] relay_lookup_Some [of env c m h] l f by auto
  have "d = t" "xs = [y]"
    using grow assms(2) \<open>h' = h\<close> f by (auto simp: queue_send_found split: if_splits)
  then show ?thesis
    using e op i t y acl assms(2) by (auto simp: has_acl_eq split: option.splits)
qed


section \<open>How the store changes\<close>

definition same_links :: "hub \<Rightarrow> hub \<Rightarrow> bool" where
  "same_links h h' \<longleftrightarrow> linked (h_store h') = linked (h_store h)"

lemma store_broadcast [simp]: "h_store (broadcast_update env h) = h_store h"
  using sends_onlyD(1) [OF sends_only_broadcast [of "\<lambda>_ _. True" h env]] by simp

lemma store_reply_error [simp]: "h_store (reply_error c t h) = h_store h"
  by (simp add: reply_error_def)

lemma store_send_found [simp]: "h_store (send_found f h) = h_store h"
  by (auto simp: send_found_def split: option.splits)

lemma store_on_relay [simp]: "h_store (on_relay env c m h) = h_store h"
  using sends_onlyD(1) [OF relay_lookup_sends [of h env c m]]
  by (auto simp: on_relay_def split: prod.splits)

lemma store_on_relay_close [simp]: "h_store (on_relay_close c m h) = h_store h"
  by (simp add: on_relay_close_def)

lemma store_send_update [simp]: "h_store (send_update env c h) = h_store h"
  by (simp add: send_update_def)

lemma store_disconnect [simp]: "h_store (disconnect env c h) = h_store h"
  by (simp add: disconnect_def Let_def)

lemma store_on_hello:
  "h_store (on_hello env c m h) =
     (if m_MachineID m = [] \<or> m_PubKey m = [] \<or> (h_token h \<noteq> [] \<and> m_Token m \<noteq> h_token h) then h_store h
      else fst (upsert_machine (e_db env) (m_MachineID m) (m_Name m) (m_PubKey m) (h_store h)))"
  by (auto simp: on_hello_def Let_def split: prod.splits option.splits)

lemma store_on_create_code:
  "h_store (on_create_code env c h) =
     (if client_id h c = [] then h_store h
      else (case random_code (e_rand env) of Inl _ \<Rightarrow> h_store h
            | Inr code \<Rightarrow> fst (create_code (e_db env) (client_id h c) code codeTTL (h_store h))))"
  by (auto simp: on_create_code_def new_code_def split: prod.splits sum.splits option.splits)

lemma store_on_revoke:
  "h_store (on_revoke env c m h) =
     (if client_id h c = [] \<or> m_Target m = [] then h_store h
      else fst (delete_acl (e_db env) (client_id h c) (m_Target m) (h_store h)))"
  by (auto simp: on_revoke_def split: prod.splits option.splits)

text \<open>A pairing that goes through, and what it leaves of the store.\<close>

lemma linked_on_pair:
  assumes "linked (h_store (on_pair env c m h)) a b" and "\<not> linked (h_store h) a b"
  shows "\<exists>own d. client_id h c \<noteq> [] \<and> pending_code (h_store h) (m_Code m) = Some (own, d) \<and>
    db_now (e_db env) \<le> d \<and> own \<noteq> client_id h c \<and> {a, b} = {own, client_id h c}"
proof -
  obtain s r where s: "consume_code (e_db env) (m_Code m) (h_store h) = (s, r)" by fastforce
  have lk: "linked s = linked (h_store h)"
    using linked_frame(3) [of "e_db env" "m_Code m" "h_store h"] s by simp
  obtain own where own: "client_id h c \<noteq> []" "r = Inr own" "own \<noteq> client_id h c"
    using assms s lk by (cases r) (auto simp: on_pair_def split: if_splits)
  obtain s' r' where s': "upsert_machine (e_db env) (client_id h c) (m_Name m) (m_PubKey m) s = (s', r')"
    by fastforce
  have lk': "linked s' = linked (h_store h)"
    using linked_frame(1) [of "e_db env" "client_id h c" "m_Name m" "m_PubKey m" s] s' lk by simp
  have "linked (fst (add_acl (e_db env) own (client_id h c) s')) a b"
    using assms own s s' lk' by (auto simp: on_pair_def split: option.splits prod.splits)
  then have "{a, b} = {own, client_id h c}"
    using acl.add_only assms(2) lk' by metis
  then show ?thesis
    using pc.redeem_ok [of "e_db env" "m_Code m" "h_store h" own] own s by auto
qed

lemma linked_handle:
  assumes "linked (h_store (handle env c m h)) a b" and "\<not> linked (h_store h) a b"
  shows "m_Type m = TPair \<and> linked (h_store (on_pair env c m h)) a b"
  using assms acl.del_anti [of "e_db env" "client_id h c" "m_Target m" "h_store h" a b]
  by (auto simp: handle_def store_on_hello store_on_create_code store_on_revoke store_simps
      split: if_splits sum.splits)

lemma linked_step:
  assumes "linked (h_store (hub_step e h)) a b" and "\<not> linked (h_store h) a b"
  shows "\<exists>env c m own d. e = Inbound env c (Frame m) \<and> is_open h c \<and> m_Type m = TPair \<and>
    client_id h c \<noteq> [] \<and> pending_code (h_store h) (m_Code m) = Some (own, d) \<and>
    db_now (e_db env) \<le> d \<and> own \<noteq> client_id h c \<and> {a, b} = {own, client_id h c}"
proof (cases e)
  case (Inbound env c f)
  then obtain m where m: "f = Frame m" "is_open h c" "linked (h_store (handle env c m h)) a b"
    using assms by (cases f) (auto split: if_splits)
  show ?thesis
    using linked_on_pair [of env c m h a b] linked_handle [OF m(3) assms(2)] assms(2) Inbound m by blast
qed (use assms in \<open>auto split: if_splits\<close>)

lemma pending_on_pair:
  "pending_code (h_store (on_pair env c m h)) k = Some r \<Longrightarrow> pending_code (h_store h) k = Some r"
proof -
  assume a: "pending_code (h_store (on_pair env c m h)) k = Some r"
  have frame: "pending_code (fst (upsert_machine e i n p s)) = pending_code s"
    "pending_code (fst (add_acl e i n s)) = pending_code s" for e i n p s
    by (auto intro!: pending_codes simp: store_simps)
  obtain s r0 where s: "consume_code (e_db env) (m_Code m) (h_store h) = (s, r0)" by fastforce
  have "pending_code (h_store (on_pair env c m h)) k = pending_code (h_store h) k \<or>
      pending_code (h_store (on_pair env c m h)) k = pending_code s k"
    using frame s by (auto simp: on_pair_def split: sum.splits option.splits prod.splits) (metis fst_conv)+
  then show ?thesis
    using a s pc.redeem_pending [of "e_db env" "m_Code m" "h_store h" k r] by auto
qed

lemma pending_handle:
  assumes "pending_code (h_store (handle env c m h)) k = Some (own, d)"
    and "pending_code (h_store h) k \<noteq> Some (own, d)"
  shows "m_Type m = TCreateCode \<and> client_id h c = own \<and> own \<noteq> [] \<and>
    random_code (e_rand env) = Inr k \<and> d = db_now (e_db env) + codeTTL"
proof -
  have frame: "pending_code (fst (upsert_machine e i n p s)) = pending_code s"
    "pending_code (fst (delete_acl e i n s)) = pending_code s" for e i n p s
    by (auto intro!: pending_codes simp: store_simps)
  have made: "k = k' \<and> own = client_id h c \<and> d = db_now (e_db env) + codeTTL"
    if "pending_code (fst (create_code (e_db env) (client_id h c) k' codeTTL (h_store h))) k = Some (own, d)" for k'
    using that assms(2) pc.issue_ok [of "e_db env" "client_id h c" k' codeTTL "h_store h"]
      pc.issue_err [of "e_db env" "client_id h c" k' codeTTL "h_store h"]
    by (cases "snd (create_code (e_db env) (client_id h c) k' codeTTL (h_store h)) = None")
      (auto split: if_splits)
  show ?thesis
    using assms pending_on_pair [of env c m h k "(own, d)"] made
    by (auto simp: handle_def store_on_hello store_on_create_code store_on_revoke frame
        split: if_splits sum.splits)
qed

lemma pending_step:
  assumes "pending_code (h_store (hub_step e h)) k = Some (own, d)"
    and "pending_code (h_store h) k \<noteq> Some (own, d)"
  shows "\<exists>env c m. e = Inbound env c (Frame m) \<and> is_open h c \<and> m_Type m = TCreateCode \<and>
    client_id h c = own \<and> own \<noteq> [] \<and> random_code (e_rand env) = Inr k \<and> d = db_now (e_db env) + codeTTL"
proof (cases e)
  case (Inbound env c f)
  then show ?thesis
    using assms pending_handle by (cases f) (auto split: if_splits)
qed (use assms in \<open>auto split: if_splits\<close>)


section \<open>Who is registered\<close>

text \<open>Only a hello changes ids and the client map; no handler changes the token.\<close>

definition same_conns :: "hub \<Rightarrow> hub \<Rightarrow> bool" where
  "same_conns h h' \<longleftrightarrow> shape h' = shape h \<and> h_token h' = h_token h \<and> h_clients h' = h_clients h"

lemma same_conns_refl [simp]: "same_conns h h"
  by (simp add: same_conns_def)

lemma same_conns_trans: "same_conns h h1 \<Longrightarrow> same_conns h1 h2 \<Longrightarrow> same_conns h h2"
  by (simp add: same_conns_def)

lemma same_conns_sends: "sends_only P h h' \<Longrightarrow> same_conns h h'"
  by (auto simp: same_conns_def sends_onlyD)

lemma same_conns_store: "same_conns (h\<lparr>h_store := s\<rparr>) h' \<Longrightarrow> same_conns h h'"
  by (simp add: same_conns_def)

lemma same_conns_reply: "same_conns h (reply c x h)"
  by (rule same_conns_sends [OF sends_only_reply [of "\<lambda>_ _. True"]]) simp

lemma same_conns_reply_error: "same_conns h (reply_error c t h)"
  by (simp add: reply_error_def same_conns_reply)

lemma same_conns_broadcast: "same_conns h (broadcast_update env h)"
  by (rule same_conns_sends [OF sends_only_broadcast [of "\<lambda>_ _. True"]]) simp

lemma same_conns_reply_broadcast: "same_conns h (broadcast_update env (reply c x h))"
  by (rule same_conns_trans [OF same_conns_reply same_conns_broadcast])

lemmas same_conns_intros =
  same_conns_reply same_conns_reply_error same_conns_broadcast same_conns_reply_broadcast
  same_conns_reply [THEN same_conns_store] same_conns_reply_error [THEN same_conns_store]
  same_conns_reply_broadcast [THEN same_conns_store]

lemma same_conns_on_create_code: "same_conns h (on_create_code env c h)"
  by (auto simp: on_create_code_def intro!: same_conns_intros split: prod.splits sum.splits)

lemma same_conns_on_pair: "same_conns h (on_pair env c m h)"
  by (auto simp: on_pair_def intro!: same_conns_intros split: prod.splits sum.splits option.splits)

lemma same_conns_on_revoke: "same_conns h (on_revoke env c m h)"
  by (auto simp: on_revoke_def intro!: same_conns_intros split: prod.splits option.splits)

lemma same_conns_send_found: "same_conns h (send_found f h)"
  by (auto simp: send_found_def intro!: same_conns_intros split: option.splits)

lemma same_conns_on_relay: "same_conns h (on_relay env c m h)"
proof -
  have "same_conns h (fst (relay_lookup env c m h))"
    by (rule same_conns_sends [OF relay_lookup_sends])
  then show ?thesis
    by (auto simp: on_relay_def split: prod.splits intro: same_conns_trans same_conns_send_found)
qed

lemma same_conns_handle: "m_Type m \<noteq> THello \<Longrightarrow> same_conns h (handle env c m h)"
  by (auto simp: handle_def send_update_def on_relay_close_def same_conns_on_create_code same_conns_on_pair
      same_conns_on_revoke same_conns_on_relay same_conns_send_found intro!: same_conns_intros)

lemma on_hello_cases:
  obtains (refused) "same_conns h (on_hello env c m h)"
  | (accepted) s where "m_MachineID m \<noteq> []" "m_PubKey m \<noteq> []" "h_token h = [] \<or> m_Token m = h_token h"
      "upsert_machine (e_db env) (m_MachineID m) (m_Name m) (m_PubKey m) (h_store h) = (s, None)"
      "on_hello env c m h =
         broadcast_update env (reply c (zero_msg\<lparr>m_Type := TWelcome, m_MachineID := m_MachineID m,
           m_Name := m_Name m\<rparr>) (register c (m_MachineID m) (m_Name m) (h\<lparr>h_store := s\<rparr>)))"
      "same_conns (register c (m_MachineID m) (m_Name m) (h\<lparr>h_store := s\<rparr>)) (on_hello env c m h)"
proof (cases "m_MachineID m = [] \<or> m_PubKey m = [] \<or> (h_token h \<noteq> [] \<and> m_Token m \<noteq> h_token h)")
  case True
  then have "same_conns h (on_hello env c m h)"
    by (auto simp: on_hello_def intro!: same_conns_intros)
  then show ?thesis by (rule refused)
next
  case False
  obtain s r where s: "upsert_machine (e_db env) (m_MachineID m) (m_Name m) (m_PubKey m) (h_store h) = (s, r)"
    by fastforce
  show ?thesis
  proof (cases r)
    case None
    then show ?thesis
      using False s by (intro accepted [of s]) (auto simp: on_hello_def Let_def intro!: same_conns_intros)
  next
    case (Some e)
    then have "same_conns h (on_hello env c m h)"
      using False s by (auto simp: on_hello_def intro!: same_conns_intros)
    then show ?thesis by (rule refused)
  qed
qed

lemma same_connsD:
  assumes "same_conns h h'"
  shows "client_id h' = client_id h" "is_open h' = is_open h" "h_token h' = h_token h"
    "h_clients h' = h_clients h"
  using assms by (auto simp: same_conns_def shape_fields fun_eq_iff)

lemma client_id_register:
  "client_id (register c i n h) d = (if d = c \<and> h_conns h c \<noteq> None then i else client_id h d)"
  by (auto simp: shape_fields shape_register)

lemma token_handle [simp]: "h_token (handle env c m h) = h_token h"
proof (cases "m_Type m = THello")
  case True
  then show ?thesis
    by (cases rule: on_hello_cases [of h env c m]) (auto simp: handle_def dest: same_connsD)
qed (simp add: same_connsD(3) [OF same_conns_handle])

lemma client_id_handle:
  assumes "client_id (handle env c m h) d \<noteq> client_id h d"
  shows "d = c \<and> m_Type m = THello \<and> (h_token h = [] \<or> m_Token m = h_token h)"
proof (cases "m_Type m = THello")
  case True
  then show ?thesis
    using assms
    by (cases rule: on_hello_cases [of h env c m])
      (auto simp: handle_def client_id_register dest!: same_connsD(1) split: if_splits)
qed (use assms same_connsD(1) [OF same_conns_handle] in simp)

lemma token_step [simp]: "h_token (hub_step e h) = h_token h"
proof (cases e)
  case (Inbound env c f)
  then show ?thesis by (cases f) (auto simp: same_connsD(3) [OF same_conns_reply_error])
next
  case (Disconnect env c)
  then show ?thesis
    using same_connsD(3) [OF same_conns_broadcast [of "unregister c h" env]]
    by (simp add: disconnect_def Let_def)
qed auto

lemma client_id_step:
  assumes "client_id (hub_step e h) d \<noteq> client_id h d" and "client_id h d = []"
  shows "\<exists>env m. e = Inbound env d (Frame m) \<and> m_Type m = THello \<and> (h_token h = [] \<or> m_Token m = h_token h)"
proof (cases e)
  case (Inbound env c f)
  then show ?thesis
    using assms client_id_handle [of env c _ h d] same_connsD(1) [OF same_conns_reply_error]
    by (cases f) (auto split: if_splits)
next
  case (Disconnect env c)
  then show ?thesis
    using assms same_connsD(1) [OF same_conns_broadcast [of "unregister c h" env]]
    by (auto simp: disconnect_def Let_def split: if_splits)
qed (use assms in \<open>auto simp: shape_fields split: if_splits\<close>)

text \<open>What an unregistered connection can do: be answered.\<close>

lemma unregistered_frame:
  assumes "client_id h c = []" and "\<And>m. f = Frame m \<Longrightarrow> m_Type m \<noteq> THello"
  shows "sends_only (\<lambda>d _. d = c) h (read_frame env c f h)"
  using assms
  by (cases f) (auto simp: handle_def on_create_code_def on_pair_def on_revoke_def on_relay_def
      relay_lookup_def on_relay_close_def close_lookup_def send_found_def send_update_def
      intro!: sends_only_reply sends_only_reply_error)

lemma refused_hello:
  assumes "h_token h \<noteq> []" and "m_Token m \<noteq> h_token h" and "m_Type m = THello"
  shows "sends_only (\<lambda>d _. d = c) h (handle env c m h)"
  using assms by (auto simp: handle_def on_hello_def intro!: sends_only_reply_error)

section \<open>A panic is final\<close>

lemma panic_broadcast: "h_panic h \<Longrightarrow> h_panic (broadcast_update env h)"
  by (simp add: broadcast_update_def Let_def panic_fold)

lemma panic_send_found: "h_panic h \<Longrightarrow> h_panic (send_found f h)"
  by (auto simp: send_found_def split: option.splits)

lemma panic_relay_lookup: "h_panic h \<Longrightarrow> h_panic (fst (relay_lookup env c m h))"
  by (auto simp: relay_lookup_def split: sum.splits bool.splits option.splits)

lemma panic_on_pair: "h_panic h \<Longrightarrow> h_panic (on_pair env c m h)"
  by (auto simp: on_pair_def intro!: panic_broadcast split: prod.splits sum.splits option.splits)

lemma panic_on_hello: "h_panic h \<Longrightarrow> h_panic (on_hello env c m h)"
  by (auto simp: on_hello_def Let_def intro!: panic_broadcast split: prod.splits option.splits)

lemma panic_on_revoke: "h_panic h \<Longrightarrow> h_panic (on_revoke env c m h)"
  by (auto simp: on_revoke_def intro!: panic_broadcast split: prod.splits option.splits)

lemma panic_on_create_code: "h_panic h \<Longrightarrow> h_panic (on_create_code env c h)"
  by (auto simp: on_create_code_def split: prod.splits sum.splits)

lemma panic_on_relay: "h_panic h \<Longrightarrow> h_panic (on_relay env c m h)"
  using panic_relay_lookup [of h env c m] by (auto simp: on_relay_def panic_send_found split: prod.splits)

lemma panic_handle: "h_panic h \<Longrightarrow> h_panic (handle env c m h)"
  by (auto simp: handle_def send_update_def on_relay_close_def panic_on_hello panic_on_pair
      panic_on_revoke panic_on_create_code panic_on_relay panic_send_found)

lemma panic_sticky: "h_panic h \<Longrightarrow> h_panic (hub_step e h)"
proof (cases e)
  case (Inbound env c f)
  assume "h_panic h"
  with Inbound show ?thesis by (cases f) (auto simp: panic_handle)
qed (auto simp: disconnect_def Let_def panic_broadcast)

end
