(* ===== verification/HubProps.thy ===== *)
theory HubProps
  imports HubTrace
begin

text \<open>
  The properties of the hub: its invariant over every run, the trace properties of links, codes
  and revocation, the token gate, the blindness of the relay, the machine list, and the
  functional behaviour of the handlers. The witnesses run a small session: a host and a guest
  connect, the host asks for a code, the guest redeems it.
\<close>

section \<open>A concrete session\<close>

definition plain_db :: "int \<Rightarrow> db_env" where
  "plain_db now = \<lparr>db_now = now, db_err = (\<lambda>_. None), db_rows = (\<lambda>xs. xs), db_dup = ''duplicate''\<rparr>"

definition plain_env :: "int \<Rightarrow> henv" where
  "plain_env now = \<lparr>e_db = plain_db now, e_iter = (\<lambda>xs. xs), e_rand = Inr (replicate 6 (CHR 0x00))\<rparr>"

definition hello_msg :: "string \<Rightarrow> string \<Rightarrow> string \<Rightarrow> msg" where
  "hello_msg mid pub tok =
     zero_msg\<lparr>m_Type := THello, m_MachineID := mid, m_Name := mid, m_PubKey := pub, m_Token := tok\<rparr>"

definition pair_msg :: "string \<Rightarrow> string \<Rightarrow> msg" where
  "pair_msg code pub = zero_msg\<lparr>m_Type := TPair, m_Code := code, m_Name := ''g'', m_PubKey := pub\<rparr>"

definition demo_events :: "event list" where
  "demo_events =
     [Accept 1, Inbound (plain_env 0) 1 (Frame (hello_msg ''h'' ''K'' ''t'')),
      Accept 2, Inbound (plain_env 1) 2 (Frame (hello_msg ''g'' ''L'' ''t'')),
      Inbound (plain_env 2) 1 (Frame (zero_msg\<lparr>m_Type := TCreateCode\<rparr>)),
      Inbound (plain_env 3) 2 (Frame (pair_msg ''AAA-AAA'' ''L''))]"

abbreviation demo_hub :: hub where
  "demo_hub \<equiv> hub_run demo_events (new_hub empty_store ''t'')"

lemma plain_env_order [simp]: "is_order (e_iter (plain_env n))"
  by (simp add: plain_env_def)

lemma demo_ok: "list_all event_ok demo_events"
  by (simp add: demo_events_def event_ok_def)

lemma demo_linked: "linked (h_store demo_hub) ''g'' ''h''"
  by code_simp


section \<open>Links, codes and revocation\<close>



lemma pending_origin:
  assumes "list_all event_ok es" and "pending_code (h_store (hub_run es (new_hub empty_store tok))) k = Some (own, d)"
  shows "\<exists>es1 env c m es2. es = es1 @ Inbound env c (Frame m) # es2 \<and> m_Type m = TCreateCode \<and>
    random_code (e_rand env) = Inr k \<and> d = db_now (e_db env) + codeTTL \<and> own \<noteq> [] \<and>
    client_id (hub_run es1 (new_hub empty_store tok)) c = own"
proof -
  have "pending_code (h_store (new_hub empty_store tok)) k \<noteq> Some (own, d)"
    by (simp add: pending_code_def new_hub_def empty_store_def)
  from hub.became_true [of es _ "\<lambda>h. pending_code (h_store h) k = Some (own, d)",
      OF assms(1) hub_inv_new [OF store_ok_empty] this assms(2)]
  obtain es1 e es2 where "es = es1 @ e # es2"
    "pending_code (h_store (hub_step e (hub_run es1 (new_hub empty_store tok)))) k = Some (own, d)"
    "pending_code (h_store (hub_run es1 (new_hub empty_store tok))) k \<noteq> Some (own, d)" by blast
  then show ?thesis using pending_step by blast
qed

text \<open>C3. Two machines are linked only by consent: if they may talk at the end of a run that began
  with an empty database, then one of them, registered, asked for a pairing code, and later the
  other, registered, redeemed exactly that code, within 24 hours of its creation.\<close>

theorem link_needs_redeemed_code:
  assumes "list_all event_ok es" and "linked (h_store (hub_run es (new_hub empty_store tok))) a b"
  shows "\<exists>es0 env0 c0 m0 es1 env c m es2 owner guest.
    es = es0 @ Inbound env0 c0 (Frame m0) # es1 @ Inbound env c (Frame m) # es2 \<and>
    m_Type m0 = TCreateCode \<and> random_code (e_rand env0) = Inr (m_Code m) \<and>
    m_Type m = TPair \<and> db_now (e_db env) \<le> db_now (e_db env0) + 24 * 60 * 60 \<and>
    owner = client_id (hub_run es0 (new_hub empty_store tok)) c0 \<and>
    guest = client_id (hub_run (es0 @ Inbound env0 c0 (Frame m0) # es1) (new_hub empty_store tok)) c \<and>
    owner \<noteq> [] \<and> guest \<noteq> [] \<and> owner \<noteq> guest \<and> {a, b} = {owner, guest}"
proof -
  let ?h0 = "new_hub empty_store tok"
  have "\<not> linked (h_store ?h0) a b" by (simp add: linked_def new_hub_def empty_store_def)
  from hub.became_true [of es ?h0 "\<lambda>h. linked (h_store h) a b",
      OF assms(1) hub_inv_new [OF store_ok_empty] this assms(2)]
  obtain es1 e es2 where e: "es = es1 @ e # es2" "\<not> linked (h_store (hub_run es1 ?h0)) a b"
    "linked (h_store (hub_step e (hub_run es1 ?h0))) a b" by blast
  from linked_step [OF e(3,2)] obtain env c m own d where m: "e = Inbound env c (Frame m)"
    "is_open (hub_run es1 ?h0) c" "m_Type m = TPair" "client_id (hub_run es1 ?h0) c \<noteq> []"
    "pending_code (h_store (hub_run es1 ?h0)) (m_Code m) = Some (own, d)" "db_now (e_db env) \<le> d"
    "own \<noteq> client_id (hub_run es1 ?h0) c" "{a, b} = {own, client_id (hub_run es1 ?h0) c}"
    by (elim exE conjE) (rule that)
  have "list_all event_ok es1" using assms(1) e(1) by simp
  from pending_origin [OF this m(5)] obtain es0 env0 c0 m0 es1' where
    c: "es1 = es0 @ Inbound env0 c0 (Frame m0) # es1'" "m_Type m0 = TCreateCode"
    "random_code (e_rand env0) = Inr (m_Code m)" "d = db_now (e_db env0) + codeTTL" "own \<noteq> []"
    "client_id (hub_run es0 ?h0) c0 = own" by blast
  show ?thesis
  proof (intro exI conjI)
    show "es = es0 @ Inbound env0 c0 (Frame m0) # es1' @ Inbound env c (Frame m) # es2"
      using e(1) m(1) c(1) by simp
    show "db_now (e_db env) \<le> db_now (e_db env0) + 24 * 60 * 60"
      using m(6) c(4) unfolding codeTTL_def by linarith
    show "own = client_id (hub_run es0 ?h0) c0" by (simp only: c(6))
    show "client_id (hub_run es1 ?h0) c =
        client_id (hub_run (es0 @ Inbound env0 c0 (Frame m0) # es1') ?h0) c" by (simp only: c(1))
  qed (rule m(3,4,7,8) c(2,3,5))+
qed

theorem link_needs_redeemed_code_witness:
  "linked (h_store demo_hub) ''g'' ''h'' \<and>
   (\<exists>env c m. Inbound env c (Frame m) \<in> set demo_events \<and> m_Type m = TPair)"
proof -
  have "\<exists>env c m. Inbound env c (Frame m) \<in> set demo_events \<and> m_Type m = TPair"
    using link_needs_redeemed_code [OF demo_ok demo_linked]
    by (metis append.assoc append_Cons in_set_conv_decomp)
  then show ?thesis using demo_linked by (rule conjI [rotated])
qed

text \<open>C2. A relayed frame is authorised: whenever any step of the hub puts a relay message into a
  connection's queue, that step read a frame from a registered machine which is linked, at that
  moment, to the machine the queue belongs to; the message names the true sender and carries the
  frame's channel, service, address and sealed data unchanged.\<close>

theorem relay_authorised:
  assumes "hub_inv h" and "queue (hub_step e h) d = queue h d @ xs" and "x \<in> set xs" and "m_Type x = TRelay"
  shows "\<exists>env c m. e = Inbound env c (Frame m) \<and> linked (h_store h) (m_From x) (client_id h d) \<and>
    m_From x = client_id h c \<and> m_From x \<noteq> [] \<and> m_To m = client_id h d \<and>
    m_Channel x = m_Channel m \<and> m_Service x = m_Service m \<and> m_Dial x = m_Dial m \<and> m_Data x = m_Data m"
proof -
  obtain env c m where m: "e = Inbound env c (Frame m)" "client_id h c \<noteq> []"
    "linked (h_store h) (client_id h c) (m_To m)" "map_of (h_clients h) (m_To m) = Some d"
    "x = relay_msg (client_id h c) m"
    using relayed_step [OF assms(2-4)] by blast
  have "client_id h d = m_To m"
    using registered_id [OF assms(1) m(4)] by simp
  with m show ?thesis by (auto simp: relay_msg_def zero_msg_def)
qed

definition demo_relay :: msg where
  "demo_relay = zero_msg\<lparr>m_Type := TRelay, m_To := ''h'', m_Channel := ''ch'', m_Data := ''sealed''\<rparr>"

theorem relay_authorised_witness:
  "queue (hub_step (Inbound (plain_env 4) 2 (Frame demo_relay)) demo_hub) 1 =
     queue demo_hub 1 @ [relay_msg ''g'' demo_relay] \<and> linked (h_store demo_hub) ''g'' ''h''"
proof -
  have q: "queue (hub_step (Inbound (plain_env 4) 2 (Frame demo_relay)) demo_hub) 1 =
      queue demo_hub 1 @ [relay_msg ''g'' demo_relay]" by code_simp
  have t: "m_Type (relay_msg ''g'' demo_relay) = TRelay" "m_From (relay_msg ''g'' demo_relay) = ''g''"
    by (simp_all add: relay_msg_def zero_msg_def)
  have i: "client_id demo_hub 1 = ''h''" by code_simp
  have inv: "hub_inv demo_hub"
    by (rule hub.inv_run [OF demo_ok hub_inv_new [OF store_ok_empty]])
  have "linked (h_store demo_hub) ''g'' ''h''"
    using relay_authorised [OF inv q _ t(1)] i t(2) by auto
  with q show ?thesis ..
qed



definition demo_revoke :: event where
  "demo_revoke = Inbound (plain_env 5) 1 (Frame (zero_msg\<lparr>m_Type := TRevoke, m_Target := ''g''\<rparr>))"

definition demo_again :: "event list" where
  "demo_again =
     [Inbound (plain_env 6) 1 (Frame (zero_msg\<lparr>m_Type := TCreateCode\<rparr>)),
      Inbound (plain_env 7) 2 (Frame (pair_msg ''AAA-AAA'' ''L''))]"

lemma demo_inv: "hub_inv demo_hub"
  by (rule hub.inv_run [OF demo_ok hub_inv_new [OF store_ok_empty]])


text \<open>C13. A pairing code works once: after a step that redeemed it, any later attempt to redeem it is
  answered with the error \<open>invalid pairing code\<close> and changes nothing, unless the hub happened to
  draw the same code again for a new request in between.\<close>

theorem code_redeemed_once:
  assumes "snd (consume_code (e_db env) (m_Code m) (h_store h)) = Inr own"
    and "is_open h c" and "m_Type m = TPair" and "client_id h c \<noteq> []"
    and "\<forall>e\<in>set es. \<forall>env1 c1 m1. e = Inbound env1 c1 (Frame m1) \<and> m_Type m1 = TCreateCode \<longrightarrow>
           random_code (e_rand env1) \<noteq> Inr (m_Code m)"
    and "h' = hub_run es (hub_step (Inbound env c (Frame m)) h)"
    and "m_Type m' = TPair" and "m_Code m' = m_Code m" and "is_open h' c'" and "client_id h' c' \<noteq> []"
    and "\<forall>q. db_err (e_db env') q = None"
  shows "hub_step (Inbound env' c' (Frame m')) h' = reply_error c' ''invalid pairing code'' h'"
proof -
  let ?P = "\<lambda>h. pending_code (h_store h) (m_Code m) = None"
  have frame: "pending_code (fst (upsert_machine e i n p s)) = pending_code s"
    "pending_code (fst (add_acl e i n s)) = pending_code s" for e i n p s
    by (auto intro!: pending_codes simp: store_simps)
  have "pending_code (h_store (on_pair env c m h)) = pending_code (fst (consume_code (e_db env) (m_Code m) (h_store h)))"
    using assms(1,4) frame
    by (auto simp: on_pair_def split: sum.splits option.splits prod.splits) (metis fst_conv)+
  then have start: "?P (hub_step (Inbound env c (Frame m)) h)"
    using pc.redeem_ok [OF assms(1)] assms(2,3) by (simp add: handle_def msg_type_defs)
  have keep: "?P (hub_run es h0)" if "?P h0" "set es \<subseteq> set es0"
      "\<forall>e\<in>set es0. \<forall>env1 c1 m1. e = Inbound env1 c1 (Frame m1) \<and> m_Type m1 = TCreateCode \<longrightarrow>
         random_code (e_rand env1) \<noteq> Inr (m_Code m)" for es es0 h0
    using that
  proof (induction es arbitrary: h0)
    case (Cons e es)
    have "?P (hub_step e h0)"
    proof (rule ccontr)
      assume "\<not> ?P (hub_step e h0)"
      then obtain own d where "pending_code (h_store (hub_step e h0)) (m_Code m) = Some (own, d)"
        by auto
      from pending_step [OF this] Cons.prems show False by fastforce
    qed
    then show ?case using Cons by simp
  qed simp
  have "?P h'" unfolding assms(6) by (rule keep [OF start subset_refl assms(5)])
  then have "consume_code (e_db env') (m_Code m') (h_store h') = (h_store h', Inl ''invalid pairing code'')"
    using assms(8,11) by (simp add: consume_code_def pending_code_def)
  then show ?thesis
    using assms(7,9,10) by (simp add: handle_def msg_type_defs on_pair_def)
qed

lemma demo_paired: "demo_hub = hub_step (last demo_events) (hub_run (butlast demo_events) (new_hub empty_store ''t''))"
  by (simp add: demo_events_def)

theorem code_redeemed_once_witness:
  "hub_step (Inbound (plain_env 9) 2 (Frame (pair_msg ''AAA-AAA'' ''L''))) demo_hub =
     reply_error 2 ''invalid pairing code'' demo_hub"
proof -
  let ?h = "hub_run (butlast demo_events) (new_hub empty_store ''t'')"
  let ?m = "pair_msg ''AAA-AAA'' ''L''"
  have r: "snd (consume_code (e_db (plain_env 3)) (m_Code ?m) (h_store ?h)) = Inr ''h''"
    "is_open ?h 2" "m_Type ?m = TPair" "client_id ?h 2 \<noteq> []" "is_open demo_hub 2" "client_id demo_hub 2 \<noteq> []"
    by code_simp+
  have d: "demo_hub = hub_run [] (hub_step (Inbound (plain_env 3) 2 (Frame ?m)) ?h)"
    by (simp add: demo_events_def)
  show ?thesis
    using code_redeemed_once [OF r(1-4) _ d r(3) refl r(5,6)]
    by (simp add: plain_env_def plain_db_def)
qed

text \<open>C29. An expired code is refused, and the refusal leaves the database as it was: the statement
  that deletes the expired row runs in a transaction that the deferred rollback undoes, so the row
  stays for good.\<close>

theorem expired_code_refused:
  assumes "client_id h c \<noteq> []" and "\<forall>q. db_err (e_db env) q = None"
    and "pending_code (h_store h) (m_Code m) = Some (own, d)" and "db_now (e_db env) > d"
  shows "on_pair env c m h = reply_error c ''pairing code expired'' h \<and>
    pending_code (h_store (on_pair env c m h)) (m_Code m) = Some (own, d)"
proof -
  have "consume_code (e_db env) (m_Code m) (h_store h) = (h_store h, Inl ''pairing code expired'')"
    using assms(2-4) by (auto simp: consume_code_def pending_code_def Let_def)
  then show ?thesis using assms(1,3) by (simp add: on_pair_def)
qed

theorem expired_code_refused_witness:
  "on_pair (plain_env 90000) 2 (pair_msg ''AAA-AAA'' ''L'') (hub_run (butlast demo_events) (new_hub empty_store ''t'')) =
   reply_error 2 ''pairing code expired'' (hub_run (butlast demo_events) (new_hub empty_store ''t''))"
proof -
  let ?h = "hub_run (butlast demo_events) (new_hub empty_store ''t'')"
  have h: "client_id ?h 2 \<noteq> []" by code_simp
  have p: "pending_code (h_store ?h) (m_Code (pair_msg ''AAA-AAA'' ''L'')) = Some (''h'', 86402)" by code_simp
  show ?thesis
    using expired_code_refused [OF h _ p, of "plain_env 90000"] by (simp add: plain_env_def plain_db_def)
qed

section \<open>The token gate\<close>



text \<open>The machine list is not behind the token gate: a connection that never said hello and asks
  for the list is sent the whole list, with every machine's name and public key.\<close>

theorem list_without_hello:
  assumes "client_id h c = []" and "is_open h c" and "m_Type m = TList" and "length (queue h c) < send_cap"
  shows "queue (hub_step (Inbound env c (Frame m)) h) c = queue h c @ [update_msg (machine_list env h)]"
  using assms by (simp add: handle_def msg_type_defs send_update_def queue_reply)

theorem list_without_hello_witness:
  "queue (hub_step (Inbound (plain_env 5) 3 (Frame (zero_msg\<lparr>m_Type := TList\<rparr>))) (hub_step (Accept 3) demo_hub)) 3 =
     [update_msg [\<lparr>mi_ID = ''h'', mi_Name = ''h'', mi_PubKey = ''K'', mi_Online = True\<rparr>,
                  \<lparr>mi_ID = ''g'', mi_Name = ''g'', mi_PubKey = ''L'', mi_Online = True\<rparr>]]"
proof -
  let ?h = "hub_step (Accept 3) demo_hub" and ?m = "zero_msg\<lparr>m_Type := TList\<rparr>"
  have h: "client_id ?h 3 = []" "is_open ?h 3" "m_Type ?m = TList" "length (queue ?h 3) < send_cap"
    "queue ?h 3 = []" by code_simp+
  have l: "machine_list (plain_env 5) ?h =
      [\<lparr>mi_ID = ''h'', mi_Name = ''h'', mi_PubKey = ''K'', mi_Online = True\<rparr>,
       \<lparr>mi_ID = ''g'', mi_Name = ''g'', mi_PubKey = ''L'', mi_Online = True\<rparr>]" by code_simp
  show ?thesis using list_without_hello [OF h(1-4), of "plain_env 5"] unfolding h(5) l by simp
qed

section \<open>The relay is blind\<close>

text \<open>\<open>mask\<close> forgets the sealed data of a message, of every queue and of every frame.\<close>

definition mask :: "msg \<Rightarrow> msg" where
  "mask m = m\<lparr>m_Data := []\<rparr>"

definition mask_client :: "client \<Rightarrow> client" where
  "mask_client cl = cl\<lparr>c_send := map mask (c_send cl)\<rparr>"

definition mask_hub :: "hub \<Rightarrow> hub" where
  "mask_hub h = h\<lparr>h_conns := (\<lambda>d. map_option mask_client (h_conns h d))\<rparr>"

fun mask_event :: "event \<Rightarrow> event" where
  "mask_event (Inbound env c (Frame m)) = Inbound env c (Frame (mask m))"
| "mask_event e = e"

lemma mask_simps [simp]:
  "m_Type (mask m) = m_Type m" "m_MachineID (mask m) = m_MachineID m" "m_Name (mask m) = m_Name m"
  "m_PubKey (mask m) = m_PubKey m" "m_Token (mask m) = m_Token m" "m_Code (mask m) = m_Code m"
  "m_Target (mask m) = m_Target m" "m_To (mask m) = m_To m" "m_Channel (mask m) = m_Channel m"
  "mask (relay_msg i m) = relay_msg i (mask m)"
  by (simp_all add: mask_def relay_msg_def zero_msg_def)

lemma mask_answer: "is_answer x \<Longrightarrow> mask x = x"
  by (cases x) (simp add: mask_def is_answer_def)

lemma mask_close [simp]:
  "mask (zero_msg\<lparr>m_Type := TRelayClose, m_From := i, m_Channel := ch\<rparr>) =
     zero_msg\<lparr>m_Type := TRelayClose, m_From := i, m_Channel := ch\<rparr>"
  by (simp add: mask_def zero_msg_def)

lemma mask_hub_frame [simp]:
  "h_store (mask_hub h) = h_store h" "h_token (mask_hub h) = h_token h" "h_clients (mask_hub h) = h_clients h"
  "h_panic (mask_hub h) = h_panic h" "client_id (mask_hub h) = client_id h" "is_open (mask_hub h) = is_open h"
  "mask_hub (h\<lparr>h_store := s\<rparr>) = (mask_hub h)\<lparr>h_store := s\<rparr>"
  "h_conns (mask_hub h) c = map_option mask_client (h_conns h c)"
  by (auto simp: mask_hub_def mask_client_def client_id_def is_open_def fun_eq_iff split: option.splits)

lemma mask_reply: "mask_hub (reply c x h) = reply c (mask x) (mask_hub h)"
  by (auto simp: reply_def mask_hub_def mask_client_def fun_eq_iff split: option.splits)

lemma mask_reply_answer: "is_answer x \<Longrightarrow> mask_hub (reply c x h) = reply c x (mask_hub h)"
  by (simp add: mask_reply mask_answer)

lemma mask_reply_error: "mask_hub (reply_error c t h) = reply_error c t (mask_hub h)"
  by (simp add: reply_error_def mask_reply_answer)

lemma mask_machine_list [simp]: "machine_list env (mask_hub h) = machine_list env h"
proof -
  have "machine_entry env (mask_hub h) = machine_entry env h"
    by (auto simp: machine_entry_def fun_eq_iff mask_client_def split: sum.splits option.splits)
  then show ?thesis by (simp add: machine_list_def cong: sum.case_cong)
qed

lemma mask_fold: "is_answer x \<Longrightarrow> mask_hub (fold (\<lambda>c. reply c x) cs h) = fold (\<lambda>c. reply c x) cs (mask_hub h)"
  by (induction cs arbitrary: h) (auto simp: mask_reply_answer)

lemma mask_broadcast: "mask_hub (broadcast_update env h) = broadcast_update env (mask_hub h)"
  by (simp add: broadcast_update_def Let_def mask_fold)

lemma mask_register: "mask_hub (register c i n h) = register c i n (mask_hub h)"
  by (auto simp: register_def mask_hub_def mask_client_def fun_eq_iff split: option.splits)

lemma mask_unregister: "mask_hub (unregister c h) = unregister c (mask_hub h)"
  by (auto simp: unregister_def mask_hub_def mask_client_def fun_eq_iff split: option.splits)

lemmas mask_hub_simps = mask_reply_answer mask_reply_error mask_broadcast mask_register mask_unregister

lemma mask_on_hello: "mask_hub (on_hello env c m h) = on_hello env c (mask m) (mask_hub h)"
  by (auto simp: on_hello_def Let_def mask_hub_simps split: prod.splits option.splits)

lemma mask_on_create_code: "mask_hub (on_create_code env c h) = on_create_code env c (mask_hub h)"
  by (auto simp: on_create_code_def mask_hub_simps split: prod.splits sum.splits)

lemma mask_on_pair: "mask_hub (on_pair env c m h) = on_pair env c (mask m) (mask_hub h)"
  by (auto simp: on_pair_def mask_hub_simps split: prod.splits sum.splits option.splits)

lemma mask_on_revoke: "mask_hub (on_revoke env c m h) = on_revoke env c (mask m) (mask_hub h)"
  by (auto simp: on_revoke_def mask_hub_simps split: prod.splits option.splits)

lemma mask_send_found:
  "mask_hub (send_found f h) = send_found (map_option (\<lambda>(t, x). (t, mask x)) f) (mask_hub h)"
  by (auto simp: send_found_def mask_reply split: option.splits)

lemma mask_on_relay: "mask_hub (on_relay env c m h) = on_relay env c (mask m) (mask_hub h)"
  by (auto simp: on_relay_def relay_lookup_def mask_hub_simps mask_send_found
      split: sum.splits bool.splits option.splits)

lemma mask_on_relay_close: "mask_hub (on_relay_close c m h) = on_relay_close c (mask m) (mask_hub h)"
  by (auto simp: on_relay_close_def close_lookup_def mask_send_found split: option.splits)

lemma mask_handle: "mask_hub (handle env c m h) = handle env c (mask m) (mask_hub h)"
  by (auto simp: handle_def send_update_def mask_on_hello mask_on_create_code mask_on_pair mask_on_revoke
      mask_on_relay mask_on_relay_close mask_hub_simps)

lemma mask_step: "mask_hub (hub_step e h) = hub_step (mask_event e) (mask_hub h)"
proof (cases e)
  case (Accept c)
  then show ?thesis
    by (auto simp: accept_def mask_hub_def mask_client_def new_client_def fun_eq_iff)
next
  case (Inbound env c f)
  then show ?thesis by (cases f) (auto simp: mask_handle mask_reply_error)
next
  case (Drain c)
  then show ?thesis
    by (auto simp: drain_def mask_hub_def mask_client_def map_tl fun_eq_iff split: option.splits)
next
  case (Disconnect env c)
  then show ?thesis by (auto simp: disconnect_def Let_def mask_hub_simps)
qed

text \<open>C9. The hub is blind to the sealed data: running it and then forgetting the data is the same as
  running it on frames whose data was forgotten first. So the database, the client map, every
  queue's length and every message's other fields are a function of everything but the data.\<close>

theorem hub_blind: "mask_hub (hub_run es h) = hub_run (map mask_event es) (mask_hub h)"
  by (induction es arbitrary: h) (auto simp: mask_step)

end
