(* ===== verification/HubHandlers.thy ===== *)
theory HubHandlers
  imports HubProps
begin

text \<open>
  The functional behaviour of the hub's handlers: the machine list, the broadcast after a hello,
  a pairing that goes through, pairing codes, and three behaviours that modelling showed to differ
  from what the documents say (a stale connection takes the live one's registration down, and a
  relay close is forwarded without a link).
\<close>

section \<open>The machine list\<close>

lemma machine_entry_id: "machine_entry env h mid = Some i \<Longrightarrow> mi_ID i = mid"
  by (auto simp: machine_entry_def Let_def split: sum.splits option.splits)

lemma machine_entry_total:
  assumes "\<forall>q. db_err (e_db env) q = None"
  shows "\<exists>i. machine_entry env h mid = Some i \<and> (mi_Online i \<longleftrightarrow> map_of (h_clients h) mid \<noteq> None) \<and>
    mi_PubKey i = (case map_of (machines (h_store h)) mid of None \<Rightarrow> [] | Some r \<Rightarrow> row_pubkey r)"
  using assms
  by (auto simp: machine_entry_def get_machine_def Let_def split: sum.splits option.splits)

lemma map_filter_total:
  "(\<And>x. x \<in> set xs \<Longrightarrow> \<exists>y. f x = Some y \<and> g y = x) \<Longrightarrow> map g (List.map_filter f xs) = xs"
proof (induction xs)
  case (Cons x xs)
  then obtain y where "f x = Some y" "g y = x" by fastforce
  then show ?case using Cons by (simp add: List.map_filter_simps)
qed (simp add: List.map_filter_simps)

lemma set_map_filter: "y \<in> set (List.map_filter f xs) \<longleftrightarrow> (\<exists>x\<in>set xs. f x = Some y)"
  by (induction xs) (auto simp: List.map_filter_simps split: option.splits)

text \<open>C22. The machine list is complete and truthful: when the database answers, it has exactly one
  entry per registered machine, in the order the database returned them, with the machine's stored
  public key, marked online exactly when the client map has a connection for it.\<close>

theorem machine_list_complete:
  assumes "\<forall>q. db_err (e_db env) q = None" and "is_order (db_rows (e_db env))" and "wf_store (h_store h)"
  shows "map mi_ID (machine_list env h) = db_rows (e_db env) (keys (machines (h_store h))) \<and>
    distinct (map mi_ID (machine_list env h)) \<and>
    (\<forall>i\<in>set (machine_list env h).
       (mi_Online i \<longleftrightarrow> map_of (h_clients h) (mi_ID i) \<noteq> None) \<and>
       (\<exists>r. map_of (machines (h_store h)) (mi_ID i) = Some r \<and> mi_PubKey i = row_pubkey r))"
proof -
  let ?ids = "db_rows (e_db env) (keys (machines (h_store h)))"
  have l: "machine_list env h = List.map_filter (machine_entry env h) ?ids"
    using assms(1) by (simp add: machine_list_def list_machines_def)
  have ids: "map mi_ID (machine_list env h) = ?ids"
    unfolding l using machine_entry_total [OF assms(1)] machine_entry_id by (intro map_filter_total) blast
  have "(mi_Online i \<longleftrightarrow> map_of (h_clients h) (mi_ID i) \<noteq> None) \<and>
      (\<exists>r. map_of (machines (h_store h)) (mi_ID i) = Some r \<and> mi_PubKey i = row_pubkey r)"
    if "i \<in> set (machine_list env h)" for i
  proof -
    from that obtain mid where "mid \<in> set ?ids" and e: "machine_entry env h mid = Some i"
      by (auto simp: l set_map_filter)
    then have "map_of (machines (h_store h)) mid \<noteq> None"
      using assms(2) by (simp add: map_of_eq_None_iff del: set_map) simp
    then show ?thesis
      using e machine_entry_total [OF assms(1), of h mid] machine_entry_id [OF e] by auto
  qed
  moreover have "distinct ?ids"
    using assms(2,3) by (simp add: wf_store_def wf_table_def)
  ultimately show ?thesis using ids by simp
qed

theorem machine_list_complete_witness:
  "map mi_ID (machine_list (plain_env 4) demo_hub) = [''h'', ''g'']"
proof -
  have k: "keys (machines (h_store demo_hub)) = [''h'', ''g'']" by code_simp
  have "wf_store (h_store demo_hub)" using demo_inv by (simp add: hub_inv_def store_ok_def)
  from machine_list_complete [OF _ _ this, of "plain_env 4"] k show ?thesis
    by (simp add: plain_env_def plain_db_def)
qed

section \<open>Hello and pairing\<close>

lemma queue_fold_reply:
  assumes "d \<in> set cs" and "is_open h d" and "length (queue h d) < send_cap"
  shows "last (queue (fold (\<lambda>c. reply c x) cs h) d) = x"
proof -
  have grow: "\<exists>n. queue (fold (\<lambda>c. reply c x) cs h1) d = queue h1 d @ replicate n x" for cs h1
  proof (induction cs arbitrary: h1)
    case (Cons c cs)
    obtain n where "queue (fold (\<lambda>c. reply c x) (c # cs) h1) d = queue (reply c x h1) d @ replicate n x"
      using Cons.IH by auto
    then show ?case
      by (cases "queue (reply c x h1) d = queue h1 d")
        (auto simp: queue_reply replicate_app_Cons_same intro: exI [of _ "Suc n"] split: if_splits)
  qed (auto intro: exI [of _ 0])
  from assms show ?thesis
  proof (induction cs arbitrary: h)
    case (Cons c cs)
    show ?case
    proof (cases "c = d")
      case True
      with Cons.prems have "queue (reply c x h) d = queue h d @ [x]" by (simp add: queue_reply)
      then show ?thesis using grow [of cs "reply c x h"] by (auto simp: last_append)
    next
      case False
      with Cons.prems show ?thesis by (simp add: Cons.IH queue_reply)
    qed
  qed simp
qed

lemma queue_broadcast_last:
  assumes "hub_inv h" and "is_order (e_iter env)" and "map_of (h_clients h) i = Some d"
    and "length (queue h d) < send_cap"
  shows "last (queue (broadcast_update env h) d) = update_msg (machine_list env h)"
proof -
  have "d \<in> set (e_iter env (map snd (h_clients h)))"
    using assms(2,3) by (force dest: map_of_SomeD)
  then show ?thesis
    using queue_fold_reply hub_inv_open [OF assms(1,3)] assms(4) by (simp add: broadcast_update_def Let_def)
qed

lemma machine_list_sends:
  assumes "sends_only P h h'"
  shows "machine_list env h' = machine_list env h"
proof -
  have n: "(case h_conns h1 c of None \<Rightarrow> [] | Some cl \<Rightarrow> c_name cl) =
      (case shape h1 c of None \<Rightarrow> [] | Some (_, n, _) \<Rightarrow> n)" for h1 c
    by (simp add: shape_def split: option.splits)
  have "machine_entry env h' mid = machine_entry env h mid" for mid
    unfolding machine_entry_def n sends_onlyD [OF assms] ..
  then have "machine_entry env h' = machine_entry env h" ..
  then show ?thesis unfolding machine_list_def sends_onlyD [OF assms] by (simp cong: sum.case_cong)
qed

text \<open>C32. An accepted hello makes the machine known: its row holds the name and key it sent, the
  client map points to this connection and to no other of it, and every registered connection with
  room in its queue was last sent a machine list that shows the machine online.\<close>

theorem hello_announces:
  assumes "hub_inv h" and "is_open h c" and "is_order (e_iter env)" and "\<forall>q. db_err (e_db env) q = None"
    and "is_order (db_rows (e_db env))"
    and "m_MachineID m = i" and "i \<noteq> []" and "m_PubKey m = pub" and "pub \<noteq> []"
    and "h_token h = [] \<or> m_Token m = h_token h"
    and "h' = on_hello env c m h" and "map_of (h_clients h') j = Some d" and "length (queue h d) + 1 < send_cap"
  shows "map_of (h_clients h') i = Some c \<and> client_id h' c = i \<and>
    get_machine (e_db env) i (h_store h') = Inr (m_Name m, pub) \<and>
    (\<exists>l e. last (queue h' d) = update_msg l \<and> e \<in> set l \<and> mi_ID e = i \<and> mi_Online e \<and> mi_PubKey e = pub)"
proof -
  obtain s where s: "upsert_machine (e_db env) i (m_Name m) pub (h_store h) = (s, None)"
    using assms(4) by (cases "map_of (machines (h_store h)) i") (auto simp: upsert_machine_def)
  define h1 where "h1 = register c i (m_Name m) (h\<lparr>h_store := s\<rparr>)"
  define h2 where "h2 = reply c (zero_msg\<lparr>m_Type := TWelcome, m_MachineID := i, m_Name := m_Name m\<rparr>) h1"
  have h': "h' = broadcast_update env h2"
    using assms(6-11) s by (auto simp: on_hello_def h1_def h2_def Let_def)
  have sb: "sends_only (\<lambda>_ _. True) h2 h'" unfolding h' by (rule sends_only_broadcast) simp
  have sr: "sends_only (\<lambda>_ _. True) h1 h2" unfolding h2_def by (rule sends_only_reply) simp
  have rows: "store_ok s" "machine_ids s = insert i (machine_ids (h_store h))"
    using store_ok_upsert [OF hub_inv_storeD [OF assms(1)], of "e_db env" i "m_Name m" pub]
      machine_ids_upsert [of "e_db env" i "m_Name m" pub "h_store h"] s by simp_all
  have inv1: "hub_inv h1"
    unfolding h1_def using assms(1,2,7) rows by (intro hub_inv_register hub_inv_store) auto
  have op: "is_open h1 c" using assms(2) by (simp add: h1_def)
  have inv2: "hub_inv h2" unfolding h2_def using inv1 op by (rule hub_inv_reply)
  note D = sends_onlyD [OF sb] and D1 = sends_onlyD [OF sr]
  have reg: "map_of (h_clients h1) i = Some c" "client_id h1 c = i"
    using is_open_conn [OF assms(2)] by (simp_all add: h1_def clients_register client_id_register)
  have got: "get_machine (e_db env) i s = Inr (m_Name m, pub)"
    using get_machine_upsert [of "e_db env" i "m_Name m" pub "h_store h" "e_db env" i] s assms(4) by simp
  have st: "h_store h' = s" "h_store h1 = s" by (simp_all add: D(1) D1(1) h1_def)
  have "length (queue h2 d) < send_cap"
    using assms(13) by (auto simp: h2_def h1_def queue_reply)
  then have last: "last (queue h' d) = update_msg (machine_list env h1)"
    unfolding h' using queue_broadcast_last [OF inv2 assms(3), of j d] assms(12) D(3)
    by (simp add: machine_list_sends [OF sr])
  have lst: "map mi_ID (machine_list env h1) = db_rows (e_db env) (keys (machines s))"
    "\<forall>e\<in>set (machine_list env h1). (mi_Online e \<longleftrightarrow> map_of (h_clients h1) (mi_ID e) \<noteq> None) \<and>
       (\<exists>r. map_of (machines s) (mi_ID e) = Some r \<and> mi_PubKey e = row_pubkey r)"
    using machine_list_complete [OF assms(4,5), of h1] rows(1) st(2) by (simp_all add: store_ok_def)
  have "i \<in> set (map mi_ID (machine_list env h1))"
    unfolding lst(1) using assms(5) rows(2) by (simp add: machine_ids_def)
  then obtain e where e: "e \<in> set (machine_list env h1)" "mi_ID e = i" by auto
  then have "mi_Online e" "mi_PubKey e = pub"
    using lst(2) reg(1) got assms(4) by (fastforce simp: get_machine_def)+
  with e last reg got st(1) show ?thesis by (auto simp: D(3,5) D1(3,5))
qed

theorem hello_announces_witness:
  "map_of (h_clients (on_hello (plain_env 9) 3 (hello_msg ''x'' ''M'' ''t'') (hub_step (Accept 3) demo_hub))) ''x'' = Some 3"
proof -
  let ?h = "hub_step (Accept 3) demo_hub" and ?m = "hello_msg ''x'' ''M'' ''t''"
  have inv: "hub_inv ?h" by (rule hub_inv_step [OF _ demo_inv]) (simp add: event_ok_def)
  have h: "is_open ?h 3" "h_token ?h = [] \<or> m_Token ?m = h_token ?h"
    "map_of (h_clients (on_hello (plain_env 9) 3 ?m ?h)) ''h'' = Some 1" "length (queue ?h 1) + 1 < send_cap"
    by code_simp+
  have m: "m_MachineID ?m = ''x''" "m_PubKey ?m = ''M''" by (simp_all add: hello_msg_def zero_msg_def)
  have e: "\<forall>q. db_err (e_db (plain_env 9)) q = None" "is_order (db_rows (e_db (plain_env 9)))"
    by (simp_all add: plain_env_def plain_db_def)
  have ne: "''x'' \<noteq> []" "''M'' \<noteq> []" by simp_all
  show ?thesis
    using hello_announces [OF inv h(1) plain_env_order e m(1) ne(1) m(2) ne(2) h(2) refl h(3,4)] by blast
qed

text \<open>C31. A pairing that goes through: the guest redeems a pending, unexpired code of another machine
  while the database answers. Then the two machines are linked and every other link is as it was,
  the code is gone and every other code is as it was, and the guest is told the owner's id first.\<close>

theorem pair_links:
  assumes "client_id h c = guest" and "guest \<noteq> []" and "is_open h c" and "length (queue h c) < send_cap"
    and "\<forall>q. db_err (e_db env) q = None"
    and "pending_code (h_store h) (m_Code m) = Some (own, d)" and "db_now (e_db env) \<le> d" and "own \<noteq> guest"
    and "h' = on_pair env c m h"
  shows "(\<forall>x y. linked (h_store h') x y \<longleftrightarrow> linked (h_store h) x y \<or> {x, y} = {own, guest}) \<and>
    pending_code (h_store h') = (pending_code (h_store h))(m_Code m := None) \<and>
    (\<exists>xs. queue h' c = queue h c @
       zero_msg\<lparr>m_Type := TPaired, m_Peer := Some (zero_info\<lparr>mi_ID := own\<rparr>)\<rparr> # xs)"
proof -
  obtain s where s: "consume_code (e_db env) (m_Code m) (h_store h) = (s, Inr own)"
    using assms(5-7) by (auto simp: consume_code_def pending_code_def Let_def)
  obtain s' where s': "upsert_machine (e_db env) guest (m_Name m) (m_PubKey m) s = (s', None)"
    using assms(5) by (cases "map_of (machines s) guest") (auto simp: upsert_machine_def)
  obtain s'' where s'': "add_acl (e_db env) own guest s' = (s'', None)"
    using assms(5) by (cases "map_of (acls s') (acl_key own guest)") (auto simp: add_acl_def)
  let ?p = "zero_msg\<lparr>m_Type := TPaired, m_Peer := Some (zero_info\<lparr>mi_ID := own\<rparr>)\<rparr>"
  have h': "h' = broadcast_update env (reply c ?p (h\<lparr>h_store := s''\<rparr>))"
    using assms(1,2,8,9) s s' s'' by (simp add: on_pair_def)
  have "linked (h_store h') x y \<longleftrightarrow> linked (h_store h) x y \<or> {x, y} = {own, guest}" for x y
    using acl.lnk_add [of "e_db env" own guest s' x y] s''
      linked_frame(1) [of "e_db env" guest "m_Name m" "m_PubKey m" s] s'
      linked_frame(3) [of "e_db env" "m_Code m" "h_store h"] s
    by (simp add: h')
  moreover have "pending_code (h_store h') = (pending_code (h_store h))(m_Code m := None)"
    using pc.redeem_ok [of "e_db env" "m_Code m" "h_store h" own] s
      pending_codes [OF upsert_machine_frame(1) [of "e_db env" guest "m_Name m" "m_PubKey m" s]] s'
      pending_codes [OF add_acl_frame(2) [of "e_db env" own guest s']] s''
    by (simp add: h')
  moreover have "\<exists>xs. queue h' c = queue h c @ ?p # xs"
    using sends_only_queue [OF sends_only_broadcast [of "\<lambda>_ _. True" "reply c ?p (h\<lparr>h_store := s''\<rparr>)" env], of c]
      assms(3,4) by (auto simp: h' queue_reply)
  ultimately show ?thesis by simp
qed

theorem pair_links_witness:
  "linked (h_store (on_pair (plain_env 3) 2 (pair_msg ''AAA-AAA'' ''L'')
     (hub_run (butlast demo_events) (new_hub empty_store ''t'')))) ''h'' ''g''"
proof -
  let ?h = "hub_run (butlast demo_events) (new_hub empty_store ''t'')"
  have h: "client_id ?h 2 = ''g''" "is_open ?h 2" "length (queue ?h 2) < send_cap"
    "pending_code (h_store ?h) (m_Code (pair_msg ''AAA-AAA'' ''L'')) = Some (''h'', 86402)"
    by code_simp+
  have e: "\<forall>q. db_err (e_db (plain_env 3)) q = None" "db_now (e_db (plain_env 3)) \<le> 86402"
    by (simp_all add: plain_env_def plain_db_def)
  show ?thesis using pair_links [OF h(1) _ h(2,3) e(1) h(4) e(2) _ refl] by simp
qed

section \<open>Pairing codes\<close>

lemma code_from_eq:
  assumes "length b = 6"
  shows "code_from 0 b =
    map (\<lambda>v. code_chars ! (byte_val v mod 32)) (take 3 b) @ ''-'' @
    map (\<lambda>v. code_chars ! (byte_val v mod 32)) (drop 3 b)"
proof -
  obtain a1 a2 a3 a4 a5 a6 where "b = [a1, a2, a3, a4, a5, a6]"
    using assms by (auto simp: length_Suc_conv numeral_eq_Suc)
  moreover have "length code_chars = 32" by (simp add: code_chars_def)
  ultimately show ?thesis by simp
qed

lemma code_chars_count:
  assumes "ch \<in> set code_chars"
  shows "card {n. n < (256::nat) \<and> code_chars ! (n mod 32) = ch} = 8"
proof -
  have len: "length code_chars = 32" and dist: "distinct code_chars" by (simp_all add: code_chars_def)
  obtain j where j: "j < 32" "ch = code_chars ! j" using assms len by (metis in_set_conv_nth)
  have "n \<in> (\<lambda>k. 32 * k + j) ` {..<8}" if "n < 256" "code_chars ! (n mod 32) = ch" for n
  proof -
    have "n mod 32 = j" using that j dist len by (simp add: nth_eq_iff_index_eq)
    then have "n = 32 * (n div 32) + j" by presburger
    with that(1) show ?thesis by (intro image_eqI [of _ _ "n div 32"]) auto
  qed
  then have "{n. n < (256::nat) \<and> code_chars ! (n mod 32) = ch} = (\<lambda>k. 32 * k + j) ` {..<8}"
    using j by auto
  moreover have "inj_on (\<lambda>k. 32 * k + j) {..<8}" by (rule inj_onI) simp
  ultimately show ?thesis by (simp add: card_image)
qed

text \<open>C40. A pairing code is six characters of a 32-letter alphabet without the look-alikes 0, O, 1
  and I, written as three, a dash, and three; and the map from random bytes to characters is
  unbiased: every letter of the alphabet is hit by exactly 8 of the 256 byte values.\<close>

theorem pairing_code_format:
  assumes "length b = 6"
  shows "\<exists>p q. random_code (Inr b) = Inr (p @ ''-'' @ q) \<and> length p = 3 \<and> length q = 3 \<and>
    set p \<union> set q \<subseteq> set code_chars \<and> set code_chars \<inter> set ''0O1I'' = {} \<and>
    (\<forall>ch\<in>set code_chars. card {v::char. code_chars ! (byte_val v mod length code_chars) = ch} = 8)"
proof -
  have len: "length code_chars = 32" by (simp add: code_chars_def)
  have "card {v::char. code_chars ! (byte_val v mod 32) = ch} = 8" if "ch \<in> set code_chars" for ch
  proof -
    have inj: "inj_on (char_of :: nat \<Rightarrow> char) {..<256}"
      by (rule inj_on_inverseI [where g = of_char]) (simp add: of_char_of)
    have "{v::char. code_chars ! (byte_val v mod 32) = ch} =
        char_of ` {n. n < 256 \<and> code_chars ! (n mod 32) = ch}" (is "?L = ?R")
    proof
      show "?L \<subseteq> ?R"
      proof
        fix v assume "v \<in> ?L"
        then show "v \<in> ?R" by (intro image_eqI [of _ _ "byte_val v"]) simp_all
      qed
      show "?R \<subseteq> ?L" by (auto simp: of_char_of)
    qed
    moreover have "card (char_of ` {n. n < (256::nat) \<and> code_chars ! (n mod 32) = ch} :: char set) =
        card {n. n < (256::nat) \<and> code_chars ! (n mod 32) = ch}"
      by (rule card_image) (rule inj_on_subset [OF inj], auto)
    ultimately show ?thesis using code_chars_count [OF that] by simp
  qed
  moreover have "set code_chars \<inter> set ''0O1I'' = {}" by (simp add: code_chars_def)
  moreover have "code_chars ! (n mod 32) \<in> set code_chars" for n by (rule nth_mem) (simp add: len)
  ultimately show ?thesis
    using assms unfolding random_code_def len
    by (intro exI [of _ "map (\<lambda>v. code_chars ! (byte_val v mod 32)) (take 3 b)"]
        exI [of _ "map (\<lambda>v. code_chars ! (byte_val v mod 32)) (drop 3 b)"])
      (auto simp: code_from_eq)
qed

theorem pairing_code_format_witness:
  "\<exists>p q. random_code (Inr (map char_of [0::nat, 31, 32, 255, 7, 100])) = Inr (p @ ''-'' @ q) \<and> length p = 3"
  using pairing_code_format [of "map char_of [0::nat, 31, 32, 255, 7, 100]"] by auto

section \<open>Sessions, stale connections, and closes without a link\<close>

lemma is_open_handle: "is_open h c \<Longrightarrow> is_open (handle env c m h) c"
proof (cases "m_Type m = THello")
  case True
  assume "is_open h c"
  then show ?thesis
    using True by (cases rule: on_hello_cases [of h env c m]) (auto simp: handle_def same_connsD(2))
qed (simp add: same_connsD(2) [OF same_conns_handle])

lemma is_open_read_frame: "is_open h c \<Longrightarrow> is_open (read_frame env c f h) c"
  by (cases f) (auto simp: is_open_handle same_connsD(2) [OF same_conns_reply_error])

text \<open>A session is the run of its events: accepting a connection, reading its frames one by one
  and tearing it down, as \<open>ServeHTTP\<close> does in one call, is the run of the hub over the
  corresponding events, because the connection stays open for as long as its read loop runs.\<close>

theorem session_is_run:
  assumes "h_conns h c = None"
  shows "serve_http c frames env h =
    hub_run (Accept c # map (\<lambda>(env', f). Inbound env' c f) frames @ [Disconnect env c]) h"
proof -
  have "fold (\<lambda>(env', f). read_frame env' c f) frames h1 =
      hub_run (map (\<lambda>(env', f). Inbound env' c f) frames) h1 \<and>
      is_open (hub_run (map (\<lambda>(env', f). Inbound env' c f) frames) h1) c" if "is_open h1 c" for h1
    using that by (induction frames arbitrary: h1) (auto simp: is_open_read_frame)
  moreover have "is_open (accept c h) c" by (simp add: shape_fields)
  ultimately show ?thesis using assms by (simp add: serve_http_def)
qed

theorem session_is_run_witness:
  "serve_http 1 [(plain_env 0, Frame (hello_msg ''h'' ''K'' ''t''))] (plain_env 1) (new_hub empty_store ''t'') =
   hub_run [Accept 1, Inbound (plain_env 0) 1 (Frame (hello_msg ''h'' ''K'' ''t'')), Disconnect (plain_env 1) 1]
     (new_hub empty_store ''t'')"
  using session_is_run [of "new_hub empty_store ''t''" 1 "[(plain_env 0, Frame (hello_msg ''h'' ''K'' ''t''))]" "plain_env 1"]
  by (simp add: new_hub_def)

text \<open>C37. When a machine has reconnected, the end of its old connection takes the new one off the map:
  the old session's teardown deletes the entry of its machine id without looking whose connection
  it holds. The machine then is offline for the hub, although its live connection is open and
  believes to be registered, and a linked peer's frame is answered \<open>is offline\<close>.\<close>

theorem stale_disconnect_unregisters:
  assumes "hub_inv h" and "is_open h old" and "is_open h new" and "old \<noteq> new"
    and "client_id h old = i" and "client_id h new = i" and "i \<noteq> []" and "h' = hub_step (Disconnect env old) h"
  shows "is_open h' new \<and> client_id h' new = i \<and> map_of (h_clients h') i = None \<and>
    (m_To m = i \<and> m_Channel m \<noteq> [] \<and> client_id h' c \<noteq> [] \<and> db_err (e_db env') CountACL = None \<and>
       linked (h_store h') (client_id h' c) i \<longrightarrow>
     on_relay env' c m h' =
       reply c (zero_msg\<lparr>m_Type := TError, m_Channel := m_Channel m, m_Message := i @ '' is offline''\<rparr>) h')"
proof -
  have h': "h' = broadcast_update env (unregister old h)"
    using assms(2,5,7,8) by (simp add: disconnect_def Let_def)
  note D = same_connsD [OF same_conns_broadcast [of "unregister old h" env], folded h']
  have gone: "map_of (h_clients h') i = None"
    using assms(5,7) by (simp add: D(4) clients_unregister)
  moreover have "is_open h' new" "client_id h' new = i"
    using assms(3,4,6) by (simp_all add: D(1,2)) (simp add: shape_fields shape_unregister)
  moreover have "on_relay env' c m h' =
      reply c (zero_msg\<lparr>m_Type := TError, m_Channel := m_Channel m, m_Message := i @ '' is offline''\<rparr>) h'"
    if "m_To m = i" "m_Channel m \<noteq> []" "client_id h' c \<noteq> []" "db_err (e_db env') CountACL = None"
      "linked (h_store h') (client_id h' c) i"
    using that assms(7) gone by (simp add: on_relay_def relay_lookup_def has_acl_eq send_found_def)
  ultimately show ?thesis by blast
qed

definition demo_reconnect :: hub where
  "demo_reconnect =
     hub_run [Accept 3, Inbound (plain_env 4) 3 (Frame (hello_msg ''h'' ''K'' ''t''))] demo_hub"

theorem stale_disconnect_unregisters_witness:
  "is_open (hub_step (Disconnect (plain_env 9) 1) demo_reconnect) 3 \<and>
   map_of (h_clients (hub_step (Disconnect (plain_env 9) 1) demo_reconnect)) ''h'' = None"
proof -
  have inv: "hub_inv demo_reconnect"
    unfolding demo_reconnect_def by (rule hub.inv_run [OF _ demo_inv]) (simp add: event_ok_def)
  have h: "is_open demo_reconnect 1" "is_open demo_reconnect 3" "client_id demo_reconnect 1 = ''h''"
    "client_id demo_reconnect 3 = ''h''" by code_simp+
  show ?thesis
    using stale_disconnect_unregisters [OF inv h(1,2) _ h(3,4) _ refl, of "plain_env 9"] by simp
qed

text \<open>A relay close is not subject to the ACL: a registered machine reaches any online machine's
  queue with a close for a channel of its choice, linked or not.\<close>

theorem close_needs_no_link:
  assumes "client_id h c = i" and "i \<noteq> []" and "is_open h c" and "m_Type m = TRelayClose"
    and "m_To m = j" and "j \<noteq> []" and "m_Channel m = ch" and "ch \<noteq> []"
    and "map_of (h_clients h) j = Some d" and "is_open h d" and "length (queue h d) < send_cap"
  shows "queue (hub_step (Inbound env c (Frame m)) h) d =
    queue h d @ [zero_msg\<lparr>m_Type := TRelayClose, m_From := i, m_Channel := ch\<rparr>]"
  using assms
  by (simp add: handle_relay_close on_relay_close_def close_lookup_def send_found_def queue_reply)

theorem close_needs_no_link_witness:
  "\<not> linked (h_store (hub_step demo_revoke demo_hub)) ''g'' ''h'' \<and>
   queue (hub_step (Inbound (plain_env 6) 2 (Frame (zero_msg\<lparr>m_Type := TRelayClose, m_To := ''h'', m_Channel := ''ch''\<rparr>)))
     (hub_step demo_revoke demo_hub)) 1 =
   queue (hub_step demo_revoke demo_hub) 1 @ [zero_msg\<lparr>m_Type := TRelayClose, m_From := ''g'', m_Channel := ''ch''\<rparr>]"
proof -
  let ?h = "hub_step demo_revoke demo_hub"
  let ?m = "zero_msg\<lparr>m_Type := TRelayClose, m_To := ''h'', m_Channel := ''ch''\<rparr>"
  have h: "client_id ?h 2 = ''g''" "is_open ?h 2" "map_of (h_clients ?h) ''h'' = Some 1" "is_open ?h 1"
    "length (queue ?h 1) < send_cap" "\<not> linked (h_store ?h) ''g'' ''h''" by code_simp+
  have m: "m_Type ?m = TRelayClose" "m_To ?m = ''h''" "m_Channel ?m = ''ch''" by (simp_all add: zero_msg_def)
  show ?thesis
    using close_needs_no_link [OF h(1) _ h(2) m(1,2) _ m(3) _ h(3-5), of "plain_env 6"] h(6) by simp
qed

end
