(* ===== verification/HubRace.thy ===== *)
theory HubRace
  imports HubHandlers
begin

text \<open>
  The hub below the granularity of handlers. \<open>onRelay\<close> and \<open>onRelayClose\<close> look the target up under
  the hub's mutex, give the mutex up, and send. Here a send that is on its way is an entry of
  \<open>r_flight\<close>, and any other step of the hub may come in between. The order matters: the target may
  have been torn down, and its \<open>send\<close> channel closed, before the send happens.
\<close>

record race =
  r_hub :: hub
  r_flight :: "(nat \<times> msg) list"

inductive race_step :: "race \<Rightarrow> race \<Rightarrow> bool" where
  whole: "event_ok e \<Longrightarrow> race_step s (s\<lparr>r_hub := hub_step e (r_hub s)\<rparr>)"
| relay_found: "is_open (r_hub s) c \<Longrightarrow> m_Type m = TRelay \<Longrightarrow>
    relay_lookup env c m (r_hub s) = (h, Some f) \<Longrightarrow>
    race_step s (s\<lparr>r_hub := h, r_flight := f # r_flight s\<rparr>)"
| close_found: "is_open (r_hub s) c \<Longrightarrow> m_Type m = TRelayClose \<Longrightarrow>
    close_lookup c m (r_hub s) = Some f \<Longrightarrow>
    race_step s (s\<lparr>r_flight := f # r_flight s\<rparr>)"
| sent: "f \<in> set (r_flight s) \<Longrightarrow>
    race_step s (s\<lparr>r_hub := send_found (Some f) (r_hub s), r_flight := remove1 f (r_flight s)\<rparr>)"

inductive_cases race_stepE [consumes 1, case_names whole relay_found close_found sent]: "race_step s t"

inductive race_reach :: "race \<Rightarrow> bool" where
  start: "store_ok st \<Longrightarrow> race_reach \<lparr>r_hub = new_hub st tok, r_flight = []\<rparr>"
| step: "race_reach s \<Longrightarrow> race_step s t \<Longrightarrow> race_reach t"

lemma hub_inv_unless_panic:
  assumes "race_reach s" and "\<not> h_panic (r_hub s)"
  shows "hub_inv (r_hub s)"
  using assms
proof (induction rule: race_reach.induct)
  case (start st tok)
  then show ?case by (simp add: hub_inv_new)
next
  case (step s t)
  from step.hyps(2) show ?case
  proof (cases rule: race_stepE)
    case (whole e)
    have "\<not> h_panic (r_hub s)"
    proof
      assume "h_panic (r_hub s)"
      then have "h_panic (hub_step e (r_hub s))" by (rule panic_sticky)
      then show False using step.prems whole by simp
    qed
    then show ?thesis using whole step.IH by (simp add: hub_inv_step)
  next
    case (relay_found c m env h f)
    have "h = r_hub s" using relay_lookup_Some [of env c m "r_hub s" f] relay_found by simp
    then show ?thesis using relay_found step.IH step.prems by simp
  next
    case (close_found c m f)
    then show ?thesis using step.IH step.prems by simp
  next
    case (sent f)
    obtain d x where f: "f = (d, x)" by fastforce
    then have "\<not> h_panic (r_hub s) \<and> \<not> is_closed (r_hub s) d"
      using sent step.prems by (simp add: send_found_def)
    then show ?thesis
      using sent step.IH f
      by (auto simp: send_found_def intro!: hub_inv_sends [OF _ sends_only_reply [of "\<lambda>_ _. True"]])
  qed
qed

text \<open>C30. The hub panics only by sending to a connection that went away in flight: if a reachable
  interleaved execution panics in a step, that step completed a send whose target, found open
  earlier under the mutex, has been torn down since. All other steps are safe in every reachable
  state.\<close>

theorem panic_only_in_flight:
  assumes "race_reach s" and "\<not> h_panic (r_hub s)" and "race_step s t" and "h_panic (r_hub t)"
  shows "\<exists>d x. (d, x) \<in> set (r_flight s) \<and> is_closed (r_hub s) d \<and>
    r_hub t = reply d x (r_hub s) \<and> (m_Type x = TRelay \<or> m_Type x = TRelayClose)"
proof -
  have inv: "hub_inv (r_hub s)" using assms(1,2) by (rule hub_inv_unless_panic)
  have kinds: "m_Type x = TRelay \<or> m_Type x = TRelayClose" if "(d, x) \<in> set (r_flight s)" for d x
    using assms(1) that
  proof (induction arbitrary: d x rule: race_reach.induct)
    case (step s t)
    from step.hyps(2) show ?case
    proof (cases rule: race_stepE)
      case (relay_found c m env h f)
      then have "m_Type x = TRelay" if "f = (d, x)"
        using relay_lookup_found [of env c m "r_hub s" d x] that by (simp add: relay_msg_def zero_msg_def)
      then show ?thesis using relay_found step by auto
    next
      case (close_found c m f)
      then have "m_Type x = TRelayClose" if "f = (d, x)"
        using close_lookup_found [of c m "r_hub s" d x] that by (simp add: zero_msg_def)
      then show ?thesis using close_found step by auto
    next
      case (sent f)
      then show ?thesis using step set_remove1_subset by fastforce
    qed (use step in auto)
  qed simp
  from assms(3) show ?thesis
  proof (cases rule: race_stepE)
    case (whole e)
    then have "hub_inv (r_hub t)" using inv by (simp add: hub_inv_step)
    then show ?thesis using assms(4) by (simp add: hub_inv_def)
  next
    case (relay_found c m env h f)
    then show ?thesis
      using relay_lookup_Some [of env c m "r_hub s" f] assms(2,4) by simp
  next
    case (close_found c m f)
    then show ?thesis using assms(2,4) by simp
  next
    case (sent f)
    then obtain d x where "f = (d, x)" "is_closed (r_hub s) d"
      using assms(2,4) by (cases f) (auto simp: send_found_def)
    then show ?thesis using sent kinds by (auto simp: send_found_def)
  qed
qed

text \<open>The race, concretely: the guest's frame to the host is looked up, the host disconnects, the
  frame is sent.\<close>

definition race_demo :: race where
  "race_demo =
     \<lparr>r_hub = hub_step (Disconnect (plain_env 9) 1) demo_hub, r_flight = [(1, relay_msg ''g'' demo_relay)]\<rparr>"

lemma race_run: "race_reach s \<Longrightarrow> list_all event_ok es \<Longrightarrow> race_reach (s\<lparr>r_hub := hub_run es (r_hub s)\<rparr>)"
proof (induction es arbitrary: s)
  case (Cons e es)
  then have "race_reach (s\<lparr>r_hub := hub_step e (r_hub s)\<rparr>)" by (auto intro: race_reach.step race_step.whole)
  from Cons.IH [OF this] Cons.prems show ?case by simp
qed simp

lemma race_demo_reach: "race_reach race_demo"
proof -
  let ?s0 = "\<lparr>r_hub = demo_hub, r_flight = []\<rparr>" and ?f = "(1::nat, relay_msg ''g'' demo_relay)"
  have "race_reach ?s0"
    using race_run [OF race_reach.start [OF store_ok_empty] demo_ok, of "''t''"] by simp
  moreover have "race_step ?s0 \<lparr>r_hub = demo_hub, r_flight = [?f]\<rparr>"
  proof -
    have "is_open (r_hub ?s0) 2" "m_Type demo_relay = TRelay"
      "fst (relay_lookup (plain_env 8) 2 demo_relay (r_hub ?s0)) = demo_hub"
      "snd (relay_lookup (plain_env 8) 2 demo_relay (r_hub ?s0)) = Some ?f"
    proof -
      show "is_open (r_hub ?s0) 2" "m_Type demo_relay = TRelay" by code_simp+
      show *: "snd (relay_lookup (plain_env 8) 2 demo_relay (r_hub ?s0)) = Some ?f" by code_simp
      show "fst (relay_lookup (plain_env 8) 2 demo_relay (r_hub ?s0)) = demo_hub"
        using relay_lookup_Some [OF *] by simp
    qed
    from race_step.relay_found [OF this(1,2), of "plain_env 8" demo_hub ?f] this(3,4)
    show ?thesis by (simp add: prod_eq_iff)
  qed
  moreover have "race_step \<lparr>r_hub = demo_hub, r_flight = [?f]\<rparr> race_demo"
    using race_step.whole [of "Disconnect (plain_env 9) 1" "\<lparr>r_hub = demo_hub, r_flight = [?f]\<rparr>"]
    by (simp add: race_demo_def event_ok_def)
  ultimately show ?thesis by (blast intro: race_reach.step)
qed

theorem panic_only_in_flight_witness:
  "h_panic (r_hub (race_demo\<lparr>r_hub := send_found (Some (1, relay_msg ''g'' demo_relay)) (r_hub race_demo), r_flight := []\<rparr>)) \<and>
   (\<exists>d x. (d, x) \<in> set (r_flight race_demo) \<and> is_closed (r_hub race_demo) d)"
proof -
  let ?f = "(1::nat, relay_msg ''g'' demo_relay)"
  let ?t = "race_demo\<lparr>r_hub := send_found (Some ?f) (r_hub race_demo), r_flight := []\<rparr>"
  have s: "race_step race_demo ?t"
    using race_step.sent [of ?f race_demo] by (simp add: race_demo_def)
  have p: "\<not> h_panic (r_hub race_demo)" "h_panic (r_hub ?t)" by code_simp+
  show ?thesis using panic_only_in_flight [OF race_demo_reach p(1) s p(2)] p(2) by blast
qed

end
