(* ===== verification/HubMain.thy ===== *)
theory HubMain
  imports Hub
begin

text \<open>
  The hub's executable (\<^verbatim>\<open>cmd/bunk-hub/main.go\<close>): the health endpoint and its own integer printer.
  \<open>hub_itoa\<close> is the code's \<open>itoa\<close> with its 20-byte buffer \<open>b\<close> and its write position \<open>i\<close>; \<open>None\<close> is
  the panic of an index below zero. The negation of the smallest integer wraps around.
\<close>

function itoa_loop :: "int \<Rightarrow> nat \<Rightarrow> string \<Rightarrow> (nat \<times> string) option" where
  "itoa_loop n i b =
     (if n > 0 then
        (if i = 0 then None else itoa_loop (n div 10) (i - 1) (b[i - 1 := digit_char (nat (n mod 10))]))
      else Some (i, b))"
  by pat_completeness auto
termination
  by (relation "measure (\<lambda>(n, _, _). nat n)") auto

declare itoa_loop.simps [simp del]

definition hub_itoa :: "int \<Rightarrow> string option" where
  "hub_itoa n =
     (if n = 0 then Some ''0''
      else
        (let neg = n < 0; n' = (if neg then int64 (- n) else n)
         in (case itoa_loop n' 20 (replicate 20 (CHR 0x00)) of
               None \<Rightarrow> None
             | Some (i, b) \<Rightarrow>
                 if neg then (if i = 0 then None else Some (drop (i - 1) (b[i - 1 := CHR ''-''])))
                 else Some (drop i b))))"

definition health_body :: "hub \<Rightarrow> string option" where
  "health_body h =
     map_option (\<lambda>s. CHR ''{'' # CHR 0x22 # ''status'' @ CHR 0x22 # CHR '':'' # CHR 0x22 # ''ok'' @ CHR 0x22 #
                CHR '','' # CHR 0x22 # ''machines'' @ CHR 0x22 # CHR '':'' # s @ ''}'')
       (hub_itoa (int (health h)))"

text \<open>
  The start of the server: a flag that is not given takes its default, the database is opened, and
  the hub answers two paths. The parsed flags, the environment and the open database are arguments;
  the result is the hub and what is logged before it serves, or the fatal message.
\<close>

record flags =
  fl_addr :: "string option"
  fl_db :: "string option"
  fl_token :: "string option"

definition flag_addr :: "flags \<Rightarrow> string" where
  "flag_addr fl = (case fl_addr fl of None \<Rightarrow> '':8080'' | Some a \<Rightarrow> a)"

definition flag_db :: "flags \<Rightarrow> string" where
  "flag_db fl = (case fl_db fl of None \<Rightarrow> ''bunk-hub.db'' | Some p \<Rightarrow> p)"

definition flag_token :: "(string \<Rightarrow> string) \<Rightarrow> flags \<Rightarrow> string" where
  "flag_token getenv fl = (case fl_token fl of None \<Rightarrow> getenv ''BUNK_HUB_TOKEN'' | Some t \<Rightarrow> t)"

definition hub_main ::
    "(string \<Rightarrow> string) \<Rightarrow> flags \<Rightarrow> db_env \<Rightarrow> (string \<Rightarrow> store option) \<Rightarrow> (hub \<times> string list) result" where
  "hub_main getenv fl env files =
     (case open_store env (files (flag_db fl)) of
        Inl e \<Rightarrow> Inl (''open db: '' @ e)
      | Inr s \<Rightarrow>
          Inr (new_hub s (flag_token getenv fl),
               (if flag_token getenv fl = []
                then [''WARNING: BUNK_HUB_TOKEN is empty '' @ em_dash @
                      '' any client can register. Set it in production.'']
                else []) @
               [''bunk-hub listening on '' @ flag_addr fl @ '' (db='' @ flag_db fl @ '')'',
                ''point clients at ws://<this-host>'' @ flag_addr fl @ ''/ws'']))"

datatype page = SocketPage | HealthPage string | NoPage

text \<open>The routes; \<open>None\<close> is a panic of the printer.\<close>

definition hub_route :: "hub \<Rightarrow> string \<Rightarrow> page option" where
  "hub_route h path =
     (if path = ''/ws'' then Some SocketPage
      else if path = ''/health'' then map_option HealthPage (health_body h)
      else Some NoPage)"

lemma itoa_loop_zero [simp]: "n \<le> 0 \<Longrightarrow> itoa_loop n i b = Some (i, b)"
  by (subst itoa_loop.simps) simp

lemma length_nat_digits: "0 < k \<Longrightarrow> n < 10 ^ k \<Longrightarrow> length (nat_digits n) \<le> k"
proof (induction n arbitrary: k rule: nat_digits.induct)
  case (1 n)
  show ?case
  proof (cases "n < 10")
    case True
    with "1.prems" show ?thesis by (subst nat_digits.simps) simp
  next
    case False
    obtain j where k: "k = Suc j" using "1.prems"(1) by (cases k) auto
    with False "1.prems"(2) have "0 < j" by (cases j) auto
    moreover have "n div 10 < 10 ^ j" using "1.prems"(2) k by (simp add: less_mult_imp_div_less mult.commute)
    ultimately have "length (nat_digits (n div 10)) \<le> j" using "1.IH" [OF False] by blast
    then show ?thesis using False k by (subst nat_digits.simps) simp
  qed
qed

lemma drop_update_prev: "0 < i \<Longrightarrow> i \<le> length b \<Longrightarrow> drop (i - 1) (b[i - 1 := x]) = x # drop i b"
  using Cons_nth_drop_Suc [of "i - 1" "b[i - 1 := x]"] by simp

lemma itoa_loop_digits:
  assumes "0 < n" and "length (nat_digits n) \<le> i" and "i \<le> length b"
  shows "\<exists>b'. itoa_loop (int n) i b = Some (i - length (nat_digits n), b') \<and> length b' = length b \<and>
    drop (i - length (nat_digits n)) b' = nat_digits n @ drop i b"
  using assms
proof (induction n arbitrary: i b rule: nat_digits.induct)
  case (1 n)
  have i: "0 < i" using "1.prems"(2) nat_digits_not_Nil [of n] by (cases i) auto
  let ?b = "b[i - 1 := digit_char (n mod 10)]"
  have d: "drop (i - 1) ?b = digit_char (n mod 10) # drop i b"
    by (rule drop_update_prev [OF i "1.prems"(3)])
  have num: "int n div 10 = int (n div 10)" "nat (int n mod 10) = n mod 10"
    by (simp_all add: zdiv_int nat_mod_distrib)
  have step: "itoa_loop (int n) i b = itoa_loop (int (n div 10)) (i - 1) ?b"
    using i "1.prems"(1) unfolding itoa_loop.simps [of "int n" i b] num
    by simp
  show ?case
  proof (cases "n < 10")
    case True
    then have "nat_digits n = [digit_char n]" by (subst nat_digits.simps) simp
    with True step d show ?thesis by simp
  next
    case False
    have digits: "nat_digits n = nat_digits (n div 10) @ [digit_char (n mod 10)]"
      using False by (subst nat_digits.simps) simp
    have "\<exists>b'. itoa_loop (int (n div 10)) (i - 1) ?b = Some (i - 1 - length (nat_digits (n div 10)), b') \<and>
        length b' = length ?b \<and>
        drop (i - 1 - length (nat_digits (n div 10))) b' = nat_digits (n div 10) @ drop (i - 1) ?b"
      using False digits "1.prems" by (intro "1.IH") auto
    then show ?thesis using step d digits by (auto simp: diff_diff_left)
  qed
qed

lemma int64_digits: "n < 2 ^ 63 \<Longrightarrow> length (nat_digits n) \<le> 19"
  by (rule length_nat_digits) auto

text \<open>C39. The hub's own integer printer agrees with the standard decimal form on every 64-bit integer
  but the smallest: the 20-byte buffer is never overrun, the loop ends, and the sign and the digits
  are those of \<open>strconv.Itoa\<close>.\<close>

theorem hub_itoa_correct:
  assumes "is_int64 n" and "n \<noteq> - (2 ^ 63)"
  shows "hub_itoa n = Some (itoa n)"
proof (cases "n = 0")
  case True
  have "nat_digits 0 = ''0''" by code_simp
  with True show ?thesis by (simp add: hub_itoa_def itoa_def)
next
  case False
  define k where "k = nat \<bar>n\<bar>"
  let ?b = "replicate 20 (CHR 0x00)"
  have k: "0 < k" "k < 2 ^ 63" "int k = \<bar>n\<bar>"
    using assms False by (auto simp: k_def is_int64_def)
  then have len: "length (nat_digits k) \<le> 19" by (intro int64_digits)
  obtain b' where b': "itoa_loop (int k) 20 ?b = Some (20 - length (nat_digits k), b')" "length b' = 20"
    "drop (20 - length (nat_digits k)) b' = nat_digits k"
    using itoa_loop_digits [OF k(1), of 20 ?b] len by auto
  have abs: "(if n < 0 then int64 (- n) else n) = int k"
    using assms k(3) by (auto simp: is_int64_def intro!: int64_id)
  have "drop (20 - length (nat_digits k) - 1) (b'[20 - length (nat_digits k) - 1 := CHR ''-'']) =
      CHR ''-'' # nat_digits k"
    using drop_update_prev [of "20 - length (nat_digits k)" b' "CHR ''-''"] b'(2,3) len by simp
  then show ?thesis
    using False b' abs len k(3) by (auto simp: hub_itoa_def itoa_def Let_def k_def)
qed

theorem hub_itoa_correct_witness: "hub_itoa (- 120) = Some (itoa (- 120))"
  by (rule hub_itoa_correct) (simp_all add: is_int64_def)

text \<open>On the smallest 64-bit integer the printer loses all digits: the negation wraps around, the
  loop body never runs, and the result is a lone minus sign.\<close>

theorem hub_itoa_min: "hub_itoa (- (2 ^ 63)) = Some ''-''"
  by (simp add: hub_itoa_def int64_min_neg drop_update_prev [of 20 "replicate 20 (CHR 0x00)", simplified])

end
