(* ===== verification/HubSpec.thy ===== *)
theory HubSpec
  imports HubTrace
begin

text \<open>
  The abstract specification of the hub's authority: a registry of which machines may talk and which
  pairing codes are open, and its steps, each taken by one machine. Every event of the hub refines a
  step of the machine whose connection it comes from.
\<close>

record registry =
  rg_linked :: "string \<Rightarrow> string \<Rightarrow> bool"
  rg_codes :: "string \<Rightarrow> (string \<times> int) option"

inductive registry_step :: "string \<Rightarrow> registry \<Rightarrow> registry \<Rightarrow> bool" where
  stutter: "registry_step actor r r"
| issue: "actor \<noteq> [] \<Longrightarrow> rg_codes r k = None \<Longrightarrow>
    registry_step actor r (r\<lparr>rg_codes := (rg_codes r)(k \<mapsto> (actor, t))\<rparr>)"
| burn: "actor \<noteq> [] \<Longrightarrow> rg_codes r k = Some (owner, t) \<Longrightarrow>
    registry_step actor r (r\<lparr>rg_codes := (rg_codes r)(k := None)\<rparr>)"
| redeem: "actor \<noteq> [] \<Longrightarrow> rg_codes r k = Some (owner, t) \<Longrightarrow> owner \<noteq> actor \<Longrightarrow>
    registry_step actor r (r\<lparr>rg_codes := (rg_codes r)(k := None),
      rg_linked := (\<lambda>x y. rg_linked r x y \<or> {x, y} = {owner, actor})\<rparr>)"
| revoke: "actor \<noteq> [] \<Longrightarrow>
    registry_step actor r (r\<lparr>rg_linked := (\<lambda>x y. rg_linked r x y \<and> {x, y} \<noteq> {actor, target})\<rparr>)"

inductive_cases registry_stepE: "registry_step actor r r'"

inductive_simps registry_step_nobody: "registry_step [] r r'"

definition registry_of :: "hub \<Rightarrow> registry" where
  "registry_of h = \<lparr>rg_linked = linked (h_store h), rg_codes = pending_code (h_store h)\<rparr>"

section \<open>What the specification promises\<close>

text \<open>A step changes the links of its own machine only, and grants one only for a code of the other.\<close>

lemma step_links_of_actor:
  assumes "registry_step actor r r'" and "rg_linked r' x y \<noteq> rg_linked r x y"
  shows "actor \<in> {x, y} \<and> (rg_linked r' x y \<longrightarrow> (\<exists>k t. (\<exists>owner. rg_codes r k = Some (owner, t) \<and> {x, y} = {owner, actor}) \<and> rg_codes r' k = None))"
  using assms by (cases rule: registry_stepE) (auto simp: doubleton_eq_iff)

lemma step_codes:
  assumes "registry_step actor r r'" and "rg_codes r' k = Some (owner, t)" and "rg_codes r k \<noteq> Some (owner, t)"
  shows "owner = actor \<and> rg_codes r k = None"
  using assms by (cases rule: registry_stepE) (auto split: if_splits)

section \<open>The hub refines it\<close>

lemma pending_upsert [simp]: "pending_code (fst (upsert_machine env mid name pub s)) = pending_code s"
  by (rule pending_codes) (simp add: store_simps)

lemma pending_acl [simp]:
  "pending_code (fst (add_acl env a b s)) = pending_code s" "pending_code (fst (delete_acl env a b s)) = pending_code s"
  by (rule pending_codes, simp add: store_simps)+

definition same_registry :: "store \<Rightarrow> store \<Rightarrow> bool" where
  "same_registry s s' \<longleftrightarrow> linked s' = linked s \<and> pending_code s' = pending_code s"

lemma registry_stutter: "same_registry (h_store h) (h_store h') \<Longrightarrow> registry_step a (registry_of h) (registry_of h')"
  by (simp add: registry_of_def same_registry_def stutter)

lemma registry_on_hello: "registry_step a (registry_of h) (registry_of (on_hello env c m h))"
proof -
  have "same_registry s (fst (upsert_machine e i n p s))" for e i n p s
    by (simp add: same_registry_def store_simps)
  then have "same_registry (h_store h) (h_store (on_hello env c m h))"
    by (simp add: on_hello_def Let_def case_prod_beta split: option.split) (simp add: same_registry_def)
  then show ?thesis by (rule registry_stutter)
qed

lemma registry_on_create_code: "registry_step (client_id h c) (registry_of h) (registry_of (on_create_code env c h))"
proof (cases "client_id h c = []")
  case True
  then show ?thesis by (intro registry_stutter) (simp add: on_create_code_def same_registry_def)
next
  case False
  define s' where "s' = fst (new_code env (client_id h c) (h_store h))"
  have s: "h_store (on_create_code env c h) = s'"
    using False by (simp add: on_create_code_def s'_def split: prod.split sum.split)
  have "linked s' = linked (h_store h) \<and> (pending_code s' = pending_code (h_store h) \<or>
      (\<exists>k t. pending_code (h_store h) k = None \<and> pending_code s' = (pending_code (h_store h))(k \<mapsto> (client_id h c, t))))"
  proof (cases "random_code (e_rand env)")
    case (Inr k)
    have s'': "s' = fst (create_code (e_db env) (client_id h c) k codeTTL (h_store h))"
      by (simp add: s'_def new_code_def Inr split: prod.split option.split)
    show ?thesis unfolding s''
      using pc.issue_ok [of "e_db env" "client_id h c" k codeTTL "h_store h"] pc.issue_err [of "e_db env" "client_id h c" k codeTTL "h_store h"]
      by (cases "snd (create_code (e_db env) (client_id h c) k codeTTL (h_store h)) = None") (auto simp: store_simps)
  qed (simp add: s'_def new_code_def)
  with False show ?thesis
    using stutter [of "client_id h c" "registry_of h"] issue [of "client_id h c" "registry_of h"]
    by (auto simp: registry_of_def s)
qed

lemma registry_on_revoke: "registry_step (client_id h c) (registry_of h) (registry_of (on_revoke env c m h))"
proof (cases "client_id h c = [] \<or> m_Target m = []")
  case True
  then show ?thesis by (intro registry_stutter) (simp add: on_revoke_def same_registry_def)
next
  case False
  define s' where "s' = fst (delete_acl (e_db env) (client_id h c) (m_Target m) (h_store h))"
  have s: "h_store (on_revoke env c m h) = s'"
    using False by (simp add: on_revoke_def s'_def split: prod.split option.split)
  have p: "pending_code s' = pending_code (h_store h)" by (simp add: s'_def)
  show ?thesis
  proof (cases "snd (delete_acl (e_db env) (client_id h c) (m_Target m) (h_store h))")
    case None
    then have "linked s' = (\<lambda>x y. linked (h_store h) x y \<and> {x, y} \<noteq> {client_id h c, m_Target m})"
      by (simp add: s'_def acl.lnk_del fun_eq_iff)
    with False p show ?thesis using revoke [of "client_id h c" "registry_of h" "m_Target m"] by (simp add: registry_of_def s)
  next
    case (Some e)
    then have "s' = h_store h" by (simp add: s'_def acl.del_err)
    then show ?thesis by (intro registry_stutter) (simp add: s same_registry_def)
  qed
qed

lemma registry_on_pair: "registry_step (client_id h c) (registry_of h) (registry_of (on_pair env c m h))"
proof (cases "client_id h c = []")
  case True
  then show ?thesis by (intro registry_stutter) (simp add: on_pair_def same_registry_def)
next
  case False
  let ?me = "client_id h c"
  obtain s r where c: "consume_code (e_db env) (m_Code m) (h_store h) = (s, r)" by (cases "consume_code (e_db env) (m_Code m) (h_store h)")
  show ?thesis
  proof (cases r)
    case (Inl e)
    then have "s = h_store h" using pc.redeem_err [of "e_db env" "m_Code m" "h_store h"] c by simp
    then show ?thesis using False c Inl by (intro registry_stutter) (simp add: on_pair_def same_registry_def)
  next
    case (Inr owner)
    obtain t where t: "pending_code (h_store h) (m_Code m) = Some (owner, t)"
      and p: "pending_code s = (pending_code (h_store h))(m_Code m := None)"
      using pc.redeem_ok [of "e_db env" "m_Code m" "h_store h" owner] c Inr by auto
    have l: "linked s = linked (h_store h)" using store_simps(2) c by (metis linked_frame(3) fst_conv)
    define s1 where "s1 = fst (upsert_machine (e_db env) ?me (m_Name m) (m_PubKey m) s)"
    define s2 where "s2 = fst (add_acl (e_db env) owner ?me s1)"
    have s1: "linked s1 = linked s" "pending_code s1 = pending_code s" by (simp_all add: s1_def store_simps)
    have burnt: "registry_step ?me (registry_of h) (registry_of h')" if "linked (h_store h') = linked s" "pending_code (h_store h') = pending_code s" for h'
      using burn [of ?me "registry_of h" "m_Code m" owner t] False t that p l by (simp add: registry_of_def)
    have st: "h_store (on_pair env c m h) = (if owner = ?me then s
        else if snd (upsert_machine (e_db env) ?me (m_Name m) (m_PubKey m) s) \<noteq> None then s1 else s2)"
      using False c Inr by (simp add: on_pair_def s1_def s2_def split: prod.split option.split)
    show ?thesis
    proof (cases "owner = ?me \<or> snd (upsert_machine (e_db env) ?me (m_Name m) (m_PubKey m) s) \<noteq> None \<or>
        snd (add_acl (e_db env) owner ?me s1) \<noteq> None")
      case True
      then have "linked (h_store (on_pair env c m h)) = linked s \<and> pending_code (h_store (on_pair env c m h)) = pending_code s"
        using s1 acl.add_err [of "e_db env" owner ?me s1] unfolding st s2_def by auto
      then show ?thesis using burnt by blast
    next
      case no: False
      then have "linked s2 = (\<lambda>x y. linked (h_store h) x y \<or> {x, y} = {owner, ?me})" "pending_code s2 = pending_code s"
        using acl.lnk_add [of "e_db env" owner ?me s1] s1 l by (simp_all add: s2_def fun_eq_iff)
      then show ?thesis using redeem [of ?me "registry_of h" "m_Code m" owner t] False no t p
        by (simp add: registry_of_def st)
    qed
  qed
qed

fun event_conn :: "event \<Rightarrow> nat" where
  "event_conn (Accept c) = c"
| "event_conn (Inbound _ c _) = c"
| "event_conn (Drain c) = c"
| "event_conn (Disconnect _ c) = c"

definition event_actor :: "hub \<Rightarrow> event \<Rightarrow> string" where
  "event_actor h e = client_id h (event_conn e)"

lemma registry_handle: "registry_step (client_id h c) (registry_of h) (registry_of (handle env c m h))"
proof -
  have "registry_of (on_relay env c m h) = registry_of h" "registry_of (on_relay_close c m h) = registry_of h"
    "registry_of (send_update env c h) = registry_of h" "registry_of (reply_error c t h) = registry_of h" for t
    by (simp_all add: registry_of_def)
  then show ?thesis
    by (simp add: handle_def registry_on_hello registry_on_create_code registry_on_pair registry_on_revoke stutter)
qed

text \<open>C8. The hub refines the registry: every event, on any hub and with any failures of the database, is
  one step of the specification taken by the machine registered on the event's connection. So a
  connection without a registered machine changes no link and no code, a machine only ever changes its
  own links, and a new link costs an open code of the other machine; every run of the hub is a run of
  the registry.\<close>

theorem hub_refines_registry:
  "registry_step (event_actor h e) (registry_of h) (registry_of (hub_step e h)) \<and>
   (\<lambda>r r'. \<exists>actor. registry_step actor r r')\<^sup>*\<^sup>* (registry_of h) (registry_of (hub_run es h))"
proof
  have step: "registry_step (event_actor h e) (registry_of h) (registry_of (hub_step e h))" for e h
  proof (cases e)
    case (Inbound env c f)
    have "registry_of (reply_error c t h) = registry_of h" for t by (simp add: registry_of_def)
    with Inbound show ?thesis
      by (cases f) (simp_all add: event_actor_def registry_handle stutter)
  qed (simp_all add: registry_of_def stutter event_actor_def)
  show "registry_step (event_actor h e) (registry_of h) (registry_of (hub_step e h))" by (rule step)
  show "(\<lambda>r r'. \<exists>actor. registry_step actor r r')\<^sup>*\<^sup>* (registry_of h) (registry_of (hub_run es h))"
  proof (induction es arbitrary: h)
    case (Cons e es)
    have "\<exists>actor. registry_step actor (registry_of h) (registry_of (hub_step e h))" using step by blast
    from converse_rtranclp_into_rtranclp [of "\<lambda>r r'. \<exists>actor. registry_step actor r r'", OF this Cons.IH] show ?case by simp
  qed simp
qed

end
