(* ===== verification/Config.thy ===== *)
theory Config
  imports Proto
begin

text \<open>
  The data the daemon and the CLI share: the configuration of \<^verbatim>\<open>~/.bunk/config.yaml\<close> and the state of
  \<^verbatim>\<open>~/.bunk/state.json\<close> (\<^verbatim>\<open>internal/daemon/daemon.go\<close>), with the CLI's own mirror of the state
  (\<^verbatim>\<open>internal/cli/cli.go\<close>). YAML decoding is a third-party library that overwrites fields of the value
  it is given: a file is the function it applies to the configuration. \<open>mirror\<close> is what
  \<^verbatim>\<open>encoding/json\<close> makes of the daemon's state when the CLI reads it: the two structs have the same
  JSON names, and the CLI's one has no forwards.
\<close>

definition DefaultCPUs :: int where "DefaultCPUs = 6"
definition DefaultMemoryGB :: int where "DefaultMemoryGB = 12"
definition DefaultPids :: int where "DefaultPids = 256"

record limits =
  l_CPUs :: int
  l_MemoryGB :: int
  l_Pids :: int

record idle_gate_config =
  ig_Enabled :: bool
  ig_IdleSeconds :: int
  ig_ThresholdMs :: int

record config =
  cfg_Hub :: string
  cfg_Token :: string
  cfg_ServeDocker :: bool
  cfg_GPU :: string
  cfg_Limits :: limits
  cfg_IdleGate :: idle_gate_config

definition default_config :: config where
  "default_config =
     \<lparr>cfg_Hub = [], cfg_Token = [], cfg_ServeDocker = True, cfg_GPU = ''auto'',
      cfg_Limits = \<lparr>l_CPUs = DefaultCPUs, l_MemoryGB = DefaultMemoryGB, l_Pids = DefaultPids\<rparr>,
      cfg_IdleGate = \<lparr>ig_Enabled = False, ig_IdleSeconds = 0, ig_ThresholdMs = 0\<rparr>\<rparr>"

lemmas default_defs = default_config_def DefaultCPUs_def DefaultMemoryGB_def DefaultPids_def

record link_info =
  li_Port :: int
  li_GPU :: string
  li_Cores :: int
  li_RAMGB :: int

record key_pair_json =
  kj_Public :: string
  kj_Private :: string

record state =
  s_MachineID :: string
  s_Key :: "key_pair_json option"
  s_Name :: string
  s_ControlPort :: int
  s_Active :: string
  s_Links :: "(string, link_info) table"
  s_Forwards :: "forward_info list"

record daemon_state =
  ds_MachineID :: string
  ds_Key :: "key_pair_json option"
  ds_Name :: string
  ds_ControlPort :: int
  ds_Active :: string
  ds_Links :: "(string, link_info) table"

definition mirror :: "state \<Rightarrow> daemon_state" where
  "mirror s =
     \<lparr>ds_MachineID = s_MachineID s, ds_Key = s_Key s, ds_Name = s_Name s,
      ds_ControlPort = s_ControlPort s, ds_Active = s_Active s, ds_Links = s_Links s\<rparr>"

end
