(* ===== verification/Base64.thy ===== *)
theory Base64
  imports GoStd
begin

text \<open>
  \<open>base64.StdEncoding\<close> of Go's standard library: the encoder, three bytes to four characters with
  padding, and the decoder with its treatment of line breaks and padding and the position it reports
  in an error. The law the program relies on is the round trip.
\<close>

definition b64_chars :: string where
  "b64_chars = ''ABCDEFGHIJKLMNOPQRSTUVWXYZabcdefghijklmnopqrstuvwxyz0123456789+/''"

definition b64_char :: "nat \<Rightarrow> char" where
  "b64_char v = b64_chars ! v"

definition b64_val :: "char \<Rightarrow> nat option" where
  "b64_val c = index_byte c b64_chars"

definition pad :: char where
  "pad = CHR ''=''"

fun b64_encode :: "string \<Rightarrow> string" where
  "b64_encode [] = []"
| "b64_encode [a] =
     [b64_char (byte_val a div 4), b64_char (byte_val a mod 4 * 16), pad, pad]"
| "b64_encode [a, b] =
     [b64_char (byte_val a div 4), b64_char (byte_val a mod 4 * 16 + byte_val b div 16),
      b64_char (byte_val b mod 16 * 4), pad]"
| "b64_encode (a # b # c # s) =
     b64_char (byte_val a div 4) # b64_char (byte_val a mod 4 * 16 + byte_val b div 16) #
     b64_char (byte_val b mod 16 * 4 + byte_val c div 64) # b64_char (byte_val c mod 64) # b64_encode s"

text \<open>The bytes of two, three or four six-bit values; surplus bits are dropped.\<close>

fun b64_bytes :: "nat list \<Rightarrow> string" where
  "b64_bytes [p, q] = [char_of (p * 4 + q div 16)]"
| "b64_bytes [p, q, r] = [char_of (p * 4 + q div 16), char_of (q mod 16 * 16 + r div 4)]"
| "b64_bytes [p, q, r, t] =
     [char_of (p * 4 + q div 16), char_of (q mod 16 * 16 + r div 4), char_of (r mod 4 * 64 + t)]"
| "b64_bytes _ = []"

definition corrupt :: "nat \<Rightarrow> 'a result" where
  "corrupt i = Inl (''illegal base64 data at input byte '' @ nat_digits i)"

definition is_break :: "char \<Rightarrow> bool" where
  "is_break c \<longleftrightarrow> c = CHR 0x0A \<or> c = CHR 0x0D"

text \<open>What follows the padding: line breaks up to the end.\<close>

definition b64_end :: "nat \<Rightarrow> string \<Rightarrow> string \<Rightarrow> string result" where
  "b64_end i s out =
     (let t = dropWhile is_break s
      in if t = [] then Inr out else corrupt (i + (length s - length t)))"

text \<open>\<open>i\<close> is the position of the next character, \<open>q\<close> the values of the unfinished group.\<close>

fun b64_from :: "nat \<Rightarrow> nat list \<Rightarrow> string \<Rightarrow> string result" where
  "b64_from i q [] = (if q = [] then Inr [] else corrupt (i - length q))"
| "b64_from i q (c # s) =
     (case b64_val c of
        Some v \<Rightarrow>
          if length q = 3
          then map_sum id (\<lambda>out. b64_bytes (q @ [v]) @ out) (b64_from (Suc i) [] s)
          else b64_from (Suc i) (q @ [v]) s
      | None \<Rightarrow>
          if is_break c then b64_from (Suc i) q s
          else if c \<noteq> pad \<or> length q < 2 then corrupt i
          else if length q = 2 then
            (let t = dropWhile is_break s; j = Suc i + (length s - length t)
             in case t of
                  [] \<Rightarrow> corrupt j
                | d # t' \<Rightarrow> if d \<noteq> pad then corrupt (j - 1) else b64_end (Suc j) t' (b64_bytes q))
          else b64_end (Suc i) s (b64_bytes q))"

definition b64_decode :: "string \<Rightarrow> string result" where
  "b64_decode s = b64_from 0 [] s"

lemma b64_val_char: "v < 64 \<Longrightarrow> b64_val (b64_char v) = Some v"
proof -
  assume "v < 64"
  then have "v \<in> set [0..<64]" by simp
  moreover have "list_all (\<lambda>v. b64_val (b64_char v) = Some v) [0..<64]" by code_simp
  ultimately show ?thesis by (simp only: list_all_iff)
qed

lemma b64_val_pad [simp]: "b64_val pad = None"
  by code_simp

lemma not_break_pad [simp]: "\<not> is_break pad"
  by (simp add: is_break_def pad_def)

lemma char_of_byte_val [simp]: "char_of (byte_val c) = c"
  by (rule char_of_char)

lemma b64_round:
  fixes a b c :: char
  shows "b64_bytes [byte_val a div 4, byte_val a mod 4 * 16] = [a]"
    "b64_bytes [byte_val a div 4, byte_val a mod 4 * 16 + byte_val b div 16, byte_val b mod 16 * 4] = [a, b]"
    "b64_bytes [byte_val a div 4, byte_val a mod 4 * 16 + byte_val b div 16,
       byte_val b mod 16 * 4 + byte_val c div 64, byte_val c mod 64] = [a, b, c]"
proof -
  have s: "byte_val b div 16 < 16" "byte_val c div 64 < 4" using nat_of_char_less_256 [of b] nat_of_char_less_256 [of c] by linarith+
  have "(byte_val a mod 4 * 16 + byte_val b div 16) mod 16 * 16 + (byte_val b mod 16 * 4 + byte_val c div 64) div 4 = byte_val b"
    "(byte_val a mod 4 * 16 + byte_val b div 16) mod 16 * 16 + (byte_val b mod 16 * 4) div 4 = byte_val b"
    "(byte_val b mod 16 * 4 + byte_val c div 64) mod 4 * 64 + byte_val c mod 64 = byte_val c"
    "byte_val a div 4 * 4 + (byte_val a mod 4 * 16) div 16 = byte_val a"
    "byte_val a div 4 * 4 + (byte_val a mod 4 * 16 + byte_val b div 16) div 16 = byte_val a"
    using s by (simp_all add: mod_add_eq)
  then show "b64_bytes [byte_val a div 4, byte_val a mod 4 * 16] = [a]"
    "b64_bytes [byte_val a div 4, byte_val a mod 4 * 16 + byte_val b div 16, byte_val b mod 16 * 4] = [a, b]"
    "b64_bytes [byte_val a div 4, byte_val a mod 4 * 16 + byte_val b div 16,
       byte_val b mod 16 * 4 + byte_val c div 64, byte_val c mod 64] = [a, b, c]"
    by (simp_all only: b64_bytes.simps char_of_byte_val)
qed

lemma b64_ranges:
  "byte_val a div 4 < 64" "byte_val a mod 4 * 16 + byte_val b div 16 < 64" "byte_val a mod 4 * 16 < 64"
  "byte_val b mod 16 * 4 + byte_val c div 64 < 64" "byte_val b mod 16 * 4 < 64" "byte_val c mod 64 < 64"
  using nat_of_char_less_256 [of a] nat_of_char_less_256 [of b] nat_of_char_less_256 [of c] by linarith+

lemma b64_from_encode: "b64_from i [] (b64_encode s) = Inr s"
proof (induction s arbitrary: i rule: b64_encode.induct)
  case (4 a b c s)
  then show ?case
    by (simp add: b64_val_char b64_ranges b64_round del: b64_bytes.simps)
qed (simp_all add: b64_val_char b64_ranges b64_round b64_end_def del: b64_bytes.simps)

lemma b64_round_trip [simp]: "b64_decode (b64_encode s) = Inr s"
  by (simp add: b64_decode_def b64_from_encode)

end
