(* ===== verification/E2E.thy ===== *)
theory E2E
  imports Base64
begin

text \<open>
  End-to-end encryption (\<^verbatim>\<open>internal/e2e/e2e.go\<close>): key pairs with their stored form, sealing and opening
  of frames. \<^verbatim>\<open>nacl/box\<close> is not under the repository; its functions are the argument \<open>box\<close>, and what the
  code relies on is \<open>box_ok\<close>: a box opens under the two matching keys exactly when it is the one that
  sealing produces, a sealed box is longer than its payload by a fixed overhead, and a generated key
  pair matches and has 32 bytes each. A frame is the 24 bytes of the nonce followed by the box.
\<close>

record box =
  bx_GenerateKey :: "string result \<Rightarrow> (string \<times> string) result"
  bx_Seal :: "string \<Rightarrow> string \<Rightarrow> string \<Rightarrow> string \<Rightarrow> string"
  bx_Open :: "string \<Rightarrow> string \<Rightarrow> string \<Rightarrow> string \<Rightarrow> string option"
  bx_Overhead :: nat

definition box_ok :: "box \<Rightarrow> (string \<Rightarrow> string) \<Rightarrow> bool" where
  "box_ok bx pub_of \<longleftrightarrow>
     (\<forall>c m n a b. bx_Open bx c n (pub_of a) b = Some m \<longleftrightarrow> c = bx_Seal bx m n (pub_of b) a) \<and>
     (\<forall>m n p a. length (bx_Seal bx m n p a) = length m + bx_Overhead bx) \<and>
     (\<forall>r pub priv. bx_GenerateKey bx r = Inr (pub, priv) \<longrightarrow>
        pub = pub_of priv \<and> length pub = 32 \<and> length priv = 32)"

record key_pair =
  kp_Public :: string
  kp_Private :: string
  kp_PubB64 :: string
  kp_PrivB64 :: string

definition GenerateKeyPair :: "box \<Rightarrow> string result \<Rightarrow> key_pair result" where
  "GenerateKeyPair bx rnd =
     (case bx_GenerateKey bx rnd of
        Inl e \<Rightarrow> Inl (''generate keypair: '' @ e)
      | Inr (pub, priv) \<Rightarrow>
          Inr \<lparr>kp_Public = pub, kp_Private = priv,
               kp_PubB64 = b64_encode pub, kp_PrivB64 = b64_encode priv\<rparr>)"

definition DecodePublicB64 :: "string \<Rightarrow> string result" where
  "DecodePublicB64 s =
     (case b64_decode s of
        Inl e \<Rightarrow> Inl (''decode pubkey: '' @ e)
      | Inr raw \<Rightarrow> if length raw \<noteq> 32 then Inl ''pubkey must be 32 bytes'' else Inr raw)"

definition LoadKey :: "string \<Rightarrow> string \<Rightarrow> key_pair result" where
  "LoadKey pubB64 privB64 =
     (case DecodePublicB64 pubB64 of
        Inl e \<Rightarrow> Inl e
      | Inr pub \<Rightarrow>
         (case b64_decode privB64 of
            Inl e \<Rightarrow> Inl (''decode privkey: '' @ e)
          | Inr priv \<Rightarrow>
              if length priv \<noteq> 32 then Inl ''privkey must be 32 bytes''
              else Inr \<lparr>kp_Public = pub, kp_Private = priv, kp_PubB64 = pubB64, kp_PrivB64 = privB64\<rparr>))"

text \<open>\<open>rnd\<close> is what the random source returned for the 24 bytes of the nonce.\<close>

definition Seal :: "box \<Rightarrow> key_pair \<Rightarrow> string result \<Rightarrow> string \<Rightarrow> string \<Rightarrow> string result" where
  "Seal bx kp rnd recipientPub payload =
     (case rnd of
        Inl e \<Rightarrow> Inl (''nonce: '' @ e)
      | Inr nonce \<Rightarrow> Inr (nonce @ bx_Seal bx payload nonce recipientPub (kp_Private kp)))"

definition Open :: "box \<Rightarrow> key_pair \<Rightarrow> string \<Rightarrow> string \<Rightarrow> string result" where
  "Open bx kp senderPub sealed =
     (if length sealed < 24 + bx_Overhead bx then Inl ''frame too short''
      else (case bx_Open bx (drop 24 sealed) (take 24 sealed) senderPub (kp_Private kp) of
              None \<Rightarrow> Inl ''decrypt/authenticate failed''
            | Some out \<Rightarrow> Inr out))"

definition kp_ok :: "(string \<Rightarrow> string) \<Rightarrow> key_pair \<Rightarrow> bool" where
  "kp_ok pub_of kp \<longleftrightarrow>
     kp_Public kp = pub_of (kp_Private kp) \<and> length (kp_Public kp) = 32 \<and> length (kp_Private kp) = 32 \<and>
     kp_PubB64 kp = b64_encode (kp_Public kp) \<and> kp_PrivB64 kp = b64_encode (kp_Private kp)"

lemma DecodePublicB64_encode [simp]: "length k = 32 \<Longrightarrow> DecodePublicB64 (b64_encode k) = Inr k"
  by (simp add: DecodePublicB64_def)

lemma DecodePublic_kp: "kp_ok pub_of kp \<Longrightarrow> DecodePublicB64 (kp_PubB64 kp) = Inr (kp_Public kp)"
  unfolding kp_ok_def by (metis DecodePublicB64_encode)

lemma generated_ok: "box_ok bx pub_of \<Longrightarrow> GenerateKeyPair bx rnd = Inr kp \<Longrightarrow> kp_ok pub_of kp"
  by (auto simp: GenerateKeyPair_def box_ok_def kp_ok_def split: sum.splits)

lemma Open_iff_Seal:
  assumes "box_ok bx pub_of" and "kp_ok pub_of a" and "kp_ok pub_of b"
  shows "Open bx b (kp_Public a) sealed = Inr m \<longleftrightarrow>
    (\<exists>nonce. length nonce = 24 \<and> Seal bx a (Inr nonce) (kp_Public b) m = Inr sealed)"
proof -
  have pub: "kp_Public a = pub_of (kp_Private a)" "kp_Public b = pub_of (kp_Private b)"
    using assms(2,3) by (simp_all add: kp_ok_def)
  have exact: "bx_Open bx c n (pub_of x) y = Some m \<longleftrightarrow> c = bx_Seal bx m n (pub_of y) x" for c n x y
    using assms(1) by (auto simp: box_ok_def)
  have len: "length (bx_Seal bx m n p x) = length m + bx_Overhead bx" for n p x
    using assms(1) by (simp add: box_ok_def)
  show ?thesis
  proof
    assume o: "Open bx b (kp_Public a) sealed = Inr m"
    then have l: "24 + bx_Overhead bx \<le> length sealed"
      and c: "drop 24 sealed = bx_Seal bx m (take 24 sealed) (pub_of (kp_Private b)) (kp_Private a)"
      by (auto simp: Open_def pub exact split: if_splits option.splits)
    show "\<exists>nonce. length nonce = 24 \<and> Seal bx a (Inr nonce) (kp_Public b) m = Inr sealed"
      using l c by (intro exI [of _ "take 24 sealed"]) (simp add: Seal_def pub flip: c)
  next
    assume "\<exists>nonce. length nonce = 24 \<and> Seal bx a (Inr nonce) (kp_Public b) m = Inr sealed"
    then obtain nonce where "length nonce = 24"
      "sealed = nonce @ bx_Seal bx m nonce (pub_of (kp_Private b)) (kp_Private a)"
      by (auto simp: Seal_def pub)
    then show "Open bx b (kp_Public a) sealed = Inr m"
      by (simp add: Open_def len pub exact [THEN iffD2, OF refl])
  qed
qed

text \<open>C15. Sealing and opening are inverse and nothing else opens: with two matching key pairs, a frame
  from the sender opens for the recipient to the payload exactly when it is that payload sealed by the
  sender for the recipient, under some nonce of 24 bytes.\<close>

theorem opened_iff_sealed:
  assumes "box_ok bx pub_of" and "GenerateKeyPair bx r1 = Inr a" and "GenerateKeyPair bx r2 = Inr b"
  shows "Open bx b (kp_Public a) sealed = Inr m \<longleftrightarrow>
    (\<exists>nonce. length nonce = 24 \<and> Seal bx a (Inr nonce) (kp_Public b) m = Inr sealed)"
  by (rule Open_iff_Seal [OF assms(1) generated_ok [OF assms(1,2)] generated_ok [OF assms(1,3)]])

text \<open>A box for examples: a key is its own public key, the tag is the two keys' first bytes.\<close>

definition toy_box :: box where
  "toy_box =
     \<lparr>bx_GenerateKey = (\<lambda>r. case r of Inl e \<Rightarrow> Inl e
        | Inr k \<Rightarrow> if length k = 32 then Inr (k, k) else Inl ''short''),
      bx_Seal = (\<lambda>m n p a. replicate 16 (hd (a @ n)) @ m),
      bx_Open = (\<lambda>c n p b. if take 16 c = replicate 16 (hd (p @ n)) then Some (drop 16 c) else None),
      bx_Overhead = 16\<rparr>"

lemma toy_box_ok: "box_ok toy_box (\<lambda>k. k)"
  unfolding box_ok_def toy_box_def
  by (auto split: sum.splits if_splits) (metis append_take_drop_id)

definition toy_key :: "char \<Rightarrow> key_pair" where
  "toy_key c =
     \<lparr>kp_Public = replicate 32 c, kp_Private = replicate 32 c,
      kp_PubB64 = b64_encode (replicate 32 c), kp_PrivB64 = b64_encode (replicate 32 c)\<rparr>"

lemma toy_key_generated: "GenerateKeyPair toy_box (Inr (replicate 32 c)) = Inr (toy_key c)"
  by (simp add: GenerateKeyPair_def toy_box_def toy_key_def)

theorem opened_iff_sealed_witness:
  "Open toy_box (toy_key CHR ''b'') (kp_Public (toy_key CHR ''a''))
     (replicate 24 CHR ''n'' @ replicate 16 CHR ''a'' @ ''hello'') = Inr ''hello''"
proof -
  have "Seal toy_box (toy_key CHR ''a'') (Inr (replicate 24 CHR ''n'')) (kp_Public (toy_key CHR ''b'')) ''hello'' =
      Inr (replicate 24 CHR ''n'' @ replicate 16 CHR ''a'' @ ''hello'')" by code_simp
  then show ?thesis
    using opened_iff_sealed [OF toy_box_ok toy_key_generated toy_key_generated] by (metis length_replicate)
qed

text \<open>A key pair survives the state file: what is stored of a generated key pair loads back to the
  same pair, both 32-byte keys included.\<close>

theorem key_pair_round_trip:
  assumes "box_ok bx pub_of" and "GenerateKeyPair bx rnd = Inr kp"
  shows "LoadKey (kp_PubB64 kp) (kp_PrivB64 kp) = Inr kp"
  using generated_ok [OF assms] by (cases kp) (auto simp: LoadKey_def kp_ok_def)

theorem key_pair_round_trip_witness:
  "LoadKey (kp_PubB64 (toy_key CHR ''a'')) (kp_PrivB64 (toy_key CHR ''a'')) = Inr (toy_key CHR ''a'')"
  by (rule key_pair_round_trip [OF toy_box_ok toy_key_generated])

end
