(* ===== verification/Caps.thy ===== *)
theory Caps
  imports GoStd
begin

text \<open>
  Capability detection (\<^verbatim>\<open>internal/caps/caps.go\<close>). What the operating system answers is the argument
  \<open>probe\<close>: the runtime's constants, which programs are on the search path, the output of
  \<^verbatim>\<open>nvidia-smi -L\<close>, the host name and the content of \<^verbatim>\<open>/proc/meminfo\<close>. The size of the memory is computed
  with 64-bit integers, and Go's division rounds towards zero.
\<close>

record caps =
  ca_OS :: string
  ca_Arch :: string
  ca_GPU :: string
  ca_Hostname :: string
  ca_Cores :: int
  ca_RAMGB :: int

record probe =
  pr_GOOS :: string
  pr_GOARCH :: string
  pr_NumCPU :: int
  pr_LookPath :: "string \<Rightarrow> bool"
  pr_nvidia :: "string result"
  pr_Hostname :: "string result"
  pr_meminfo :: "string result"

definition DetectGPU :: "probe \<Rightarrow> string" where
  "DetectGPU pr =
     (if pr_LookPath pr ''nvidia-smi'' \<and> (case pr_nvidia pr of Inl _ \<Rightarrow> False | Inr out \<Rightarrow> length out > 0)
      then ''nvidia''
      else if pr_LookPath pr ''rocm-smi'' then ''amd'' else ''none'')"

definition hostname :: "probe \<Rightarrow> string" where
  "hostname pr = (case pr_Hostname pr of Inl _ \<Rightarrow> ''unknown'' | Inr h \<Rightarrow> h)"

definition go_div :: "int \<Rightarrow> int \<Rightarrow> int" where
  "go_div a b = (if a < 0 then - ((- a) div b) else a div b)"

definition mem_line :: "string \<Rightarrow> int" where
  "mem_line line =
     (let f = GoStd.fields line
      in if length f \<ge> 2
         then (case parse_int64 (f ! 1) of
                 None \<Rightarrow> 0
               | Some kb \<Rightarrow> go_div (int64 (kb + 1024 * 1024 - 1)) (1024 * 1024))
         else 0)"

fun mem_lines :: "string list \<Rightarrow> int" where
  "mem_lines [] = 0"
| "mem_lines (line # ls) = (if has_prefix line ''MemTotal:'' then mem_line line else mem_lines ls)"

definition ramGB :: "probe \<Rightarrow> int" where
  "ramGB pr = (case pr_meminfo pr of Inl _ \<Rightarrow> 0 | Inr b \<Rightarrow> mem_lines (split_byte (CHR 0x0A) b))"

definition Detect :: "probe \<Rightarrow> caps" where
  "Detect pr =
     \<lparr>ca_OS = pr_GOOS pr, ca_Arch = pr_GOARCH pr, ca_GPU = DetectGPU pr, ca_Hostname = hostname pr,
      ca_Cores = pr_NumCPU pr, ca_RAMGB = ramGB pr\<rparr>"

section \<open>The memory line\<close>

definition plain_char :: "char \<Rightarrow> bool" where
  "plain_char c \<longleftrightarrow> c \<notin> set (map hd unicode_spaces)"

lemma space_len_plain: "plain_char c \<Longrightarrow> space_len (c # s) = 0"
proof -
  assume c: "plain_char c"
  have "\<not> has_prefix (c # s) w" if "w \<in> set unicode_spaces" for w
    using c that unicode_spaces_pos [OF that] by (cases w) (force simp: plain_char_def has_prefix_def)+
  then have "filter (has_prefix (c # s)) unicode_spaces = []" by simp
  then show ?thesis by (simp add: space_len_def)
qed

lemma space_len_blank [simp]: "space_len (CHR '' '' # s) = 1"
proof -
  have "filter (has_prefix (CHR '' '' # s)) unicode_spaces = [[CHR '' '']]"
    by (simp add: unicode_spaces_def has_prefix_def)
  then show ?thesis by (simp add: space_len_def)
qed

lemma fields_from_word:
  "list_all plain_char u \<Longrightarrow> fields_from w (u @ s) = fields_from (w @ u) s"
  by (induction u arbitrary: w) (simp_all add: space_len_plain)

lemma fields_from_blanks: "fields_from [] (replicate n (CHR '' '') @ s) = fields_from [] s"
  by (induction n) simp_all

lemma digit_plain: "is_digit c \<Longrightarrow> plain_char c"
  by (auto simp: plain_char_def is_digit_def unicode_spaces_def)

lemma nat_digits_plain: "list_all plain_char (nat_digits n)"
  using nat_digits_all [of n] by (auto simp: list_all_iff intro: digit_plain)

lemma fields_mem_line:
  assumes "0 < n"
  shows "GoStd.fields (''MemTotal:'' @ replicate n (CHR '' '') @ nat_digits k @ '' kB'') = [''MemTotal:'', nat_digits k, ''kB'']"
proof -
  have w: "list_all plain_char ''MemTotal:''" "list_all plain_char ''kB''"
    by (simp_all add: plain_char_def unicode_spaces_def)
  obtain j where n: "n = Suc j" using assms by (cases n) auto
  have "fields_from [] (''MemTotal:'' @ replicate n (CHR '' '') @ nat_digits k @ '' kB'') =
      ''MemTotal:'' # fields_from [] (replicate j (CHR '' '') @ nat_digits k @ '' kB'')"
    unfolding n using fields_from_word [OF w(1), of "[]"] by simp
  also have "\<dots> = ''MemTotal:'' # fields_from (nat_digits k) '' kB''"
    using fields_from_word [OF nat_digits_plain, of "[]"] by (simp add: fields_from_blanks)
  also have "fields_from (nat_digits k) '' kB'' = [nat_digits k, ''kB'']"
    using fields_from_word [OF w(2), of "[]" "[]"] by simp
  finally show ?thesis by (simp add: GoStd.fields_def)
qed

text \<open>The reported memory is the size in gigabytes rounded up: on the kernel's format of the file,
  whatever lines stand before and after, the result is the least number of gigabytes that covers the
  total, so a host with less than one gigabyte reports one.\<close>

theorem ram_rounds_up:
  assumes "pr_meminfo pr = Inr (join_byte (CHR 0x0A)
      (before @ (''MemTotal:'' @ replicate n (CHR '' '') @ nat_digits kb @ '' kB'') # after))"
    and "\<forall>l\<in>set (before @ after). CHR 0x0A \<notin> set l" and "\<forall>l\<in>set before. \<not> has_prefix l ''MemTotal:''"
    and "0 < n" and "kb \<le> 2 ^ 62"
  shows "int kb \<le> ramGB pr * 2 ^ 20 \<and> (ramGB pr - 1) * 2 ^ 20 < int kb"
proof -
  let ?line = "''MemTotal:'' @ replicate n (CHR '' '') @ nat_digits kb @ '' kB''"
  have "CHR 0x0A \<notin> set (nat_digits kb)" using nat_digits_all [of kb] by (auto simp: is_digit_def)
  then have "\<forall>l\<in>set (before @ ?line # after). CHR 0x0A \<notin> set l" using assms(2) by auto
  then have "split_byte (CHR 0x0A) (join_byte (CHR 0x0A) (before @ ?line # after)) = before @ ?line # after"
    by (intro split_join) auto
  moreover have "mem_lines (before @ ?line # after) = mem_line ?line"
    using assms(3) by (induction before) (auto simp: has_prefix_def)
  ultimately have "ramGB pr = mem_line ?line" using assms(1) by (simp add: ramGB_def)
  moreover have "parse_int64 (nat_digits kb) = Some (int kb)"
    using parse_itoa [of "int kb"] assms(5) by (simp add: itoa_def is_int64_def)
  moreover have "int64 (int kb + 1024 * 1024 - 1) = int kb + 1024 * 1024 - 1"
    using assms(5) by (intro int64_id) (simp add: is_int64_def)
  ultimately have "ramGB pr = (int kb + 1048575) div 1048576"
    unfolding mem_line_def fields_mem_line [OF assms(4)] by (simp add: go_div_def)
  then show ?thesis by (simp; linarith)
qed

definition demo_meminfo :: string where
  "demo_meminfo = join_byte (CHR 0x0A) ([] @ (''MemTotal:'' @ replicate 3 (CHR '' '') @ nat_digits 9 @ '' kB'') # [[]])"

definition demo_probe :: probe where
  "demo_probe =
     \<lparr>pr_GOOS = ''linux'', pr_GOARCH = ''amd64'', pr_NumCPU = 2, pr_LookPath = (\<lambda>_. False),
      pr_nvidia = Inl [], pr_Hostname = Inr ''box'', pr_meminfo = Inr demo_meminfo\<rparr>"

theorem ram_rounds_up_witness: "9 \<le> ramGB demo_probe * 2 ^ 20 \<and> (ramGB demo_probe - 1) * 2 ^ 20 < 9"
  using ram_rounds_up [of demo_probe "[]" 3 9 "[[]]"] by (simp add: demo_probe_def demo_meminfo_def)

end
