(* ===== verification/Daemon.thy ===== *)
theory Daemon
  imports Config E2E Caps
begin

text \<open>
  The daemon's state and its start (\<^verbatim>\<open>internal/daemon/daemon.go\<close>). Objects the code shares by pointer
  live in heaps under a handle: relay channels (the goroutine that opened a channel keeps it after it
  left the channel map), connections and listeners. A connection records what was written to it; the
  \<open>send\<close> channel records the messages handed to it, in order (a sender waits while it is full, and its
  message joins the queue when the hub writer has taken one). \<open>d_file\<close> is the content of the state file.
  What the outside decides in one operation is the argument \<open>denv\<close>.

  \<open>d_panic\<close> is a panic of the process. \<open>d_blocked\<close> says that a goroutine found the one-element buffer of
  a waiting command full and waits, holding the daemon's mutex.
\<close>

section \<open>State\<close>

record chan =
  ch_id :: string
  ch_peer :: string
  ch_kind :: string
  ch_conn :: "nat option"
  ch_caps :: string
  ch_done :: "bool option"
  ch_closed :: bool

record conn =
  cn_out :: "string list"
  cn_closed :: bool

datatype target = ToPeer string string string | ToName string string string

record listener =
  ln_port :: int
  ln_open :: bool
  ln_serves :: "target option"

record daemon =
  d_Cfg :: config
  d_st :: state
  d_key :: key_pair
  d_peers :: "(string, machine_info) table"
  d_online :: bool
  d_welcomed :: bool
  d_hubURL :: string
  d_send :: "msg list"
  d_channels :: "(string, nat) table"
  d_linkLns :: "(string, nat) table"
  d_fwdLns :: "(int, nat) table"
  d_chans :: "nat \<rightharpoonup> chan"
  d_conns :: "nat \<rightharpoonup> conn"
  d_lns :: "nat \<rightharpoonup> listener"
  d_next :: nat
  d_pendingCode :: "string list option"
  d_pendingCodeErr :: "string list option"
  d_pendingPair :: "string option list option"
  d_file :: "state option"
  d_panic :: bool
  d_blocked :: bool

record denv =
  v_box :: box
  v_nonce :: "string result"
  v_rand16 :: string
  v_iter :: "(string \<times> machine_info) list \<Rightarrow> (string \<times> machine_info) list"
  v_listen :: "int \<Rightarrow> int result"
  v_dial :: "string \<Rightarrow> string \<Rightarrow> string option"
  v_save :: "string option"
  v_probe :: probe
  v_caps_json :: "caps \<Rightarrow> string"
  v_caps_parse :: "string \<Rightarrow> caps result"
  v_docker_host :: string
  v_http :: "int \<Rightarrow> string result"
  v_ports_json :: "string \<Rightarrow> int list list result"
  v_pick_err :: bool
  v_stopped :: bool

section \<open>Connections, messages, the state file\<close>

definition write_conn :: "nat \<Rightarrow> string \<Rightarrow> daemon \<Rightarrow> daemon" where
  "write_conn n b d =
     (case d_conns d n of
        None \<Rightarrow> d
      | Some cn \<Rightarrow>
          if cn_closed cn then d else d\<lparr>d_conns := (d_conns d)(n \<mapsto> cn\<lparr>cn_out := cn_out cn @ [b]\<rparr>)\<rparr>)"

definition close_conn :: "nat \<Rightarrow> daemon \<Rightarrow> daemon" where
  "close_conn n d =
     (case d_conns d n of
        None \<Rightarrow> d
      | Some cn \<Rightarrow> d\<lparr>d_conns := (d_conns d)(n \<mapsto> cn\<lparr>cn_closed := True\<rparr>)\<rparr>)"

definition new_conn :: "daemon \<Rightarrow> nat \<times> daemon" where
  "new_conn d =
     (d_next d, d\<lparr>d_conns := (d_conns d)(d_next d \<mapsto> \<lparr>cn_out = [], cn_closed = False\<rparr>), d_next := Suc (d_next d)\<rparr>)"

definition sendMsg :: "msg \<Rightarrow> daemon \<Rightarrow> daemon" where
  "sendMsg m d = d\<lparr>d_send := d_send d @ [m]\<rparr>"

definition saveState :: "denv \<Rightarrow> daemon \<Rightarrow> daemon" where
  "saveState env d = (case v_save env of None \<Rightarrow> d\<lparr>d_file := Some (d_st d)\<rparr> | Some _ \<Rightarrow> d)"

definition hex_digit :: "nat \<Rightarrow> char" where
  "hex_digit v = ''0123456789abcdef'' ! v"

definition newID :: "denv \<Rightarrow> string" where
  "newID env = concat (map (\<lambda>b. [hex_digit (byte_val b div 16), hex_digit (byte_val b mod 16)]) (v_rand16 env))"

section \<open>Start\<close>

text \<open>A file that is not there is different from one that cannot be read.\<close>

datatype file_read = NotFound | Unreadable string | Content string

definition loadConfig :: "(string \<Rightarrow> config \<Rightarrow> config result) \<Rightarrow> file_read \<Rightarrow> config result" where
  "loadConfig yaml f =
     (case f of
        NotFound \<Rightarrow> Inr default_config
      | Unreadable e \<Rightarrow> Inl e
      | Content raw \<Rightarrow>
         (case yaml raw default_config of Inl e \<Rightarrow> Inl (''config: '' @ e) | Inr c \<Rightarrow> Inr c))"

definition zero_state :: state where
  "zero_state =
     \<lparr>s_MachineID = [], s_Key = None, s_Name = [], s_ControlPort = 0, s_Active = [], s_Links = [], s_Forwards = []\<rparr>"

definition key_json :: "key_pair \<Rightarrow> key_pair_json" where
  "key_json kp = \<lparr>kj_Public = kp_PubB64 kp, kj_Private = kp_PrivB64 kp\<rparr>"

text \<open>The state with its key pair, before it is saved; \<open>rnd\<close> is the random source of the key generator.\<close>

definition loadState ::
    "denv \<Rightarrow> (string \<Rightarrow> state result) \<Rightarrow> string result \<Rightarrow> file_read \<Rightarrow> (state \<times> key_pair) result" where
  "loadState env json rnd f =
     (case (case f of Content raw \<Rightarrow> map_sum (\<lambda>e. ''state: '' @ e) id (json raw) | _ \<Rightarrow> Inr zero_state) of
        Inl e \<Rightarrow> Inl e
      | Inr st \<Rightarrow>
         (case (case s_Key st of
                  None \<Rightarrow> GenerateKeyPair (v_box env) rnd
                | Some kj \<Rightarrow> map_sum (\<lambda>e. ''state key: '' @ e) id (LoadKey (kj_Public kj) (kj_Private kj))) of
            Inl e \<Rightarrow> Inl e
          | Inr kp \<Rightarrow>
              Inr (st\<lparr>s_Key := Some (key_json kp),
                      s_MachineID := (if s_MachineID st = [] then newID env else s_MachineID st),
                      s_Name := (if s_Name st = [] then ca_Hostname (Detect (v_probe env)) else s_Name st)\<rparr>, kp)))"

definition daemon_New ::
    "denv \<Rightarrow> (string \<Rightarrow> config \<Rightarrow> config result) \<Rightarrow> (string \<Rightarrow> state result) \<Rightarrow> string result \<Rightarrow>
     string option \<Rightarrow> (string \<Rightarrow> string) \<Rightarrow> file_read \<Rightarrow> file_read \<Rightarrow> daemon result" where
  "daemon_New env yaml json rnd mkdir getenv cfg_file st_file =
     (case mkdir of
        Some e \<Rightarrow> Inl e
      | None \<Rightarrow>
         (case loadConfig yaml cfg_file of
            Inl e \<Rightarrow> Inl e
          | Inr cfg \<Rightarrow>
             (case loadState env json rnd st_file of
                Inl e \<Rightarrow> Inl e
              | Inr (st, kp) \<Rightarrow>
                 (case v_save env of
                    Some e \<Rightarrow> Inl e
                  | None \<Rightarrow>
                      Inr \<lparr>d_Cfg = cfg\<lparr>cfg_Token := (if cfg_Token cfg = [] then getenv ''BUNK_HUB_TOKEN'' else cfg_Token cfg)\<rparr>,
                           d_st = st, d_key = kp, d_peers = [], d_online = False, d_welcomed = False,
                           d_hubURL = (if cfg_Hub cfg = [] then getenv ''BUNK_HUB'' else cfg_Hub cfg),
                           d_send = [], d_channels = [], d_linkLns = [], d_fwdLns = [],
                           d_chans = Map.empty, d_conns = Map.empty, d_lns = Map.empty, d_next = 0,
                           d_pendingCode = None, d_pendingCodeErr = None, d_pendingPair = None,
                           d_file = Some st, d_panic = False, d_blocked = False\<rparr>))))"

section \<open>Peers\<close>

definition set_peers :: "machine_info list \<Rightarrow> daemon \<Rightarrow> daemon" where
  "set_peers l d = d\<lparr>d_peers := fold (\<lambda>p. AList.update (mi_ID p) p) l []\<rparr>"

definition machineListLocked :: "denv \<Rightarrow> daemon \<Rightarrow> machine_info list" where
  "machineListLocked env d = map snd (v_iter env (d_peers d))"

text \<open>\<open>peerPubKey\<close> and \<open>openFrame\<close> of \<^verbatim>\<open>relay.go\<close> only look at the peers and the key.\<close>

definition peerPubKey :: "string \<Rightarrow> daemon \<Rightarrow> string result" where
  "peerPubKey pid d =
     (case map_of (d_peers d) pid of
        None \<Rightarrow> Inl ''peer not paired (run 'bunk pair' on both machines)''
      | Some p \<Rightarrow>
          if mi_PubKey p = [] then Inl ''peer not paired (run 'bunk pair' on both machines)''
          else DecodePublicB64 (mi_PubKey p))"

definition openFrame :: "denv \<Rightarrow> string \<Rightarrow> string \<Rightarrow> daemon \<Rightarrow> string result" where
  "openFrame env fromID dataB64 d =
     (case map_of (d_peers d) fromID of
        None \<Rightarrow> Inl ''unknown peer''
      | Some p \<Rightarrow>
          if mi_PubKey p = [] then Inl ''unknown peer''
          else (case DecodePublicB64 (mi_PubKey p) of
                  Inl e \<Rightarrow> Inl e
                | Inr senderPub \<Rightarrow>
                   (case b64_decode dataB64 of
                      Inl e \<Rightarrow> Inl e
                    | Inr sealed \<Rightarrow> Open (v_box env) (d_key d) senderPub sealed)))"

end
