(* ===== verification/Relay.thy ===== *)
theory Relay
  imports Daemon
begin

text \<open>
  Relay channels (\<^verbatim>\<open>internal/daemon/relay.go\<close>): opening and closing them, the frames that arrive, the
  services a machine provides, and the pump that reads a connection and relays what it reads. A loop
  over blocking reads is the list of what the reads return.
\<close>

section \<open>Channels\<close>

definition kindFor :: "string \<Rightarrow> string" where
  "kindFor service =
     (if service = ServiceCaps then ''caps'' else if service = ServiceTCP then ''fwd'' else ''link'')"

definition chan_at :: "string \<Rightarrow> daemon \<Rightarrow> (nat \<times> chan) option" where
  "chan_at cid d =
     (case map_of (d_channels d) cid of
        None \<Rightarrow> None
      | Some h \<Rightarrow> map_option (\<lambda>c. (h, c)) (d_chans d h))"

definition put_chan :: "nat \<Rightarrow> chan \<Rightarrow> daemon \<Rightarrow> daemon" where
  "put_chan h c d = d\<lparr>d_chans := (d_chans d)(h \<mapsto> c)\<rparr>"

definition add_chan :: "chan \<Rightarrow> daemon \<Rightarrow> nat \<times> daemon" where
  "add_chan c d =
     (d_next d, d\<lparr>d_chans := (d_chans d)(d_next d \<mapsto> c),
                  d_channels := AList.update (ch_id c) (d_next d) (d_channels d), d_next := Suc (d_next d)\<rparr>)"

text \<open>Sealing and sending one frame; the second result is the error.\<close>

definition sendRelay ::
    "denv \<Rightarrow> string \<Rightarrow> string \<Rightarrow> string \<Rightarrow> string \<Rightarrow> string \<Rightarrow> string \<Rightarrow> daemon \<Rightarrow> daemon \<times> string option" where
  "sendRelay env peerID pub cid service dial payload d =
     (case Seal (v_box env) (d_key d) (v_nonce env) pub payload of
        Inl e \<Rightarrow> (d, Some e)
      | Inr sealed \<Rightarrow>
          (sendMsg (zero_msg\<lparr>m_Type := TRelay, m_To := peerID, m_Channel := cid, m_Service := service,
                             m_Dial := dial, m_Data := b64_encode sealed\<rparr>) d, None))"

definition relay_close_msg :: "string \<Rightarrow> string \<Rightarrow> msg" where
  "relay_close_msg peer cid = zero_msg\<lparr>m_Type := TRelayClose, m_To := peer, m_Channel := cid\<rparr>"

text \<open>Closing the \<open>done\<close> channel: a nil or an already closed channel panics.\<close>

definition close_done :: "nat \<Rightarrow> daemon \<Rightarrow> daemon" where
  "close_done h d =
     (case d_chans d h of
        None \<Rightarrow> d
      | Some c \<Rightarrow>
          if ch_done c = Some False then put_chan h (c\<lparr>ch_done := Some True\<rparr>) d else d\<lparr>d_panic := True\<rparr>)"

definition closeChannel :: "string \<Rightarrow> bool \<Rightarrow> daemon \<Rightarrow> daemon" where
  "closeChannel cid notifyPeer d =
     (case chan_at cid d of
        None \<Rightarrow> d
      | Some (h, c) \<Rightarrow>
          (let d1 = put_chan h (c\<lparr>ch_closed := True\<rparr>) (d\<lparr>d_channels := AList.delete cid (d_channels d)\<rparr>);
               d2 = (case ch_conn c of None \<Rightarrow> d1 | Some n \<Rightarrow> close_conn n d1);
               d3 = (if ch_kind c = ''caps'' then close_done h d2 else d2)
           in if notifyPeer then sendMsg (relay_close_msg (ch_peer c) cid) d3 else d3))"

definition openChannel ::
    "denv \<Rightarrow> string \<Rightarrow> string \<Rightarrow> string \<Rightarrow> daemon \<Rightarrow> daemon \<times> nat result" where
  "openChannel env peerID service dial d =
     (case peerPubKey peerID d of
        Inl e \<Rightarrow> (d, Inl e)
      | Inr pub \<Rightarrow>
          (let cid = newID env;
               (h, d1) = add_chan \<lparr>ch_id = cid, ch_peer = peerID, ch_kind = kindFor service, ch_conn = None,
                                   ch_caps = [], ch_done = Some False, ch_closed = False\<rparr> d
           in case sendRelay env peerID pub cid service dial [] d1 of
                (d2, Some e) \<Rightarrow> (closeChannel cid False d2, Inl e)
              | (d2, None) \<Rightarrow> (d2, Inr h)))"

section \<open>Inbound frames\<close>

definition appendCaps :: "denv \<Rightarrow> nat \<Rightarrow> chan \<Rightarrow> msg \<Rightarrow> daemon \<Rightarrow> daemon" where
  "appendCaps env h c m d =
     (case openFrame env (m_From m) (m_Data m) d of
        Inl _ \<Rightarrow> d
      | Inr payload \<Rightarrow> put_chan h (c\<lparr>ch_caps := ch_caps c @ payload\<rparr>) d)"

definition capsJSON :: "denv \<Rightarrow> string" where
  "capsJSON env = v_caps_json env (Detect (v_probe env))"

definition dialDocker :: "denv \<Rightarrow> string option" where
  "dialDocker env =
     (let host = v_docker_host env
      in if host = [] then v_dial env ''unix'' ''/var/run/docker.sock''
         else if length host > 7 \<and> take 7 host = ''unix://'' then v_dial env ''unix'' (drop 7 host)
         else if length host > 6 \<and> take 6 host = ''tcp://'' then v_dial env ''tcp'' (drop 6 host)
         else v_dial env ''tcp'' host)"

definition registerDialed :: "string \<Rightarrow> string \<Rightarrow> nat \<Rightarrow> daemon \<Rightarrow> daemon" where
  "registerDialed cid peer n d =
     snd (add_chan \<lparr>ch_id = cid, ch_peer = peer, ch_kind = ''link'', ch_conn = Some n, ch_caps = [],
                    ch_done = None, ch_closed = False\<rparr> d)"

text \<open>The result of a dial: on an error the peer is told, else the connection joins the channel.\<close>

definition serve_dialed :: "string option \<Rightarrow> msg \<Rightarrow> string \<Rightarrow> daemon \<Rightarrow> daemon" where
  "serve_dialed err m payload d =
     (case err of
        Some _ \<Rightarrow> sendMsg (relay_close_msg (m_From m) (m_Channel m)) d
      | None \<Rightarrow>
          (let (n, d1) = new_conn d; d2 = registerDialed (m_Channel m) (m_From m) n d1
           in if length payload > 0 then write_conn n payload d2 else d2))"

definition serve_caps :: "denv \<Rightarrow> msg \<Rightarrow> string \<Rightarrow> daemon \<Rightarrow> daemon" where
  "serve_caps env m pub d =
     (let d1 = snd (add_chan \<lparr>ch_id = m_Channel m, ch_peer = m_From m, ch_kind = ''caps'', ch_conn = None,
                              ch_caps = [], ch_done = Some False, ch_closed = False\<rparr> d);
          d2 = fst (sendRelay env (m_From m) pub (m_Channel m) [] [] (capsJSON env) d1);
          d3 = sendMsg (relay_close_msg (m_From m) (m_Channel m)) d2
      in closeChannel (m_Channel m) False d3)"

definition handleRelay :: "denv \<Rightarrow> msg \<Rightarrow> daemon \<Rightarrow> daemon" where
  "handleRelay env m d =
     (case chan_at (m_Channel m) d of
        Some (h, c) \<Rightarrow>
          if ch_kind c = ''caps'' then appendCaps env h c m d
          else if m_Data m = [] then d
          else (case openFrame env (m_From m) (m_Data m) d of
                  Inl _ \<Rightarrow> d
                | Inr payload \<Rightarrow>
                   (case ch_conn c of
                      Some n \<Rightarrow> write_conn n payload d
                    | None \<Rightarrow> put_chan h (c\<lparr>ch_caps := ch_caps c @ payload\<rparr>) d))
      | None \<Rightarrow>
         (case peerPubKey (m_From m) d of
            Inl _ \<Rightarrow> sendMsg (relay_close_msg (m_From m) (m_Channel m)) d
          | Inr pub \<Rightarrow>
             (case openFrame env (m_From m) (m_Data m) d of
                Inl _ \<Rightarrow> d
              | Inr payload \<Rightarrow>
                  if m_Service m = ServiceCaps then serve_caps env m pub d
                  else if m_Service m = ServiceTCP then
                    (if \<not> cfg_ServeDocker (d_Cfg d) \<and> m_Dial m = [] then d
                     else serve_dialed (v_dial env ''tcp'' (m_Dial m)) m payload d)
                  else if m_Service m = ServiceDocker then
                    (if \<not> cfg_ServeDocker (d_Cfg d)
                     then sendMsg (relay_close_msg (m_From m) (m_Channel m)) d
                     else serve_dialed (dialDocker env) m payload d)
                  else d)))"

definition handleRelayClose :: "msg \<Rightarrow> daemon \<Rightarrow> daemon" where
  "handleRelayClose m d = closeChannel (m_Channel m) False d"

section \<open>The pump\<close>

text \<open>
  Before its loop the pump looks the channel and the peer's key up. One turn of the loop gets what
  \<open>Read\<close> returned, the bytes and whether there was an error, and says whether the loop goes on.
\<close>

definition pump_start :: "string \<Rightarrow> daemon \<Rightarrow> daemon \<times> (string \<times> string) option" where
  "pump_start cid d =
     (case chan_at cid d of
        None \<Rightarrow> (d, None)
      | Some (h, c) \<Rightarrow>
         (case peerPubKey (ch_peer c) d of
            Inl _ \<Rightarrow> (closeChannel cid True d, None)
          | Inr pub \<Rightarrow> (d, Some (ch_peer c, pub))))"

definition pump_turn ::
    "denv \<Rightarrow> string \<Rightarrow> bool \<Rightarrow> string \<times> string \<Rightarrow> string \<times> bool \<Rightarrow> daemon \<Rightarrow> daemon \<times> bool" where
  "pump_turn env cid teardown = (\<lambda>(peer, pub) (data, err) d.
     (let (d1, serr) = (if data \<noteq> [] then sendRelay env peer pub cid [] [] data d else (d, None))
      in if serr \<noteq> None then (closeChannel cid True d1, False)
         else if err then (if teardown then closeChannel cid True d1 else d1, False)
         else (d1, True)))"

fun pump_loop ::
    "string \<Rightarrow> bool \<Rightarrow> string \<times> string \<Rightarrow> (denv \<times> string \<times> bool) list \<Rightarrow> daemon \<Rightarrow> daemon" where
  "pump_loop cid teardown k [] d = d"
| "pump_loop cid teardown k ((env, r) # rs) d =
     (let (d', more) = pump_turn env cid teardown k r d
      in if more then pump_loop cid teardown k rs d' else d')"

definition pumpConnToPeer ::
    "string \<Rightarrow> bool \<Rightarrow> (denv \<times> string \<times> bool) list \<Rightarrow> daemon \<Rightarrow> daemon" where
  "pumpConnToPeer cid teardown reads d =
     (case pump_start cid d of
        (d', None) \<Rightarrow> d'
      | (d', Some k) \<Rightarrow> pump_loop cid teardown k reads d')"

end
