(* ===== verification/Proxy.thy ===== *)
theory Proxy
  imports Relay
begin

text \<open>
  Links and forwards (\<^verbatim>\<open>internal/daemon/proxy.go\<close>): resolving a machine by name or id, the docker proxy of a
  linked machine, port forwards and their restoration and automatic end, and the pipe from an accepted
  connection to a relay channel. A listener records which goroutine serves it: \<open>ToPeer\<close> for one bound to
  a machine id, \<open>ToName\<close> for a restored one that resolves the name at each accept. Where the code waits
  for the hub, what the other goroutines do meanwhile is the argument \<open>during\<close>.
\<close>

section \<open>Resolving machines\<close>

definition requireOnline :: "machine_info \<Rightarrow> string option" where
  "requireOnline p = (if mi_Online p then None else Some (mi_Name p @ '' is offline''))"

definition online_result :: "machine_info \<Rightarrow> machine_info result" where
  "online_result p = (case requireOnline p of None \<Rightarrow> Inr p | Some e \<Rightarrow> Inl e)"

definition named_peers :: "denv \<Rightarrow> string \<Rightarrow> daemon \<Rightarrow> machine_info list" where
  "named_peers env name d = filter (\<lambda>p. mi_Name p = name) (map snd (v_iter env (d_peers d)))"

definition resolvePeer :: "denv \<Rightarrow> string \<Rightarrow> daemon \<Rightarrow> machine_info result" where
  "resolvePeer env nameOrID d =
     (case map_of (d_peers d) nameOrID of
        Some p \<Rightarrow> online_result p
      | None \<Rightarrow>
         (case named_peers env nameOrID d of
            [] \<Rightarrow> Inl ''unknown machine (run 'bunk machines')''
          | [p] \<Rightarrow> online_result p
          | _ \<Rightarrow> Inl ''ambiguous name, use the machine id''))"

definition resolvePeerID :: "denv \<Rightarrow> string \<Rightarrow> daemon \<Rightarrow> string option" where
  "resolvePeerID env name d =
     (case map_of (d_peers d) name of
        Some p \<Rightarrow> Some (mi_ID p)
      | None \<Rightarrow> (case named_peers env name d of [] \<Rightarrow> None | p # _ \<Rightarrow> Some (mi_ID p)))"

definition findPeerID :: "denv \<Rightarrow> string \<Rightarrow> daemon \<Rightarrow> string result" where
  "findPeerID env nameOrID d =
     (case map_of (d_peers d) nameOrID of
        Some p \<Rightarrow> Inr (mi_ID p)
      | None \<Rightarrow>
         (case named_peers env nameOrID d of
            [] \<Rightarrow> Inl ''unknown machine (run 'bunk machines')''
          | p # _ \<Rightarrow> Inr (mi_ID p)))"

section \<open>Listeners\<close>

definition listen :: "denv \<Rightarrow> int \<Rightarrow> daemon \<Rightarrow> daemon \<times> nat result" where
  "listen env port d =
     (case v_listen env port of
        Inl e \<Rightarrow> (d, Inl e)
      | Inr p \<Rightarrow>
          (d\<lparr>d_lns := (d_lns d)(d_next d \<mapsto> \<lparr>ln_port = p, ln_open = True, ln_serves = None\<rparr>), d_next := Suc (d_next d)\<rparr>,
           Inr (d_next d)))"

definition port_of :: "nat \<Rightarrow> daemon \<Rightarrow> int" where
  "port_of h d = (case d_lns d h of None \<Rightarrow> 0 | Some l \<Rightarrow> ln_port l)"

definition set_ln :: "nat \<Rightarrow> (listener \<Rightarrow> listener) \<Rightarrow> daemon \<Rightarrow> daemon" where
  "set_ln h f d = d\<lparr>d_lns := (d_lns d)(h := map_option f (d_lns d h))\<rparr>"

definition serve_ln :: "nat \<Rightarrow> target \<Rightarrow> daemon \<Rightarrow> daemon" where
  "serve_ln h t = set_ln h (\<lambda>l. l\<lparr>ln_serves := Some t\<rparr>)"

definition close_ln :: "nat \<Rightarrow> daemon \<Rightarrow> daemon" where
  "close_ln h = set_ln h (\<lambda>l. l\<lparr>ln_open := False\<rparr>)"

definition loopback :: "int \<Rightarrow> string" where
  "loopback port = ''127.0.0.1:'' @ itoa port"

section \<open>Capabilities of a peer\<close>

definition is_done :: "nat \<Rightarrow> daemon \<Rightarrow> bool" where
  "is_done h d = (case d_chans d h of None \<Rightarrow> False | Some c \<Rightarrow> ch_done c = Some True)"

definition buffer_of :: "nat \<Rightarrow> daemon \<Rightarrow> string" where
  "buffer_of h d = (case d_chans d h of None \<Rightarrow> [] | Some c \<Rightarrow> ch_caps c)"

definition waitCaps ::
    "denv \<Rightarrow> (daemon \<Rightarrow> daemon) \<Rightarrow> string \<Rightarrow> daemon \<Rightarrow> daemon \<times> caps result" where
  "waitCaps env during peerID d =
     (case openChannel env peerID ServiceCaps [] d of
        (d1, Inl e) \<Rightarrow> (d1, Inl e)
      | (d1, Inr h) \<Rightarrow>
          (let d2 = during d1
           in if is_done h d2 then (d2, v_caps_parse env (buffer_of h d2))
              else (closeChannel (newID env) True d2, Inl ''caps probe timed out'')))"

section \<open>Links\<close>

definition set_link_caps :: "string \<Rightarrow> string \<Rightarrow> int \<Rightarrow> int \<Rightarrow> daemon \<Rightarrow> daemon" where
  "set_link_caps name gpu cores ram d =
     (case map_of (s_Links (d_st d)) name of
        None \<Rightarrow> d
      | Some li \<Rightarrow>
          d\<lparr>d_st := (d_st d)\<lparr>s_Links := AList.update name
              (li\<lparr>li_GPU := gpu, li_Cores := cores, li_RAMGB := ram\<rparr>) (s_Links (d_st d))\<rparr>\<rparr>)"

definition new_link :: "string \<Rightarrow> link_info \<Rightarrow> daemon \<Rightarrow> daemon" where
  "new_link name li d = d\<lparr>d_st := (d_st d)\<lparr>s_Links := AList.update name li (s_Links (d_st d))\<rparr>\<rparr>"

definition EnsureLink ::
    "denv \<Rightarrow> (daemon \<Rightarrow> daemon) \<Rightarrow> string \<Rightarrow> daemon \<Rightarrow> daemon \<times> (int \<times> string) result" where
  "EnsureLink env during nameOrID d =
     (case resolvePeer env nameOrID d of
        Inl e \<Rightarrow> (d, Inl e)
      | Inr peer \<Rightarrow>
          (let existing = map_of (s_Links (d_st d)) (mi_Name peer);
               old_port = (case existing of None \<Rightarrow> 0 | Some li \<Rightarrow> li_Port li);
               old_cores = (case existing of None \<Rightarrow> 0 | Some li \<Rightarrow> li_Cores li)
           in if old_port > 0 \<and> old_cores > 0
              then (d, Inr (old_port, (case existing of None \<Rightarrow> [] | Some li \<Rightarrow> li_GPU li)))
              else
                (let (d1, probed) = waitCaps env during (mi_ID peer) d;
                     gpu = (case probed of Inl _ \<Rightarrow> ''none'' | Inr c \<Rightarrow> ca_GPU c);
                     cores = (case probed of Inl _ \<Rightarrow> 0 | Inr c \<Rightarrow> ca_Cores c);
                     ram = (case probed of Inl _ \<Rightarrow> 0 | Inr c \<Rightarrow> ca_RAMGB c)
                 in case listen env 0 d1 of
                      (d2, Inl e) \<Rightarrow> (d2, Inl e)
                    | (d2, Inr h) \<Rightarrow>
                        (let port = port_of h d2;
                             d3 = d2\<lparr>d_linkLns := AList.update (mi_Name peer) h (d_linkLns d2)\<rparr>
                         in if old_port > 0
                            then (close_ln h (saveState env (set_link_caps (mi_Name peer) gpu cores ram d3)),
                                  Inr (old_port, gpu))
                            else
                              (serve_ln h (ToPeer (mi_ID peer) ServiceDocker [])
                                 (saveState env (new_link (mi_Name peer)
                                    \<lparr>li_Port = port, li_GPU = gpu, li_Cores = cores, li_RAMGB = ram\<rparr> d3)),
                               Inr (port, gpu))))))"

text \<open>The refresh of a restored link: one attempt says whether the loop is over.\<close>

definition refresh_attempt ::
    "denv \<Rightarrow> (daemon \<Rightarrow> daemon) \<Rightarrow> string \<Rightarrow> daemon \<Rightarrow> daemon \<times> bool" where
  "refresh_attempt env during name d =
     (case resolvePeer env name d of
        Inl _ \<Rightarrow> (d, False)
      | Inr peer \<Rightarrow>
         (case requireOnline peer of
            Some _ \<Rightarrow> (d, False)
          | None \<Rightarrow>
             (case waitCaps env during (mi_ID peer) d of
                (d1, Inl _) \<Rightarrow> (d1, False)
              | (d1, Inr c) \<Rightarrow>
                  (saveState env (set_link_caps name (ca_GPU c) (ca_Cores c) (ca_RAMGB c) d1), True))))"

fun refresh_loop ::
    "(denv \<times> (daemon \<Rightarrow> daemon) \<times> (daemon \<Rightarrow> daemon)) list \<Rightarrow> string \<Rightarrow> daemon \<Rightarrow> daemon" where
  "refresh_loop [] name d = d"
| "refresh_loop ((env, during, sleep) # rest) name d =
     (let (d1, over) = refresh_attempt env during name d
      in if over then d1 else refresh_loop rest name (sleep d1))"

definition refreshLinkCaps ::
    "(denv \<times> (daemon \<Rightarrow> daemon) \<times> (daemon \<Rightarrow> daemon)) list \<Rightarrow> string \<Rightarrow> daemon \<Rightarrow> daemon" where
  "refreshLinkCaps attempts name d = refresh_loop (take 18 attempts) name d"

section \<open>Forwards\<close>

definition EnsureForward ::
    "denv \<Rightarrow> string \<Rightarrow> int \<Rightarrow> int \<Rightarrow> bool \<Rightarrow> daemon \<Rightarrow> daemon \<times> string option" where
  "EnsureForward env peerNameOrID local remote auto d =
     (if local \<le> 0 \<or> local > 65535 \<or> remote \<le> 0 \<or> remote > 65535 then (d, Some ''ports must be 1-65535'')
      else
        (case resolvePeer env peerNameOrID d of
           Inl e \<Rightarrow> (d, Some e)
         | Inr peer \<Rightarrow>
             if map_of (d_fwdLns d) local \<noteq> None
             then (d, Some (''port '' @ itoa local @ '' already forwarded (bunk unforward '' @ itoa local @ '')''))
             else
               (case listen env local d of
                  (d1, Inl e) \<Rightarrow> (d1, Some (''bind '' @ loopback local @ '': '' @ e))
                | (d1, Inr h) \<Rightarrow>
                    (serve_ln h (ToPeer (mi_ID peer) ServiceTCP (loopback remote))
                       (saveState env
                          (d1\<lparr>d_fwdLns := AList.update local h (d_fwdLns d1),
                              d_st := (d_st d1)\<lparr>s_Forwards := s_Forwards (d_st d1) @
                                [\<lparr>f_Local = local, f_Remote = remote, f_Machine = mi_Name peer, f_Auto = auto\<rparr>]\<rparr>\<rparr>)),
                     None))))"

definition StopForward :: "denv \<Rightarrow> int \<Rightarrow> daemon \<Rightarrow> daemon \<times> string option" where
  "StopForward env local d =
     (let d1 = saveState env
                 (d\<lparr>d_fwdLns := AList.delete local (d_fwdLns d),
                    d_st := (d_st d)\<lparr>s_Forwards := filter (\<lambda>f. f_Local f \<noteq> local) (s_Forwards (d_st d))\<rparr>\<rparr>)
      in case map_of (d_fwdLns d) local of
           None \<Rightarrow> (d1, Some (''no forward on port '' @ itoa local))
         | Some h \<Rightarrow>
             (close_ln h d1,
              if (case d_lns d h of None \<Rightarrow> False | Some l \<Rightarrow> ln_open l) then None
              else Some ''use of closed network connection''))"

section \<open>Restoring what the state file holds\<close>

definition restore_link :: "denv \<Rightarrow> string \<times> int \<Rightarrow> daemon \<Rightarrow> daemon" where
  "restore_link env = (\<lambda>(name, port) d.
     (case listen env port d of
        (d1, Inl _) \<Rightarrow> d1
      | (d1, Inr h) \<Rightarrow>
          if map_of (d_linkLns d1) name \<noteq> None then close_ln h d1
          else serve_ln h (ToName name ServiceDocker []) (d1\<lparr>d_linkLns := AList.update name h (d_linkLns d1)\<rparr>)))"

definition restore_forward :: "denv \<Rightarrow> forward_info \<Rightarrow> daemon \<Rightarrow> daemon" where
  "restore_forward env f d =
     (if f_Local f \<le> 0 then d
      else (case listen env (f_Local f) d of
              (d1, Inl _) \<Rightarrow> d1
            | (d1, Inr h) \<Rightarrow>
                if map_of (d_fwdLns d1) (f_Local f) \<noteq> None then close_ln h d1
                else serve_ln h (ToName (f_Machine f) ServiceTCP (loopback (f_Remote f)))
                       (d1\<lparr>d_fwdLns := AList.update (f_Local f) h (d_fwdLns d1)\<rparr>)))"

text \<open>
  \<open>ord\<close> is the order in which the code ranges over the map it made of the links with a port.
  \<open>needs_refresh\<close> lists the links whose capabilities a new goroutine then refreshes.
\<close>

definition restoreListeners ::
    "denv \<Rightarrow> ((string \<times> int) list \<Rightarrow> (string \<times> int) list) \<Rightarrow> daemon \<Rightarrow> daemon" where
  "restoreListeners env ord d =
     (let links = ord (map (\<lambda>(n, li). (n, li_Port li)) (filter (\<lambda>(n, li). li_Port li > 0) (s_Links (d_st d))));
          forwards = s_Forwards (d_st d)
      in fold (restore_forward env) forwards (fold (restore_link env) links d))"

definition needs_refresh :: "daemon \<Rightarrow> daemon \<Rightarrow> string list" where
  "needs_refresh d d' =
     map fst (filter (\<lambda>(n, li). li_Port li > 0 \<and> (li_Cores li = 0 \<or> li_RAMGB li = 0) \<and>
                        map_of (d_linkLns d) n = None \<and> map_of (d_linkLns d') n \<noteq> None) (s_Links (d_st d)))"

section \<open>Accepted connections\<close>

text \<open>
  \<open>pipeLocal\<close> up to the start of its pump. Between the opening frame and the attachment of the
  connection, and between the attachment and the flush of what the peer sent before, other goroutines
  may run: \<open>during\<close> and \<open>during'\<close>.
\<close>

definition attach :: "nat \<Rightarrow> nat \<Rightarrow> daemon \<Rightarrow> daemon" where
  "attach h n d = (case d_chans d h of None \<Rightarrow> d | Some c \<Rightarrow> put_chan h (c\<lparr>ch_conn := Some n\<rparr>) d)"

definition flush_early :: "nat \<Rightarrow> nat \<Rightarrow> daemon \<Rightarrow> daemon" where
  "flush_early h n d =
     (case d_chans d h of
        None \<Rightarrow> d
      | Some c \<Rightarrow>
          if ch_kind c = ''link'' \<and> length (ch_caps c) > 0
          then put_chan h (c\<lparr>ch_caps := []\<rparr>) (write_conn n (ch_caps c) d) else d)"

definition pipeLocal ::
    "denv \<Rightarrow> (daemon \<Rightarrow> daemon) \<Rightarrow> (daemon \<Rightarrow> daemon) \<Rightarrow> nat \<Rightarrow> string \<Rightarrow> string \<Rightarrow> string \<Rightarrow> daemon \<Rightarrow> daemon" where
  "pipeLocal env during during' n peerID service dial d =
     (case openChannel env peerID service dial d of
        (d1, Inl _) \<Rightarrow> close_conn n d1
      | (d1, Inr h) \<Rightarrow> flush_early h n (during' (attach h n (during d1))))"

text \<open>
  One accepted connection of a listener. A restored listener resolves the name, up to twenty more
  times with half a second in between (\<open>sleeps\<close>).
\<close>

fun resolve_retry :: "denv \<Rightarrow> (daemon \<Rightarrow> daemon) list \<Rightarrow> string \<Rightarrow> daemon \<Rightarrow> daemon \<times> string option" where
  "resolve_retry env [] name d = (d, resolvePeerID env name d)"
| "resolve_retry env (sleep # sleeps) name d =
     (case resolvePeerID env name d of
        Some pid \<Rightarrow> (d, Some pid)
      | None \<Rightarrow> resolve_retry env sleeps name (sleep d))"

definition accept_conn ::
    "denv \<Rightarrow> (daemon \<Rightarrow> daemon) list \<Rightarrow> (daemon \<Rightarrow> daemon) \<Rightarrow> (daemon \<Rightarrow> daemon) \<Rightarrow> nat \<Rightarrow> daemon \<Rightarrow> daemon" where
  "accept_conn env sleeps during during' h d =
     (case d_lns d h of
        None \<Rightarrow> d
      | Some l \<Rightarrow>
          if \<not> ln_open l then d
          else (case ln_serves l of
                  None \<Rightarrow> d
                | Some (ToPeer pid service dial) \<Rightarrow>
                    (let (n, d1) = new_conn d in pipeLocal env during during' n pid service dial d1)
                | Some (ToName name service dial) \<Rightarrow>
                    (let (n, d1) = new_conn d
                     in case resolve_retry env (take 20 sleeps) name d1 of
                          (d2, None) \<Rightarrow> close_conn n d2
                        | (d2, Some pid) \<Rightarrow> pipeLocal env during during' n pid service dial d2)))"

section \<open>Forwards that end with their container\<close>

definition parsePublicPorts :: "denv \<Rightarrow> string \<Rightarrow> int list result" where
  "parsePublicPorts env data =
     (case v_ports_json env data of
        Inl e \<Rightarrow> Inl e
      | Inr containers \<Rightarrow> Inr (filter (\<lambda>p. p > 0) (concat containers)))"

definition containerPublicPorts :: "denv \<Rightarrow> string \<Rightarrow> daemon \<Rightarrow> int list result" where
  "containerPublicPorts env machine d =
     (case map_of (s_Links (d_st d)) machine of
        None \<Rightarrow> Inl ''no link''
      | Some lnk \<Rightarrow>
          if li_Port lnk = 0 then Inl ''no link''
          else (case v_http env (li_Port lnk) of Inl e \<Rightarrow> Inl e | Inr data \<Rightarrow> parsePublicPorts env data))"

definition watch_machine :: "denv \<Rightarrow> forward_info list \<Rightarrow> string \<Rightarrow> daemon \<Rightarrow> daemon" where
  "watch_machine env autos machine d =
     (case containerPublicPorts env machine d of
        Inl _ \<Rightarrow> d
      | Inr live \<Rightarrow>
          fold (\<lambda>f d. if f_Remote f \<in> set live then d else fst (StopForward env (f_Local f) d))
            (filter (\<lambda>f. f_Machine f = machine) autos) d)"

text \<open>One tick; \<open>ord\<close> is the order of the range over the map from machines to their forwards.\<close>

definition watch_tick :: "denv \<Rightarrow> (string list \<Rightarrow> string list) \<Rightarrow> daemon \<Rightarrow> daemon" where
  "watch_tick env ord d =
     (let autos = filter f_Auto (s_Forwards (d_st d))
      in fold (watch_machine env autos) (ord (remdups (map f_Machine autos))) d)"

end
