(* ===== verification/Control.thy ===== *)
theory Control
  imports Proxy
begin

text \<open>
  The messages of the hub (\<open>handleHubMsg\<close> of \<^verbatim>\<open>internal/daemon/daemon.go\<close>) and the commands of the CLI
  (\<^verbatim>\<open>internal/daemon/control.go\<close>). A pairing command waits for the hub's answer on a channel with a
  buffer of one: \<open>d_pendingCode\<close>, \<open>d_pendingCodeErr\<close> and \<open>d_pendingPair\<close> are these buffers, \<open>None\<close> when
  nobody waits. When an answer and an error are both there, \<open>v_pick_err\<close> says which one \<open>select\<close> takes.
\<close>

section \<open>Messages of the hub\<close>

definition deliver_code :: "string \<Rightarrow> daemon \<Rightarrow> daemon" where
  "deliver_code code d =
     (case d_pendingCode d of
        None \<Rightarrow> d
      | Some [] \<Rightarrow> d\<lparr>d_pendingCode := Some [code]\<rparr>
      | Some _ \<Rightarrow> d\<lparr>d_blocked := True\<rparr>)"

definition deliver_code_err :: "string \<Rightarrow> daemon \<Rightarrow> daemon" where
  "deliver_code_err e d =
     (if d_pendingCode d = None then d
      else (case d_pendingCodeErr d of
              Some [] \<Rightarrow> d\<lparr>d_pendingCodeErr := Some [e]\<rparr>
            | _ \<Rightarrow> d\<lparr>d_blocked := True\<rparr>))"

definition deliver_pair :: "string option \<Rightarrow> daemon \<Rightarrow> daemon" where
  "deliver_pair r d =
     (case d_pendingPair d of
        None \<Rightarrow> d
      | Some [] \<Rightarrow> d\<lparr>d_pendingPair := Some [r]\<rparr>
      | Some _ \<Rightarrow> d\<lparr>d_blocked := True\<rparr>)"

definition handleHubMsgExtras :: "msg \<Rightarrow> daemon \<Rightarrow> daemon" where
  "handleHubMsgExtras m d =
     (if m_Type m = TCodeCreated then deliver_code (m_Code m) d
      else if m_Type m = TPaired then deliver_pair None d
      else if m_Type m = TError then deliver_pair (Some (m_Message m)) (deliver_code_err (m_Message m) d)
      else d)"

definition handleHubMsg :: "denv \<Rightarrow> msg \<Rightarrow> daemon \<Rightarrow> daemon" where
  "handleHubMsg env m d =
     (if m_Type m = TPaired \<and> m_Peer m = None then d\<lparr>d_panic := True\<rparr>
      else handleHubMsgExtras m
        (if m_Type m = TMachineUpdate then set_peers (m_Machines m) d
         else if m_Type m = TWelcome then d\<lparr>d_online := True, d_welcomed := True\<rparr>
         else if m_Type m = TError then (if m_Channel m \<noteq> [] then closeChannel (m_Channel m) False d else d)
         else if m_Type m = TRelay then handleRelay env m d
         else if m_Type m = TRelayClose then handleRelayClose m d
         else d))"

section \<open>Waiting for the hub\<close>

definition timed_out :: string where
  "timed_out = ''timed out waiting for hub (is the hub reachable and the daemon connected?)''"

definition awaitCode :: "denv \<Rightarrow> (daemon \<Rightarrow> daemon) \<Rightarrow> daemon \<Rightarrow> daemon \<times> string result" where
  "awaitCode env during d =
     (let d1 = during (d\<lparr>d_pendingCode := Some [], d_pendingCodeErr := Some []\<rparr>);
          code = (case d_pendingCode d1 of Some (c # _) \<Rightarrow> Some c | _ \<Rightarrow> None);
          err = (case d_pendingCodeErr d1 of Some (e # _) \<Rightarrow> Some e | _ \<Rightarrow> None)
      in (d1\<lparr>d_pendingCode := None, d_pendingCodeErr := None\<rparr>,
          case code of
            Some c \<Rightarrow> (case err of Some e \<Rightarrow> if v_pick_err env then Inl (''hub: '' @ e) else Inr c | None \<Rightarrow> Inr c)
          | None \<Rightarrow>
             (case err of
                Some e \<Rightarrow> Inl (''hub: '' @ e)
              | None \<Rightarrow> if v_stopped env then Inl ''daemon stopped'' else Inl timed_out)))"

definition awaitPaired :: "denv \<Rightarrow> (daemon \<Rightarrow> daemon) \<Rightarrow> daemon \<Rightarrow> daemon \<times> string option" where
  "awaitPaired env during d =
     (let d1 = during (d\<lparr>d_pendingPair := Some []\<rparr>)
      in (d1\<lparr>d_pendingPair := None\<rparr>,
          case d_pendingPair d1 of
            Some (r # _) \<Rightarrow> r
          | _ \<Rightarrow> if v_stopped env then Some ''daemon stopped'' else Some timed_out))"

section \<open>Commands\<close>

definition ctl_error :: "string \<Rightarrow> ctl_resp" where
  "ctl_error e = zero_ctl_resp\<lparr>r_Error := e\<rparr>"

definition ctlStatus :: "denv \<Rightarrow> daemon \<Rightarrow> ctl_resp" where
  "ctlStatus env d =
     zero_ctl_resp\<lparr>r_OK := True, r_MachineID := s_MachineID (d_st d), r_Name := s_Name (d_st d),
       r_Active := s_Active (d_st d), r_GPU := ca_GPU (Detect (v_probe env)), r_Machines := machineListLocked env d\<rparr>"

definition ctlMachines :: "denv \<Rightarrow> daemon \<Rightarrow> ctl_resp" where
  "ctlMachines env d = zero_ctl_resp\<lparr>r_OK := True, r_Machines := machineListLocked env d\<rparr>"

definition hello_of :: "daemon \<Rightarrow> msg" where
  "hello_of d =
     zero_msg\<lparr>m_Type := THello, m_MachineID := s_MachineID (d_st d), m_Name := s_Name (d_st d),
       m_PubKey := kp_PubB64 (d_key d), m_Token := cfg_Token (d_Cfg d)\<rparr>"

definition ctl_rename :: "denv \<Rightarrow> string \<Rightarrow> daemon \<Rightarrow> daemon" where
  "ctl_rename env name d =
     (if name \<noteq> []
      then (let d' = saveState env (d\<lparr>d_st := (d_st d)\<lparr>s_Name := name\<rparr>\<rparr>) in sendMsg (hello_of d') d')
      else d)"

definition ctlPair :: "denv \<Rightarrow> (daemon \<Rightarrow> daemon) \<Rightarrow> ctl_req \<Rightarrow> daemon \<Rightarrow> daemon \<times> ctl_resp" where
  "ctlPair env during req d =
     (let d1 = ctl_rename env (q_Name req) d
      in if q_Code req = [] then
           (case awaitCode env during (sendMsg (zero_msg\<lparr>m_Type := TCreateCode\<rparr>) d1) of
              (d2, Inl e) \<Rightarrow> (d2, ctl_error e)
            | (d2, Inr code) \<Rightarrow> (d2, zero_ctl_resp\<lparr>r_OK := True, r_Code := code, r_Name := s_Name (d_st d2)\<rparr>))
         else
           (case awaitPaired env during
                   (sendMsg (zero_msg\<lparr>m_Type := TPair, m_Code := q_Code req, m_MachineID := s_MachineID (d_st d1),
                                      m_Name := s_Name (d_st d1), m_PubKey := kp_PubB64 (d_key d1)\<rparr>) d1) of
              (d2, Some e) \<Rightarrow> (d2, ctl_error e)
            | (d2, None) \<Rightarrow> (d2, zero_ctl_resp\<lparr>r_OK := True, r_Name := s_Name (d_st d2)\<rparr>)))"

definition ctlRevoke :: "denv \<Rightarrow> ctl_req \<Rightarrow> daemon \<Rightarrow> daemon \<times> ctl_resp" where
  "ctlRevoke env req d =
     (case findPeerID env (q_Name req) d of
        Inl e \<Rightarrow> (d, ctl_error e)
      | Inr pid \<Rightarrow>
          (sendMsg (zero_msg\<lparr>m_Type := TRevoke, m_Target := pid\<rparr>) d, zero_ctl_resp\<lparr>r_OK := True\<rparr>))"

definition set_active :: "string \<Rightarrow> daemon \<Rightarrow> daemon" where
  "set_active name d = d\<lparr>d_st := (d_st d)\<lparr>s_Active := name\<rparr>\<rparr>"

definition ctlUse :: "denv \<Rightarrow> (daemon \<Rightarrow> daemon) \<Rightarrow> ctl_req \<Rightarrow> daemon \<Rightarrow> daemon \<times> ctl_resp" where
  "ctlUse env during req d =
     (if q_Name req = [] then (d, ctl_error ''usage: bunk use <machine>'')
      else
        (case EnsureLink env during (q_Name req) d of
           (d1, Inl e) \<Rightarrow> (d1, ctl_error e)
         | (d1, Inr (port, gpu)) \<Rightarrow>
             (saveState env (set_active (q_Name req) d1),
              zero_ctl_resp\<lparr>r_OK := True, r_Port := port, r_GPU := gpu, r_Active := q_Name req\<rparr>)))"

definition ctlUnuse :: "denv \<Rightarrow> daemon \<Rightarrow> daemon \<times> ctl_resp" where
  "ctlUnuse env d = (saveState env (set_active [] d), zero_ctl_resp\<lparr>r_OK := True\<rparr>)"

definition ctlForward :: "denv \<Rightarrow> ctl_req \<Rightarrow> daemon \<Rightarrow> daemon \<times> ctl_resp" where
  "ctlForward env req d =
     (let peer = (if q_Name req \<noteq> [] then q_Name req else s_Active (d_st d));
          remote = (if q_Remote req = 0 then q_Local req else q_Remote req)
      in if peer = [] then (d, ctl_error ''no machine selected (bunk use <machine>) or pass --machine'')
         else (case EnsureForward env peer (q_Local req) remote (q_Auto req) d of
                 (d1, Some e) \<Rightarrow> (d1, ctl_error e)
               | (d1, None) \<Rightarrow> (d1, zero_ctl_resp\<lparr>r_OK := True, r_Port := q_Local req\<rparr>)))"

definition ctlUnforward :: "denv \<Rightarrow> ctl_req \<Rightarrow> daemon \<Rightarrow> daemon \<times> ctl_resp" where
  "ctlUnforward env req d =
     (case StopForward env (q_Local req) d of
        (d1, Some e) \<Rightarrow> (d1, ctl_error e)
      | (d1, None) \<Rightarrow> (d1, zero_ctl_resp\<lparr>r_OK := True\<rparr>))"

definition ctlForwards :: "daemon \<Rightarrow> ctl_resp" where
  "ctlForwards d = zero_ctl_resp\<lparr>r_OK := True, r_Forwards := s_Forwards (d_st d)\<rparr>"

definition execControl :: "denv \<Rightarrow> (daemon \<Rightarrow> daemon) \<Rightarrow> ctl_req \<Rightarrow> daemon \<Rightarrow> daemon \<times> ctl_resp" where
  "execControl env during req d =
     (if q_Cmd req = CtlStatus then (d, ctlStatus env d)
      else if q_Cmd req = CtlPair then ctlPair env during req d
      else if q_Cmd req = CtlMachines then (d, ctlMachines env d)
      else if q_Cmd req = CtlRevoke then ctlRevoke env req d
      else if q_Cmd req = CtlUse then ctlUse env during req d
      else if q_Cmd req = CtlUnuse then ctlUnuse env d
      else if q_Cmd req = CtlForward then ctlForward env req d
      else if q_Cmd req = CtlUnforward then ctlUnforward env req d
      else if q_Cmd req = CtlForwards then (d, ctlForwards d)
      else (d, ctl_error (''unknown command '' @ q_Cmd req)))"

text \<open>The requests of one control connection; \<open>None\<close> is a line that is not a request.\<close>

fun handleControlConn ::
    "(denv \<times> (daemon \<Rightarrow> daemon) \<times> ctl_req option) list \<Rightarrow> daemon \<Rightarrow> daemon \<times> ctl_resp list" where
  "handleControlConn [] d = (d, [])"
| "handleControlConn ((env, during, line) # lines) d =
     (let (d1, resp) = (case line of None \<Rightarrow> (d, ctl_error ''bad request'') | Some req \<Rightarrow> execControl env during req d);
          (d2, resps) = handleControlConn lines d1
      in (d2, resp # resps))"

end
