(* ===== verification/Connect.thy ===== *)
theory Connect
  imports Control
begin

text \<open>
  The daemon's connection to the hub (\<^verbatim>\<open>internal/daemon/daemon.go\<close>): the address that is dialled, one
  connection with its hello, its reader and the read deadlines, and the loop that reconnects with
  backoff. Times are in seconds. What one connection meets is the record \<open>session\<close>; a parsed URL is its
  scheme, its path and the rest. The writer of a connection takes messages off the \<open>send\<close> channel.
\<close>

record url =
  u_Scheme :: string
  u_Path :: string
  u_Rest :: string

definition ws_url :: "url \<Rightarrow> url" where
  "ws_url u =
     (let u1 = u\<lparr>u_Scheme := (if u_Scheme u = ''http'' then ''ws'' else if u_Scheme u = ''https'' then ''wss''
                              else u_Scheme u)\<rparr>
      in if \<not> has_suffix (u_Path u1) ''/ws''
         then u1\<lparr>u_Path := trim_suffix (u_Path u1) ''/'' @ ''/ws''\<rparr> else u1)"

definition welcomeTimeout :: nat where "welcomeTimeout = 15"

text \<open>The reader: the frames that arrive until the connection breaks, and the deadline set before each read.\<close>

definition read_deadline :: "daemon \<Rightarrow> nat" where
  "read_deadline d = (if d_welcomed d then 90 else welcomeTimeout)"

fun hubReader :: "(denv \<times> msg option) list \<Rightarrow> daemon \<Rightarrow> daemon \<times> nat list" where
  "hubReader [] d = (d, [read_deadline d])"
| "hubReader ((env, raw) # frames) d =
     (let (d', ts) = hubReader frames (case raw of None \<Rightarrow> d | Some m \<Rightarrow> handleHubMsg env m d)
      in (d', read_deadline d # ts))"

text \<open>The writer takes the oldest message; the result is what it wrote, and whether the write failed.\<close>

definition hub_write :: "bool \<Rightarrow> daemon \<Rightarrow> daemon \<times> msg option" where
  "hub_write ok d =
     (case d_send d of [] \<Rightarrow> (d, None) | m # ms \<Rightarrow> (d\<lparr>d_send := ms\<rparr>, if ok then Some m else None))"

record session =
  se_url :: "url result"
  se_dial :: "url \<Rightarrow> string option"
  se_hello :: "string option"
  se_deadline :: "string option"
  se_frames :: "(denv \<times> msg option) list"
  se_end :: string

text \<open>
  One connection: the new state, what was written first (the hello, past the \<open>send\<close> channel), whether
  the hub welcomed us, and the error it ended with.
\<close>

definition connectOnce :: "session \<Rightarrow> daemon \<Rightarrow> daemon \<times> msg option \<times> bool \<times> string" where
  "connectOnce se d =
     (case se_url se of
        Inl e \<Rightarrow> (d, None, False, e)
      | Inr u \<Rightarrow>
         (case se_dial se (ws_url u) of
            Some e \<Rightarrow> (d, None, False, e)
          | None \<Rightarrow>
             (let d1 = d\<lparr>d_online := False, d_welcomed := False\<rparr>
              in case se_hello se of
                   Some e \<Rightarrow> (d1, None, False, e)
                 | None \<Rightarrow>
                    (case se_deadline se of
                       Some e \<Rightarrow> (d1, Some (hello_of d1), False, e)
                     | None \<Rightarrow>
                        (let d2 = fst (hubReader (se_frames se) d1)
                         in (d2, Some (hello_of d1), d_welcomed d2, se_end se))))))"

definition next_backoff :: "bool \<Rightarrow> nat \<Rightarrow> nat" where
  "next_backoff welcomed b = (if welcomed then 1 else if b < 30 then b * 2 else b)"

text \<open>
  The loop for as many turns as there are sessions (a turn without a hub address makes none of it): the
  second result is how long it waited after each turn.
\<close>

fun connect_turns :: "session list \<Rightarrow> nat \<Rightarrow> daemon \<Rightarrow> daemon \<times> nat list" where
  "connect_turns [] b d = (d, [])"
| "connect_turns (se # ses) b d =
     (if d_hubURL d = [] then (let (d', ws) = connect_turns ses b d in (d', 5 # ws))
      else
        (let (d1, hello, welcomed, err) = connectOnce se d; b' = next_backoff welcomed b;
             (d2, ws) = connect_turns ses b' d1
         in (d2, b' # ws)))"

definition connectLoop :: "session list \<Rightarrow> daemon \<Rightarrow> daemon \<times> nat list" where
  "connectLoop ses d = connect_turns ses 1 d"

section \<open>The address\<close>

text \<open>The address that is dialled: whatever is configured, the path ends with the hub's endpoint, an
  http address becomes the websocket address of the same security, and an address that was already
  rewritten is left alone.\<close>

theorem ws_url_normal:
  "has_suffix (u_Path (ws_url u)) ''/ws'' \<and> ws_url (ws_url u) = ws_url u \<and>
   u_Rest (ws_url u) = u_Rest u \<and> u_Scheme (ws_url u) \<notin> {''http'', ''https''}"
proof -
  have "has_suffix (x @ ''/ws'') ''/ws''" for x by (rule has_suffix_append)
  then show ?thesis by (auto simp: ws_url_def Let_def)
qed

section \<open>Running the daemon\<close>

text \<open>
  \<open>Run\<close> up to the start of its loops: the control port is taken and saved, the listeners of the state
  file are restored. The loops are the control connections, the watcher, the idle gate and the hub
  connection; stopping the daemon ends the process.
\<close>

definition daemon_Run ::
    "denv \<Rightarrow> ((string \<times> int) list \<Rightarrow> (string \<times> int) list) \<Rightarrow> daemon \<Rightarrow> daemon result" where
  "daemon_Run env ord d =
     (case v_listen env 0 of
        Inl e \<Rightarrow> Inl e
      | Inr port \<Rightarrow>
          Inr (restoreListeners env ord (saveState env (d\<lparr>d_st := (d_st d)\<lparr>s_ControlPort := port\<rparr>\<rparr>))))"

end
