(* ===== verification/DaemonInv.thy ===== *)
theory DaemonInv
  imports Connect
begin

text \<open>
  The invariant of the daemon and its preservation by every operation. Channels, connections and
  listeners are below the next free handle; the channel map has unique keys and handles, every channel
  in it is open and carries its id, and a capability channel in it still has its \<open>done\<close> channel to close;
  every forward's listener is open, served and listed in the state; peers are keyed by their id.

  An operation that waits lets other goroutines run, so preservation is stated for any \<open>during\<close> that
  keeps the invariant and only adds to the heaps (\<open>fair\<close>).
\<close>

definition grows :: "daemon \<Rightarrow> daemon \<Rightarrow> bool" where
  "grows d d' \<longleftrightarrow>
     d_next d \<le> d_next d' \<and>
     (\<forall>h c. d_chans d h = Some c \<longrightarrow> (\<exists>c'. d_chans d' h = Some c' \<and> ch_id c' = ch_id c \<and> ch_kind c' = ch_kind c \<and>
        ch_peer c' = ch_peer c)) \<and>
     (\<forall>n. d_conns d n \<noteq> None \<longrightarrow> d_conns d' n \<noteq> None) \<and>
     (\<forall>h. d_lns d h \<noteq> None \<longrightarrow> d_lns d' h \<noteq> None)"

definition heaps_ok :: "daemon \<Rightarrow> bool" where
  "heaps_ok d \<longleftrightarrow> (\<forall>h\<ge>d_next d. d_chans d h = None \<and> d_conns d h = None \<and> d_lns d h = None)"

definition chan_ok :: "daemon \<Rightarrow> string \<Rightarrow> nat \<Rightarrow> bool" where
  "chan_ok d cid h \<longleftrightarrow>
     (\<exists>c. d_chans d h = Some c \<and> ch_id c = cid \<and> \<not> ch_closed c \<and> (ch_kind c = ''caps'' \<longrightarrow> ch_done c = Some False) \<and>
        (\<forall>n. ch_conn c = Some n \<longrightarrow> d_conns d n \<noteq> None))"

definition chans_ok :: "daemon \<Rightarrow> bool" where
  "chans_ok d \<longleftrightarrow> wf_table (d_channels d) \<and> distinct (map snd (d_channels d)) \<and>
     (\<forall>(cid, h)\<in>set (d_channels d). chan_ok d cid h)"

definition peers_ok :: "daemon \<Rightarrow> bool" where
  "peers_ok d \<longleftrightarrow> wf_table (d_peers d) \<and> (\<forall>(k, p)\<in>set (d_peers d). mi_ID p = k)"

definition fwd_ok :: "daemon \<Rightarrow> int \<Rightarrow> nat \<Rightarrow> bool" where
  "fwd_ok d port h \<longleftrightarrow> port \<in> f_Local ` set (s_Forwards (d_st d)) \<and>
     (\<exists>l. d_lns d h = Some l \<and> ln_open l \<and> ln_serves l \<noteq> None)"

definition lns_ok :: "daemon \<Rightarrow> bool" where
  "lns_ok d \<longleftrightarrow> wf_table (d_linkLns d) \<and> wf_table (d_fwdLns d) \<and> distinct (map snd (d_fwdLns d)) \<and>
     (\<forall>(port, h)\<in>set (d_fwdLns d). fwd_ok d port h)"

definition daemon_inv :: "daemon \<Rightarrow> bool" where
  "daemon_inv d \<longleftrightarrow> heaps_ok d \<and> chans_ok d \<and> peers_ok d \<and> lns_ok d \<and> wf_table (s_Links (d_st d)) \<and> \<not> d_panic d"

lemmas daemon_inv_defs = daemon_inv_def heaps_ok_def chans_ok_def peers_ok_def lns_ok_def

lemma grows_refl [simp]: "grows d d"
  by (simp add: grows_def)

lemma grows_trans: "grows d d' \<Longrightarrow> grows d' d'' \<Longrightarrow> grows d d''"
  unfolding grows_def
proof (intro conjI allI impI, goal_cases)
  case (2 h c)
  then obtain c' where "d_chans d' h = Some c'" "ch_id c' = ch_id c" "ch_kind c' = ch_kind c" "ch_peer c' = ch_peer c"
    by blast
  moreover from this(1) 2 obtain c'' where "d_chans d'' h = Some c''" "ch_id c'' = ch_id c'"
    "ch_kind c'' = ch_kind c'" "ch_peer c'' = ch_peer c'" by blast
  ultimately show ?case by simp
qed (simp, blast, blast)

definition fair :: "(daemon \<Rightarrow> daemon) \<Rightarrow> bool" where
  "fair f \<longleftrightarrow> (\<forall>d. daemon_inv d \<longrightarrow> daemon_inv (f d) \<and> grows d (f d))"

lemma fairD: "fair f \<Longrightarrow> daemon_inv d \<Longrightarrow> daemon_inv (f d)" "fair f \<Longrightarrow> daemon_inv d \<Longrightarrow> grows d (f d)"
  by (simp_all add: fair_def)

lemma fair_id [simp]: "fair (\<lambda>d. d)"
  by (simp add: fair_def)

lemma fair_comp: "fair f \<Longrightarrow> fair g \<Longrightarrow> fair (\<lambda>d. g (f d))"
  unfolding fair_def by (metis grows_trans)

lemma fair_fold: "(\<And>x. x \<in> set xs \<Longrightarrow> fair (f x)) \<Longrightarrow> fair (fold f xs)"
proof (induction xs)
  case Nil
  then show ?case by (simp add: fair_def)
next
  case (Cons x xs)
  then have "fair (f x)" "fair (fold f xs)" by simp_all
  from fair_comp [OF this] show ?case by (simp add: comp_def)
qed

text \<open>An operation that touches neither heaps nor tables of the invariant.\<close>

definition same_core :: "daemon \<Rightarrow> daemon \<Rightarrow> bool" where
  "same_core d d' \<longleftrightarrow>
     d_chans d' = d_chans d \<and> d_conns d' = d_conns d \<and> d_lns d' = d_lns d \<and> d_next d' = d_next d \<and>
     d_channels d' = d_channels d \<and> d_linkLns d' = d_linkLns d \<and> d_fwdLns d' = d_fwdLns d \<and>
     d_peers d' = d_peers d \<and> s_Forwards (d_st d') = s_Forwards (d_st d) \<and>
     (wf_table (s_Links (d_st d)) \<longrightarrow> wf_table (s_Links (d_st d'))) \<and> d_panic d' = d_panic d"

lemma same_core_inv:
  assumes "same_core d d'" and "daemon_inv d"
  shows "daemon_inv d' \<and> grows d d'"
proof -
  have c: "chan_ok d' = chan_ok d" "fwd_ok d' = fwd_ok d"
    using assms(1) by (simp_all add: same_core_def chan_ok_def fwd_ok_def fun_eq_iff)
  have "heaps_ok d' = heaps_ok d" "chans_ok d' = chans_ok d" "peers_ok d' = peers_ok d" "lns_ok d' = lns_ok d"
    unfolding heaps_ok_def chans_ok_def peers_ok_def lns_ok_def c using assms(1) by (simp_all add: same_core_def)
  moreover have "wf_table (s_Links (d_st d'))" "\<not> d_panic d'"
    using assms by (simp_all add: same_core_def daemon_inv_def)
  moreover have "grows d d'" using assms(1) by (simp add: same_core_def grows_def)
  ultimately show ?thesis using assms(2) by (simp add: daemon_inv_def)
qed

lemma same_core_trans: "same_core d d' \<Longrightarrow> same_core d' d'' \<Longrightarrow> same_core d d''"
  by (simp add: same_core_def)

lemma same_core_refl [simp]: "same_core d d"
  by (simp add: same_core_def)

lemma fair_core: "(\<And>d. same_core d (f d)) \<Longrightarrow> fair f"
  using same_core_inv by (auto simp: fair_def)

lemma core_sendMsg: "same_core d (sendMsg m d)"
  by (simp add: same_core_def sendMsg_def)

lemma core_saveState: "same_core d (saveState env d)"
  by (simp add: same_core_def saveState_def split: option.split)

lemma core_set_active: "same_core d (set_active n d)"
  by (simp add: same_core_def set_active_def)

lemma core_set_link_caps: "same_core d (set_link_caps n g c r d)"
  by (simp add: same_core_def set_link_caps_def split: option.split)

lemma core_new_link: "same_core d (new_link n li d)"
  by (simp add: same_core_def new_link_def)

lemma core_sendRelay: "same_core d (fst (sendRelay env p pub cid s dl b d))"
  by (simp add: sendRelay_def core_sendMsg split: sum.split)

lemma core_deliver: "same_core d (handleHubMsgExtras m d)"
  by (auto simp: same_core_def handleHubMsgExtras_def deliver_code_def deliver_code_err_def deliver_pair_def
      split: option.splits list.splits)

lemmas core_rules = core_sendMsg core_saveState core_set_active core_set_link_caps core_new_link core_sendRelay core_deliver

lemmas fair_cores = core_rules [THEN fair_core]

section \<open>Connections\<close>

lemma inv_conns:
  assumes "daemon_inv d" and "\<And>n. d_conns d n \<noteq> None \<Longrightarrow> C n \<noteq> None" and "d_next d \<le> k" and "\<forall>n\<ge>k. C n = None"
  shows "daemon_inv (d\<lparr>d_conns := C, d_next := k\<rparr>) \<and> grows d (d\<lparr>d_conns := C, d_next := k\<rparr>)"
proof -
  let ?d = "d\<lparr>d_conns := C, d_next := k\<rparr>"
  have "chan_ok ?d cid h" if "chan_ok d cid h" for cid h
  proof -
    from that obtain c where "d_chans d h = Some c" "ch_id c = cid" "\<not> ch_closed c"
      "ch_kind c = ''caps'' \<longrightarrow> ch_done c = Some False" "\<forall>n. ch_conn c = Some n \<longrightarrow> d_conns d n \<noteq> None"
      by (auto simp: chan_ok_def)
    then show ?thesis using assms(2) unfolding chan_ok_def by (intro exI [of _ c]) simp
  qed
  then have "chans_ok ?d" using assms(1) by (auto simp: daemon_inv_def chans_ok_def)
  moreover have "fwd_ok ?d = fwd_ok d" by (simp add: fwd_ok_def fun_eq_iff)
  then have "lns_ok ?d" "peers_ok ?d" using assms(1) by (simp_all add: daemon_inv_def lns_ok_def peers_ok_def)
  moreover have "heaps_ok ?d" using assms(1,3,4) by (simp add: daemon_inv_def heaps_ok_def)
  moreover have "grows d ?d" using assms(2,3) by (simp add: grows_def)
  ultimately show ?thesis using assms(1) by (simp add: daemon_inv_def)
qed

lemma inv_conn_upd:
  assumes "daemon_inv d" and "d_conns d n \<noteq> None"
  shows "daemon_inv (d\<lparr>d_conns := (d_conns d)(n \<mapsto> c)\<rparr>) \<and> grows d (d\<lparr>d_conns := (d_conns d)(n \<mapsto> c)\<rparr>)"
proof -
  have free: "\<forall>m\<ge>d_next d. d_conns d m = None" using assms(1) by (simp add: daemon_inv_def heaps_ok_def)
  then have "n < d_next d" using assms(2) by (metis not_le)
  then have "\<forall>m\<ge>d_next d. ((d_conns d)(n \<mapsto> c)) m = None" using free by simp
  from inv_conns [OF assms(1) _ order_refl this] show ?thesis by (simp del: fun_upd_apply) simp
qed

lemma fair_write_conn: "fair (write_conn n b)"
  using inv_conn_upd by (simp add: fair_def write_conn_def split: option.split)

lemma fair_close_conn: "fair (close_conn n)"
  using inv_conn_upd by (simp add: fair_def close_conn_def split: option.split)

lemma fair_new_conn:
  assumes "daemon_inv d" and "new_conn d = (n, d')"
  shows "daemon_inv d'" and "grows d d'" and "d_conns d' n \<noteq> None"
proof -
  let ?C = "(d_conns d)(d_next d \<mapsto> \<lparr>cn_out = [], cn_closed = False\<rparr>)"
  have "\<forall>m\<ge>Suc (d_next d). ?C m = None"
    using assms(1) by (simp add: daemon_inv_def heaps_ok_def)
  moreover have "\<And>m. d_conns d m \<noteq> None \<Longrightarrow> ?C m \<noteq> None" by simp
  ultimately have "daemon_inv (d\<lparr>d_conns := ?C, d_next := Suc (d_next d)\<rparr>) \<and>
      grows d (d\<lparr>d_conns := ?C, d_next := Suc (d_next d)\<rparr>)"
    by (intro inv_conns [OF assms(1)]) auto
  moreover have "d' = d\<lparr>d_conns := ?C, d_next := Suc (d_next d)\<rparr>" "n = d_next d"
    using assms(2) by (auto simp: new_conn_def)
  ultimately show "daemon_inv d'" and "grows d d'" and "d_conns d' n \<noteq> None" by simp_all
qed

section \<open>Channels\<close>

lemma distinct_snd_update:
  "distinct (map snd t) \<Longrightarrow> v \<notin> set (map snd t) \<Longrightarrow> distinct (map snd (AList.update k v t))"
proof (induction t)
  case (Cons r t)
  have "set (map snd (AList.update k v t)) \<subseteq> insert v (set (map snd t))"
    using set_update_imp [of _ k v t] by fastforce
  with Cons show ?case by (cases r) auto
qed simp

lemma distinct_snd_delete: "distinct (map snd t) \<Longrightarrow> distinct (map snd (AList.delete k t))"
proof (induction t)
  case (Cons r t)
  have "set (map snd (AList.delete k t)) \<subseteq> set (map snd t)"
    using set_delete_imp [of _ k t] by fastforce
  with Cons show ?case by (cases r) auto
qed simp

lemma channel_handle_used: "daemon_inv d \<Longrightarrow> (cid, h) \<in> set (d_channels d) \<Longrightarrow> h < d_next d"
  by (fastforce simp: daemon_inv_def chans_ok_def chan_ok_def heaps_ok_def not_le [symmetric])

lemma chan_ok_upd_other: "h' \<noteq> h \<Longrightarrow> chan_ok (d\<lparr>d_chans := (d_chans d)(h \<mapsto> c)\<rparr>) cid h' = chan_ok d cid h'"
  by (simp add: chan_ok_def)

lemma inv_chan_part:
  assumes "daemon_inv d" and "chans_ok d'" and "\<forall>h\<ge>d_next d'. d_chans d' h = None" and "d_next d \<le> d_next d'"
    and "d_conns d' = d_conns d" and "d_lns d' = d_lns d" and "d_linkLns d' = d_linkLns d"
    and "d_fwdLns d' = d_fwdLns d" and "d_peers d' = d_peers d" and "d_st d' = d_st d" and "d_panic d' = d_panic d"
  shows "daemon_inv d'"
proof -
  have "fwd_ok d' = fwd_ok d" using assms(6,10) by (simp add: fwd_ok_def fun_eq_iff)
  then have "lns_ok d'" "peers_ok d'" using assms by (simp_all add: daemon_inv_def lns_ok_def peers_ok_def)
  moreover have "heaps_ok d'" using assms(1,3,4,5,6) by (simp add: daemon_inv_def heaps_ok_def)
  ultimately show ?thesis using assms(1,2,10,11) by (simp add: daemon_inv_def)
qed

lemma inv_add_chan:
  assumes "daemon_inv d" and "add_chan c d = (h, d')" and "\<not> ch_closed c"
    and "ch_kind c = ''caps'' \<longrightarrow> ch_done c = Some False" and "\<And>n. ch_conn c = Some n \<Longrightarrow> d_conns d n \<noteq> None"
  shows "daemon_inv d'" and "grows d d'" and "d_chans d' h = Some c" and "map_of (d_channels d') (ch_id c) = Some h"
proof -
  have h: "h = d_next d" and d': "d' = d\<lparr>d_chans := (d_chans d)(h \<mapsto> c),
      d_channels := AList.update (ch_id c) h (d_channels d), d_next := Suc h\<rparr>"
    using assms(2) by (auto simp: add_chan_def)
  have fresh: "h' \<noteq> h" if "(cid, h') \<in> set (d_channels d)" for cid h'
    using channel_handle_used [OF assms(1) that] h by simp
  have "chan_ok d' (ch_id c) h" using assms(3-5) by (simp add: d' chan_ok_def)
  moreover have "chan_ok d' cid h'" if "(cid, h') \<in> set (d_channels d)" for cid h'
    using fresh [OF that] that assms(1) by (auto simp: d' chan_ok_def daemon_inv_def chans_ok_def)
  ultimately have "\<forall>(cid, h')\<in>set (d_channels d'). chan_ok d' cid h'"
    using set_update_imp by (fastforce simp: d')
  moreover have "h \<notin> set (map snd (d_channels d))" using fresh by fastforce
  then have "distinct (map snd (d_channels d'))" "wf_table (d_channels d')"
    using assms(1) by (simp_all add: d' daemon_inv_def chans_ok_def distinct_snd_update)
  ultimately have c: "chans_ok d'" by (simp add: chans_ok_def)
  show "daemon_inv d'"
    by (rule inv_chan_part [OF assms(1) c]) (use assms(1) h in \<open>simp_all add: d' daemon_inv_def heaps_ok_def\<close>)
  have "d_chans d h = None" using assms(1) h by (simp add: daemon_inv_def heaps_ok_def)
  then show "grows d d'" using h by (auto simp: d' grows_def)
  show "d_chans d' h = Some c" "map_of (d_channels d') (ch_id c) = Some h" by (simp_all add: d')
qed

lemma inv_put_chan:
  assumes "daemon_inv d" and "d_chans d h = Some c0"
    and "ch_id c = ch_id c0" "ch_kind c = ch_kind c0" "ch_peer c = ch_peer c0"
    and "h \<in> snd ` set (d_channels d) \<Longrightarrow> \<not> ch_closed c \<and> (ch_kind c = ''caps'' \<longrightarrow> ch_done c = Some False)"
    and "\<And>n. h \<in> snd ` set (d_channels d) \<Longrightarrow> ch_conn c = Some n \<Longrightarrow> d_conns d n \<noteq> None"
  shows "daemon_inv (put_chan h c d)" and "grows d (put_chan h c d)"
proof -
  let ?d = "put_chan h c d"
  have "chan_ok ?d cid h'" if "(cid, h') \<in> set (d_channels d)" for cid h'
  proof (cases "h' = h")
    case True
    then have "chan_ok d cid h" "h \<in> snd ` set (d_channels d)"
      using that assms(1) by (force simp: daemon_inv_def chans_ok_def)+
    then show ?thesis using assms True by (simp add: chan_ok_def put_chan_def)
  next
    case False
    then show ?thesis using that assms(1) by (auto simp: daemon_inv_def chans_ok_def chan_ok_def put_chan_def)
  qed
  then have c: "chans_ok ?d" using assms(1) by (auto simp: daemon_inv_def chans_ok_def put_chan_def)
  have "h < d_next d" using assms(1,2) by (metis daemon_inv_def heaps_ok_def not_le option.distinct(1))
  then show "daemon_inv ?d"
    by (intro inv_chan_part [OF assms(1) c]) (use assms(1) in \<open>simp_all add: put_chan_def daemon_inv_def heaps_ok_def\<close>)
  show "grows d ?d" using assms(2-5) by (auto simp: grows_def put_chan_def)
qed

lemma inv_delete_channel:
  assumes "daemon_inv d"
  shows "daemon_inv (d\<lparr>d_channels := AList.delete cid (d_channels d)\<rparr>)"
proof -
  let ?d = "d\<lparr>d_channels := AList.delete cid (d_channels d)\<rparr>"
  have "chan_ok ?d = chan_ok d" by (simp add: chan_ok_def fun_eq_iff)
  then have c: "chans_ok ?d"
    using assms set_delete_imp by (fastforce simp: daemon_inv_def chans_ok_def distinct_snd_delete)
  show ?thesis
    by (rule inv_chan_part [OF assms c]) (use assms in \<open>simp_all add: daemon_inv_def heaps_ok_def\<close>)
qed

section \<open>Relay operations\<close>

lemma chan_at_Some: "chan_at cid d = Some (h, c) \<longleftrightarrow> map_of (d_channels d) cid = Some h \<and> d_chans d h = Some c"
  by (auto simp: chan_at_def split: option.splits)

lemma chan_at_ok:
  assumes "daemon_inv d" and "chan_at cid d = Some (h, c)"
  shows "(cid, h) \<in> set (d_channels d)" "d_chans d h = Some c" "ch_id c = cid" "\<not> ch_closed c"
    "ch_kind c = ''caps'' \<Longrightarrow> ch_done c = Some False" "\<And>n. ch_conn c = Some n \<Longrightarrow> d_conns d n \<noteq> None"
proof -
  have m: "map_of (d_channels d) cid = Some h" and c: "d_chans d h = Some c"
    using assms(2) by (simp_all add: chan_at_Some)
  then show e: "(cid, h) \<in> set (d_channels d)" "d_chans d h = Some c" by (auto dest: map_of_SomeD)
  then have "chan_ok d cid h" using assms(1) by (auto simp: daemon_inv_def chans_ok_def)
  with c show "ch_id c = cid" "\<not> ch_closed c" "ch_kind c = ''caps'' \<Longrightarrow> ch_done c = Some False"
    "\<And>n. ch_conn c = Some n \<Longrightarrow> d_conns d n \<noteq> None" by (auto simp: chan_ok_def)
qed

lemma channel_gone:
  assumes "daemon_inv d" and "(cid, h) \<in> set (d_channels d)"
  shows "h \<notin> snd ` set (AList.delete cid (d_channels d))"
proof
  assume "h \<in> snd ` set (AList.delete cid (d_channels d))"
  then obtain cid' where e: "(cid', h) \<in> set (AList.delete cid (d_channels d))" by auto
  then have "cid' \<noteq> cid" by (metis delete_notin_dom fst_conv image_eqI)
  moreover have "chan_ok d cid h" "chan_ok d cid' h"
    using assms set_delete_imp [OF e] by (auto simp: daemon_inv_def chans_ok_def)
  then have "cid' = cid" by (auto simp: chan_ok_def)
  ultimately show False by blast
qed

lemma put_chan_channels [simp]: "d_channels (put_chan h c d) = d_channels d" "d_conns (put_chan h c d) = d_conns d"
  "d_chans (put_chan h c d) = (d_chans d)(h \<mapsto> c)" "d_panic (put_chan h c d) = d_panic d"
  by (simp_all add: put_chan_def)

lemma close_conn_frame [simp]: "d_channels (close_conn n d) = d_channels d" "d_chans (close_conn n d) = d_chans d"
  by (simp_all add: close_conn_def split: option.split)

lemma fair_closeChannel: "fair (closeChannel cid notify)"
  unfolding fair_def
proof (intro allI impI)
  fix d assume inv: "daemon_inv d"
  show "daemon_inv (closeChannel cid notify d) \<and> grows d (closeChannel cid notify d)"
  proof (cases "chan_at cid d")
    case None
    with inv show ?thesis by (simp add: closeChannel_def)
  next
    case (Some hc)
    then obtain h c where hc: "chan_at cid d = Some (h, c)" by (cases hc) auto
    note ok = chan_at_ok [OF inv hc]
    let ?d0 = "d\<lparr>d_channels := AList.delete cid (d_channels d)\<rparr>"
    let ?c = "c\<lparr>ch_closed := True\<rparr>"
    have i0: "daemon_inv ?d0" "grows d ?d0" using inv_delete_channel [OF inv] by (simp_all add: grows_def)
    have out: "h \<notin> snd ` set (d_channels ?d0)" using channel_gone [OF inv ok(1)] by simp
    define d1 where "d1 = put_chan h ?c ?d0"
    have i1: "daemon_inv d1" "grows ?d0 d1"
      unfolding d1_def using out ok(6) by (intro inv_put_chan [OF i0(1), of h c]; simp add: ok(2))+
    define d2 where "d2 = (case ch_conn c of None \<Rightarrow> d1 | Some n \<Rightarrow> close_conn n d1)"
    have i2: "daemon_inv d2" "grows d1 d2" "d_chans d2 h = Some ?c" "d_channels d2 = d_channels ?d0"
      unfolding d2_def using i1 fairD [OF fair_close_conn] by (auto split: option.split simp: d1_def)
    define d3 where "d3 = (if ch_kind c = ''caps'' then close_done h d2 else d2)"
    have i3: "daemon_inv d3" "grows d2 d3"
    proof -
      have "grows d d2" using i0 i1 i2 by (metis grows_trans)
      then have conn: "d_conns d2 n \<noteq> None" if "ch_conn c = Some n" for n
        using ok(6) [OF that] by (auto simp: grows_def)
      have "daemon_inv (put_chan h (?c\<lparr>ch_done := Some True\<rparr>) d2)" "grows d2 (put_chan h (?c\<lparr>ch_done := Some True\<rparr>) d2)"
        using out conn i2(4) by (intro inv_put_chan [OF i2(1,3)]; simp)+
      then show "daemon_inv d3" "grows d2 d3" using i2 ok(5) by (auto simp: d3_def close_done_def)
    qed
    have "closeChannel cid notify d = (if notify then sendMsg (relay_close_msg (ch_peer c) cid) d3 else d3)"
      by (simp add: closeChannel_def hc d3_def d2_def d1_def Let_def cong: option.case_cong)
    moreover have "grows d d3" using i0 i1 i2 i3 by (metis grows_trans)
    ultimately show ?thesis using i3 same_core_inv [OF core_sendMsg i3(1)] by (auto intro: grows_trans)
  qed
qed

text \<open>The two conclusions every operation has, and how they chain.\<close>

definition keeps :: "daemon \<Rightarrow> daemon \<Rightarrow> bool" where
  "keeps d d' \<longleftrightarrow> daemon_inv d' \<and> grows d d'"

lemma keeps_trans: "keeps d d' \<Longrightarrow> keeps d' d'' \<Longrightarrow> keeps d d''"
  unfolding keeps_def by (metis grows_trans)

lemma keeps_refl: "daemon_inv d \<Longrightarrow> keeps d d"
  by (simp add: keeps_def)

lemma keeps_core: "same_core d d' \<Longrightarrow> daemon_inv d \<Longrightarrow> keeps d d'"
  by (simp add: keeps_def same_core_inv)

lemma keeps_fair: "fair f \<Longrightarrow> daemon_inv d \<Longrightarrow> keeps d (f d)"
  by (simp add: keeps_def fair_def)

lemma keeps_inv: "keeps d d' \<Longrightarrow> daemon_inv d'"
  by (simp add: keeps_def)

lemma keeps_then: "keeps d d' \<Longrightarrow> (daemon_inv d' \<Longrightarrow> keeps d' d'') \<Longrightarrow> keeps d d''"
  unfolding keeps_def by (metis grows_trans)

lemma keeps_conn: "keeps d d' \<Longrightarrow> d_conns d n \<noteq> None \<Longrightarrow> d_conns d' n \<noteq> None"
  by (simp add: keeps_def grows_def)

lemma fairI: "(\<And>d. daemon_inv d \<Longrightarrow> keeps d (f d)) \<Longrightarrow> fair f"
  by (simp add: fair_def keeps_def)

lemmas keeps_closeChannel = keeps_fair [OF fair_closeChannel]
lemmas keeps_sendMsg = keeps_core [OF core_sendMsg]
lemmas keeps_sendRelay = keeps_core [OF core_sendRelay]
lemmas keeps_saveState = keeps_core [OF core_saveState]
lemmas keeps_write_conn = keeps_fair [OF fair_write_conn]
lemmas keeps_close_conn = keeps_fair [OF fair_close_conn]

lemma keeps_openChannel:
  assumes "daemon_inv d" and "openChannel env p s dl d = (d', r)"
  shows "keeps d d'" and "r = Inr h \<Longrightarrow> \<exists>c. d_chans d' h = Some c \<and> ch_kind c = kindFor s \<and> ch_peer c = p"
proof -
  have "keeps d d' \<and> (\<forall>h. r = Inr h \<longrightarrow> (\<exists>c. d_chans d' h = Some c \<and> ch_kind c = kindFor s \<and> ch_peer c = p))"
  proof (cases "peerPubKey p d")
    case (Inl e)
    with assms show ?thesis by (auto simp: openChannel_def keeps_refl)
  next
    case (Inr pub)
    let ?c = "\<lparr>ch_id = newID env, ch_peer = p, ch_kind = kindFor s, ch_conn = None, ch_caps = [],
      ch_done = Some False, ch_closed = False\<rparr>"
    obtain h d1 where a: "add_chan ?c d = (h, d1)" by (cases "add_chan ?c d")
    have add: "daemon_inv d1" "grows d d1" "d_chans d1 h = Some ?c"
      using inv_add_chan [OF assms(1) a] by simp_all
    obtain d2 err where s: "sendRelay env p pub (newID env) s dl [] d1 = (d2, err)"
      by (cases "sendRelay env p pub (newID env) s dl [] d1")
    have k2: "keeps d1 d2" using keeps_sendRelay [OF add(1)] s by (metis fst_conv)
    have c2: "d_chans d2 h = Some ?c"
      using add(3) s by (auto simp: sendRelay_def sendMsg_def split: sum.splits)
    have d2: "keeps d d2" using add k2 by (auto simp: keeps_def intro: grows_trans)
    show ?thesis
    proof (cases err)
      case None
      then show ?thesis using assms(2) Inr a s d2 c2 by (auto simp: openChannel_def Let_def)
    next
      case (Some e)
      then have "d' = closeChannel (newID env) False d2" "r = Inl e"
        using assms(2) Inr a s by (auto simp: openChannel_def Let_def)
      then show ?thesis using keeps_then [OF d2 keeps_closeChannel] by simp
    qed
  qed
  then show "keeps d d'" and "r = Inr h \<Longrightarrow> \<exists>c. d_chans d' h = Some c \<and> ch_kind c = kindFor s \<and> ch_peer c = p"
    by auto
qed

lemma keeps_put_caps:
  assumes "daemon_inv d" and "chan_at cid d = Some (h, c)"
  shows "keeps d (put_chan h (c\<lparr>ch_caps := b\<rparr>) d)"
proof -
  note ok = chan_at_ok [OF assms]
  show ?thesis unfolding keeps_def
    using ok(4-6) by (intro conjI inv_put_chan [OF assms(1) ok(2)]) auto
qed

lemma keeps_add_chan:
  assumes "daemon_inv d" and "\<not> ch_closed c" and "ch_kind c = ''caps'' \<Longrightarrow> ch_done c = Some False"
    and "\<And>n. ch_conn c = Some n \<Longrightarrow> d_conns d n \<noteq> None"
  shows "keeps d (snd (add_chan c d))"
  using inv_add_chan [OF assms(1) surjective_pairing] assms(2-4) by (simp add: keeps_def)

lemma keeps_serve_caps: "daemon_inv d \<Longrightarrow> keeps d (serve_caps env m pub d)"
  unfolding serve_caps_def Let_def
  by (intro keeps_then [OF _ keeps_closeChannel] keeps_then [OF _ keeps_sendMsg] keeps_then [OF _ keeps_sendRelay]
      keeps_add_chan) auto

lemma keeps_serve_dialed:
  assumes "daemon_inv d"
  shows "keeps d (serve_dialed err m b d)"
proof (cases err)
  case None
  obtain n d1 where n: "new_conn d = (n, d1)" by (cases "new_conn d")
  note k = fair_new_conn [OF assms n]
  have "keeps d1 (registerDialed (m_Channel m) (m_From m) n d1)"
    unfolding registerDialed_def using k by (intro keeps_add_chan) auto
  then have "keeps d (registerDialed (m_Channel m) (m_From m) n d1)"
    using k keeps_trans by (auto simp: keeps_def intro: grows_trans)
  with None n show ?thesis by (auto simp: serve_dialed_def Let_def intro: keeps_then [OF _ keeps_write_conn])
next
  case (Some e)
  then show ?thesis using assms by (simp add: serve_dialed_def keeps_sendMsg)
qed

lemma fair_handleRelay: "fair (handleRelay env m)"
proof (rule fairI)
  fix d assume inv: "daemon_inv d"
  note rules = keeps_refl [OF inv] keeps_sendMsg [OF inv] keeps_serve_caps [OF inv] keeps_serve_dialed [OF inv]
    keeps_write_conn [OF inv]
  show "keeps d (handleRelay env m d)"
  proof (cases "chan_at (m_Channel m) d")
    case None
    then show ?thesis using rules by (auto simp: handleRelay_def split: sum.split)
  next
    case (Some hc)
    then obtain h c where hc: "chan_at (m_Channel m) d = Some (h, c)" by (cases hc) auto
    show ?thesis using rules keeps_put_caps [OF inv hc]
      by (auto simp: handleRelay_def appendCaps_def hc split: sum.split option.split)
  qed
qed

lemma fair_pump_turn: "fair (\<lambda>d. fst (pump_turn env cid t k r d))"
proof (rule fairI)
  fix d assume inv: "daemon_inv d"
  obtain peer pub data err where kr: "k = (peer, pub)" "r = (data, err)" by (cases k; cases r)
  obtain d1 serr where d1: "(if data \<noteq> [] then sendRelay env peer pub cid [] [] data d else (d, None)) = (d1, serr)"
    by (meson surj_pair)
  then have "keeps d d1" using keeps_refl [OF inv] keeps_sendRelay [OF inv]
    by (metis fst_conv)
  then show "keeps d (fst (pump_turn env cid t k r d))"
    using d1 keeps_then [OF \<open>keeps d d1\<close> keeps_closeChannel] by (simp add: pump_turn_def kr)
qed

lemma fair_pump: "fair (pumpConnToPeer cid t reads)"
proof -
  have loop: "daemon_inv d \<Longrightarrow> keeps d (pump_loop cid t k reads d)" for k d
  proof (induction cid t k reads d rule: pump_loop.induct)
    case (2 cid t k env r rs d)
    obtain d' more where p: "pump_turn env cid t k r d = (d', more)" by (meson surj_pair)
    have "keeps d d'" using keeps_fair [OF fair_pump_turn "2.prems"] p by (metis fst_conv)
    then show ?case using "2.IH" [OF p [symmetric] refl] p keeps_then [OF \<open>keeps d d'\<close>] by auto
  qed (simp add: keeps_refl)
  show ?thesis
  proof (rule fairI)
    fix d assume inv: "daemon_inv d"
    have "keeps d (fst (pump_start cid d))"
      by (auto simp: pump_start_def keeps_refl [OF inv] keeps_closeChannel [OF inv] split: option.split sum.split)
    then show "keeps d (pumpConnToPeer cid t reads d)"
      using loop by (auto simp: pumpConnToPeer_def split: prod.split option.split intro: keeps_then)
  qed
qed

end
