(* ===== verification/DaemonOps.thy ===== *)
theory DaemonOps
  imports DaemonInv
begin

text \<open>
  Preservation of the daemon's invariant by the operations on links and forwards, by the control
  commands and by the messages of the hub; then the daemon as a machine driven by events, in which an
  operation that waits carries the events that happen meanwhile.
\<close>

section \<open>Listeners\<close>

lemma inv_ln_part:
  assumes "daemon_inv d" and "lns_ok d'" and "\<forall>h\<ge>d_next d'. d_lns d' h = None" and "d_next d \<le> d_next d'"
    and "d_conns d' = d_conns d" and "d_chans d' = d_chans d" and "d_channels d' = d_channels d"
    and "d_peers d' = d_peers d" and "s_Links (d_st d') = s_Links (d_st d)" and "d_panic d' = d_panic d"
    and "\<And>h. d_lns d h \<noteq> None \<Longrightarrow> d_lns d' h \<noteq> None"
  shows "keeps d d'"
proof -
  have "chan_ok d' = chan_ok d" using assms(5,6) by (simp add: chan_ok_def fun_eq_iff)
  then have "chans_ok d'" "peers_ok d'" using assms by (simp_all add: daemon_inv_def chans_ok_def peers_ok_def)
  moreover have "heaps_ok d'" using assms(1,3,4,5,6) by (simp add: daemon_inv_def heaps_ok_def)
  moreover have "grows d d'" using assms by (simp add: grows_def)
  ultimately show ?thesis using assms by (simp add: keeps_def daemon_inv_def)
qed

lemma fwd_handle_used:
  assumes "daemon_inv d" and "(p, h) \<in> set (d_fwdLns d)"
  shows "h < d_next d"
proof -
  have "d_lns d h \<noteq> None" using assms by (auto simp: daemon_inv_def lns_ok_def fwd_ok_def)
  then show ?thesis using assms(1) by (metis daemon_inv_def heaps_ok_def not_le)
qed

lemma keeps_listen:
  assumes "daemon_inv d" and "listen env p d = (d', r)"
  shows "keeps d d'" "r = Inr h \<Longrightarrow> h = d_next d \<and> h < d_next d' \<and> d_fwdLns d' = d_fwdLns d \<and> d_linkLns d' = d_linkLns d \<and>
    d_st d' = d_st d \<and> (\<exists>q. v_listen env p = Inr q \<and> d_lns d' h = Some \<lparr>ln_port = q, ln_open = True, ln_serves = None\<rparr>)"
proof -
  have "keeps d d' \<and> (\<forall>h. r = Inr h \<longrightarrow> h = d_next d \<and> h < d_next d' \<and> d_fwdLns d' = d_fwdLns d \<and> d_linkLns d' = d_linkLns d \<and>
    d_st d' = d_st d \<and> (\<exists>q. v_listen env p = Inr q \<and> d_lns d' h = Some \<lparr>ln_port = q, ln_open = True, ln_serves = None\<rparr>))"
  proof (cases "v_listen env p")
    case (Inl e)
    with assms show ?thesis by (auto simp: listen_def keeps_refl)
  next
    case (Inr q)
    let ?l = "\<lparr>ln_port = q, ln_open = True, ln_serves = None\<rparr>"
    have d': "d' = d\<lparr>d_lns := (d_lns d)(d_next d \<mapsto> ?l), d_next := Suc (d_next d)\<rparr>" "r = Inr (d_next d)"
      using assms(2) Inr by (auto simp: listen_def)
    have "fwd_ok d' port h" if "(port, h) \<in> set (d_fwdLns d)" for port h
      using that fwd_handle_used [OF assms(1) that] assms(1)
      by (auto simp: d' daemon_inv_def lns_ok_def fwd_ok_def)
    then have "lns_ok d'" using assms(1) by (auto simp: d' daemon_inv_def lns_ok_def)
    then have "keeps d d'"
      by (intro inv_ln_part [OF assms(1)]) (use assms(1) in \<open>auto simp: d' daemon_inv_def heaps_ok_def\<close>)
    with Inr show ?thesis by (simp add: d')
  qed
  then show "keeps d d'" "r = Inr h \<Longrightarrow> h = d_next d \<and> h < d_next d' \<and> d_fwdLns d' = d_fwdLns d \<and> d_linkLns d' = d_linkLns d \<and>
    d_st d' = d_st d \<and> (\<exists>q. v_listen env p = Inr q \<and> d_lns d' h = Some \<lparr>ln_port = q, ln_open = True, ln_serves = None\<rparr>)"
    by auto
qed

lemma keeps_set_ln:
  assumes "daemon_inv d" and "\<And>l. h \<in> snd ` set (d_fwdLns d) \<Longrightarrow> ln_open l \<Longrightarrow> ln_serves l \<noteq> None \<Longrightarrow> ln_open (f l) \<and> ln_serves (f l) \<noteq> None"
  shows "keeps d (set_ln h f d)"
proof -
  let ?d = "set_ln h f d"
  have "fwd_ok ?d port h'" if "(port, h') \<in> set (d_fwdLns d)" for port h'
  proof -
    have "fwd_ok d port h'" using that assms(1) by (auto simp: daemon_inv_def lns_ok_def)
    moreover have "h' = h \<Longrightarrow> h \<in> snd ` set (d_fwdLns d)" using that by force
    ultimately show ?thesis using assms(2) by (auto simp: fwd_ok_def set_ln_def)
  qed
  then have "lns_ok ?d" using assms(1) by (auto simp: daemon_inv_def lns_ok_def set_ln_def)
  then show ?thesis
    by (intro inv_ln_part [OF assms(1)]) (use assms(1) in \<open>auto simp: set_ln_def daemon_inv_def heaps_ok_def\<close>)
qed

lemma keeps_serve_ln: "daemon_inv d \<Longrightarrow> keeps d (serve_ln h t d)"
  unfolding serve_ln_def by (rule keeps_set_ln) auto

lemma keeps_close_ln: "daemon_inv d \<Longrightarrow> h \<notin> snd ` set (d_fwdLns d) \<Longrightarrow> keeps d (close_ln h d)"
  unfolding close_ln_def by (rule keeps_set_ln) auto

lemma keeps_linkLns: "daemon_inv d \<Longrightarrow> keeps d (d\<lparr>d_linkLns := AList.update n h (d_linkLns d)\<rparr>)"
  by (rule inv_ln_part) (auto simp: daemon_inv_def lns_ok_def heaps_ok_def fwd_ok_def)

text \<open>A new forward: its listener is open and not yet served, so the invariant holds once it is.\<close>

lemma keeps_add_forward:
  assumes "daemon_inv d" and "d_lns d h = Some l" and "ln_open l" and "h \<notin> snd ` set (d_fwdLns d)"
    and "p \<in> f_Local ` set fs" and "f_Local ` set (s_Forwards (d_st d)) \<subseteq> f_Local ` set fs"
  shows "keeps d (serve_ln h t (d\<lparr>d_fwdLns := AList.update p h (d_fwdLns d), d_st := (d_st d)\<lparr>s_Forwards := fs\<rparr>\<rparr>))"
    (is "keeps d ?d")
proof -
  have lns: "d_lns ?d = (d_lns d)(h \<mapsto> l\<lparr>ln_serves := Some t\<rparr>)" using assms(2) by (simp add: serve_ln_def set_ln_def)
  have fw: "s_Forwards (d_st ?d) = fs" "d_fwdLns ?d = AList.update p h (d_fwdLns d)"
    by (simp_all add: serve_ln_def set_ln_def)
  have "fwd_ok ?d p h" using assms(3,5) by (simp add: fwd_ok_def lns fw)
  moreover have "fwd_ok ?d q h'" if "(q, h') \<in> set (d_fwdLns d)" for q h'
  proof -
    have "fwd_ok d q h'" "h' \<noteq> h" using that assms(1,4) by (force simp: daemon_inv_def lns_ok_def)+
    then show ?thesis using assms(6) by (auto simp: fwd_ok_def lns fw)
  qed
  ultimately have "\<forall>(q, h')\<in>set (d_fwdLns ?d). fwd_ok ?d q h'"
    using set_update_imp by (fastforce simp: fw(2))
  then have "lns_ok ?d"
    using assms(1,4) by (auto simp: lns_ok_def fw(2) daemon_inv_def distinct_snd_update image_iff)
      (simp_all add: serve_ln_def set_ln_def)
  then show ?thesis
    by (intro inv_ln_part [OF assms(1)]) (use assms(1) in \<open>auto simp: serve_ln_def set_ln_def daemon_inv_def heaps_ok_def\<close>)
qed

section \<open>Links\<close>

lemma keeps_waitCaps:
  assumes "daemon_inv d" and "fair during"
  shows "keeps d (fst (waitCaps env during p d))"
proof -
  obtain d1 r where o: "openChannel env p ServiceCaps [] d = (d1, r)" by (meson surj_pair)
  have k: "keeps d d1" by (rule keeps_openChannel(1) [OF assms(1) o])
  have "keeps d (during d1)" using keeps_then [OF k keeps_fair [OF assms(2)]] .
  then show ?thesis using k o keeps_then [OF _ keeps_closeChannel]
    by (auto simp: waitCaps_def Let_def split: sum.split)
qed

lemma keeps_link_state: "daemon_inv d \<Longrightarrow> keeps d (saveState env (set_link_caps n g c r d))"
  "daemon_inv d \<Longrightarrow> keeps d (saveState env (new_link n li d))"
  by (rule keeps_core [OF same_core_trans [OF core_set_link_caps core_saveState]]; assumption)
     (rule keeps_core [OF same_core_trans [OF core_new_link core_saveState]])

lemma fwd_handles_frame [simp]:
  "d_fwdLns (saveState env d) = d_fwdLns d" "d_fwdLns (set_link_caps n g c r d) = d_fwdLns d"
  "d_fwdLns (new_link n li d) = d_fwdLns d" "d_fwdLns (set_ln h f d) = d_fwdLns d"
  by (auto simp: saveState_def set_link_caps_def new_link_def set_ln_def split: option.split)

lemma keeps_EnsureLink:
  assumes "daemon_inv d" and "fair during"
  shows "keeps d (fst (EnsureLink env during n d))"
proof (cases "resolvePeer env n d")
  case (Inl e)
  with assms show ?thesis by (simp add: EnsureLink_def keeps_refl)
next
  case (Inr peer)
  obtain d1 r where w: "waitCaps env during (mi_ID peer) d = (d1, r)" by (meson surj_pair)
  have k1: "keeps d d1" using keeps_waitCaps [OF assms] w by (metis fst_conv)
  obtain d2 r2 where l: "listen env 0 d1 = (d2, r2)" by (meson surj_pair)
  note kl = keeps_listen [OF keeps_inv [OF k1] l]
  have k2: "keeps d d2" using keeps_trans [OF k1 kl(1)] .
  show ?thesis
  proof (cases r2)
    case (Inl e)
    with Inr w l k2 assms(1) show ?thesis by (simp add: EnsureLink_def Let_def keeps_refl)
  next
    case (Inr h)
    let ?d3 = "d2\<lparr>d_linkLns := AList.update (mi_Name peer) h (d_linkLns d2)\<rparr>"
    have "h \<notin> snd ` set (d_fwdLns d1)"
      using fwd_handle_used [OF keeps_inv [OF k1]] kl(2) [OF Inr] by fastforce
    then have fresh: "h \<notin> snd ` set (d_fwdLns ?d3)" using kl(2) [OF Inr] by simp
    have k3: "keeps d ?d3" by (rule keeps_then [OF k2 keeps_linkLns])
    have ka: "keeps d (close_ln h (saveState env (set_link_caps (mi_Name peer) g c m ?d3)))" for g c m
      using fresh by (intro keeps_then [OF keeps_then [OF k3 keeps_link_state(1)] keeps_close_ln]) auto
    have kb: "keeps d (serve_ln h t (saveState env (new_link (mi_Name peer) li ?d3)))" for t li
      by (intro keeps_then [OF keeps_then [OF k3 keeps_link_state(2)] keeps_serve_ln])
    show ?thesis using \<open>resolvePeer env n d = Inr peer\<close> w l Inr ka kb assms(1)
      by (simp add: EnsureLink_def Let_def keeps_refl)
  qed
qed

lemma keeps_refresh_attempt:
  "daemon_inv d \<Longrightarrow> fair during \<Longrightarrow> keeps d (fst (refresh_attempt env during n d))"
proof (cases "resolvePeer env n d")
  case (Inr peer)
  assume inv: "daemon_inv d" and f: "fair during"
  obtain d1 r where w: "waitCaps env during (mi_ID peer) d = (d1, r)" by (meson surj_pair)
  have k1: "keeps d d1" using keeps_waitCaps [OF inv f] w by (metis fst_conv)
  then show ?thesis using Inr w keeps_refl [OF inv] keeps_then [OF k1 keeps_link_state(1)]
    by (auto simp: refresh_attempt_def split: option.split sum.split)
qed (simp add: refresh_attempt_def keeps_refl)

lemma keeps_refresh_loop:
  "daemon_inv d \<Longrightarrow> \<forall>(env, during, sleep)\<in>set as. fair during \<and> fair sleep \<Longrightarrow> keeps d (refresh_loop as n d)"
proof (induction as n d rule: refresh_loop.induct)
  case (2 env during sleep rest n d)
  obtain d1 over where a: "refresh_attempt env during n d = (d1, over)" by (meson surj_pair)
  have f: "fair during" "fair sleep" "\<forall>(env, during, sleep)\<in>set rest. fair during \<and> fair sleep"
    using "2.prems"(2) by auto
  have k1: "keeps d d1" using keeps_refresh_attempt [OF "2.prems"(1) f(1)] a by (metis fst_conv)
  have k2: "keeps d (sleep d1)" by (rule keeps_then [OF k1 keeps_fair [OF f(2)]])
  have "\<not> over \<Longrightarrow> keeps d (refresh_loop rest n (sleep d1))"
    using "2.IH" [OF a [symmetric]] f(3) keeps_inv [OF k2] keeps_trans [OF k2] by blast
  with k1 a show ?case by simp
qed (simp add: keeps_refl)

lemma keeps_refreshLinkCaps:
  assumes "daemon_inv d" and "\<forall>(env, during, sleep)\<in>set as. fair during \<and> fair sleep"
  shows "keeps d (refreshLinkCaps as n d)"
  unfolding refreshLinkCaps_def
  by (rule keeps_refresh_loop [OF assms(1)]) (use assms(2) in \<open>auto dest: in_set_takeD\<close>)

section \<open>Forwards\<close>

lemma keeps_EnsureForward:
  assumes "daemon_inv d"
  shows "keeps d (fst (EnsureForward env n lp rp auto d))"
proof (cases "\<not> (lp \<le> 0 \<or> lp > 65535 \<or> rp \<le> 0 \<or> rp > 65535) \<and> (\<exists>peer. resolvePeer env n d = Inr peer) \<and> map_of (d_fwdLns d) lp = None")
  case False
  then show ?thesis using keeps_refl [OF assms] by (cases "resolvePeer env n d") (auto simp: EnsureForward_def)
next
  case True
  then obtain peer where p: "resolvePeer env n d = Inr peer" by blast
  obtain d1 r where l: "listen env lp d = (d1, r)" by (meson surj_pair)
  note kl = keeps_listen [OF assms l]
  show ?thesis
  proof (cases r)
    case (Inl e)
    with True p l kl(1) show ?thesis by (simp add: EnsureForward_def)
  next
    case (Inr h)
    note h = kl(2) [OF Inr]
    have "h \<notin> snd ` set (d_fwdLns d)" using fwd_handle_used [OF assms] h by fastforce
    then have fresh: "h \<notin> snd ` set (d_fwdLns d1)" using h by simp
    let ?fs = "s_Forwards (d_st d1) @ [\<lparr>f_Local = lp, f_Remote = rp, f_Machine = mi_Name peer, f_Auto = auto\<rparr>]"
    let ?d2 = "d1\<lparr>d_fwdLns := AList.update lp h (d_fwdLns d1), d_st := (d_st d1)\<lparr>s_Forwards := ?fs\<rparr>\<rparr>"
    obtain q where q: "d_lns d1 h = Some \<lparr>ln_port = q, ln_open = True, ln_serves = None\<rparr>" using h by blast
    have "keeps d1 (serve_ln h t ?d2)" for t
      using fresh by (intro keeps_add_forward [OF keeps_inv [OF kl(1)] q]) auto
    then have "keeps d (serve_ln h t ?d2)" for t using keeps_trans [OF kl(1)] by blast
    then have "keeps d (saveState env (serve_ln h t ?d2))" for t by (rule keeps_then [OF _ keeps_saveState])
    moreover have "serve_ln h t (saveState env ?d2) = saveState env (serve_ln h t ?d2)" for t
      by (simp add: serve_ln_def set_ln_def saveState_def split: option.split)
    ultimately show ?thesis using True p l Inr by (simp add: EnsureForward_def)
  qed
qed

lemma keeps_StopForward:
  assumes "daemon_inv d"
  shows "keeps d (fst (StopForward env lp d))"
proof -
  let ?d0 = "d\<lparr>d_fwdLns := AList.delete lp (d_fwdLns d),
      d_st := (d_st d)\<lparr>s_Forwards := filter (\<lambda>f. f_Local f \<noteq> lp) (s_Forwards (d_st d))\<rparr>\<rparr>"
  have wf: "wf_table (d_fwdLns d)" "distinct (map snd (d_fwdLns d))"
    and all: "\<And>q h. (q, h) \<in> set (d_fwdLns d) \<Longrightarrow> fwd_ok d q h"
    using assms by (auto simp: daemon_inv_def lns_ok_def)
  have "fwd_ok ?d0 q h" if "(q, h) \<in> set (AList.delete lp (d_fwdLns d))" for q h
  proof -
    have "q \<noteq> lp" using that by (metis delete_notin_dom fst_conv image_eqI)
    then show ?thesis using all [OF set_delete_imp [OF that]] by (auto simp: fwd_ok_def)
  qed
  then have "lns_ok ?d0" using assms wf by (auto simp: daemon_inv_def lns_ok_def distinct_snd_delete)
  then have k0: "keeps d ?d0"
    by (intro inv_ln_part [OF assms]) (use assms in \<open>auto simp: daemon_inv_def heaps_ok_def\<close>)
  have k1: "keeps d (saveState env ?d0)" by (rule keeps_then [OF k0 keeps_saveState])
  show ?thesis
  proof (cases "map_of (d_fwdLns d) lp")
    case None
    with k1 show ?thesis by (simp add: StopForward_def Let_def)
  next
    case (Some h)
    have "h \<notin> snd ` set (AList.delete lp (d_fwdLns d))"
    proof
      assume "h \<in> snd ` set (AList.delete lp (d_fwdLns d))"
      then obtain q where q: "(q, h) \<in> set (AList.delete lp (d_fwdLns d))" by auto
      then have "q \<noteq> lp" by (metis delete_notin_dom fst_conv image_eqI)
      moreover have "(q, h) \<in> set (d_fwdLns d)" "(lp, h) \<in> set (d_fwdLns d)"
        using set_delete_imp [OF q] map_of_SomeD [OF Some] by auto
      moreover have "inj_on snd (set (d_fwdLns d))" using wf(2) by (simp add: distinct_map)
      ultimately show False using inj_onD [of snd "set (d_fwdLns d)" "(q, h)" "(lp, h)"] by simp
    qed
    then have "keeps d (close_ln h (saveState env ?d0))" by (intro keeps_then [OF k1 keeps_close_ln]) auto
    with Some show ?thesis by (simp add: StopForward_def Let_def)
  qed
qed

section \<open>Restoring\<close>

lemma listen_fresh: "daemon_inv d \<Longrightarrow> listen env p d = (d1, Inr h) \<Longrightarrow> h \<notin> snd ` set (d_fwdLns d1)"
  using keeps_listen(2) [of d env p d1 "Inr h" h] fwd_handle_used by fastforce

lemma keeps_restore_link:
  assumes "daemon_inv d"
  shows "keeps d (restore_link env np d)"
proof -
  obtain n p where np: "np = (n, p)" by (cases np)
  obtain d1 r where l: "listen env p d = (d1, r)" by (meson surj_pair)
  note kl = keeps_listen(1) [OF assms l]
  have "keeps d (close_ln h d1)" if "r = Inr h" for h
    using listen_fresh [OF assms] l that by (intro keeps_then [OF kl keeps_close_ln]) auto
  moreover have "keeps d (serve_ln h t (d1\<lparr>d_linkLns := AList.update n h (d_linkLns d1)\<rparr>))" for h t
    by (rule keeps_then [OF keeps_then [OF kl keeps_linkLns] keeps_serve_ln])
  ultimately show ?thesis using kl by (auto simp: restore_link_def np l split: sum.split)
qed

lemma keeps_restore_forward:
  assumes "daemon_inv d" and "f_Local f \<in> f_Local ` set (s_Forwards (d_st d))"
  shows "keeps d (restore_forward env f d) \<and> s_Forwards (d_st (restore_forward env f d)) = s_Forwards (d_st d)"
proof -
  obtain d1 r where l: "listen env (f_Local f) d = (d1, r)" by (meson surj_pair)
  note kl = keeps_listen(1) [OF assms(1) l]
  have st: "d_st d1 = d_st d" using l by (auto simp: listen_def split: sum.splits)
  have lifted: "d_st (set_ln h g d') = d_st d'" for h g d' by (simp add: set_ln_def)
  have "keeps d (close_ln h d1)" if "r = Inr h" for h
    using listen_fresh [OF assms(1)] l that by (intro keeps_then [OF kl keeps_close_ln]) auto
  moreover have "keeps d (serve_ln h t (d1\<lparr>d_fwdLns := AList.update (f_Local f) h (d_fwdLns d1)\<rparr>))"
    if r: "r = Inr h" for h t
  proof -
    obtain q where q: "d_lns d1 h = Some \<lparr>ln_port = q, ln_open = True, ln_serves = None\<rparr>"
      using keeps_listen(2) [OF assms(1) l r] by blast
    have fresh: "h \<notin> snd ` set (d_fwdLns d1)" using listen_fresh [OF assms(1)] l r by simp
    have "keeps d1 (serve_ln h t (d1\<lparr>d_fwdLns := AList.update (f_Local f) h (d_fwdLns d1),
        d_st := (d_st d1)\<lparr>s_Forwards := s_Forwards (d_st d1)\<rparr>\<rparr>))"
      using fresh assms(2) st by (intro keeps_add_forward [OF keeps_inv [OF kl] q]) auto
    then show ?thesis using keeps_trans [OF kl] by simp
  qed
  ultimately show ?thesis using kl keeps_refl [OF assms(1)] st
    by (auto simp: restore_forward_def l lifted serve_ln_def close_ln_def split: sum.split)
qed

lemma restore_link_frame [simp]: "d_st (restore_link env np d) = d_st d"
  by (auto simp: restore_link_def listen_def serve_ln_def close_ln_def set_ln_def split: prod.split sum.split)

lemma restore_links_frame [simp]: "d_st (fold (restore_link env) nps d) = d_st d"
  by (induction nps arbitrary: d) simp_all

lemma keeps_restore_links: "daemon_inv d \<Longrightarrow> keeps d (fold (restore_link env) nps d)"
proof (induction nps arbitrary: d)
  case (Cons np nps)
  show ?case using keeps_then [OF keeps_restore_link [OF Cons.prems] Cons.IH] by simp
qed (simp add: keeps_refl)

lemma keeps_restore_forwards:
  "daemon_inv d \<Longrightarrow> set fs \<subseteq> set (s_Forwards (d_st d)) \<Longrightarrow> keeps d (fold (restore_forward env) fs d)"
proof (induction fs arbitrary: d)
  case (Cons f fs)
  have "keeps d (restore_forward env f d)" "s_Forwards (d_st (restore_forward env f d)) = s_Forwards (d_st d)"
    using keeps_restore_forward [OF Cons.prems(1)] Cons.prems(2) by auto
  then show ?case using Cons.IH Cons.prems(2) by (auto intro: keeps_then)
qed (simp add: keeps_refl)

lemma keeps_restoreListeners: "daemon_inv d \<Longrightarrow> keeps d (restoreListeners env ord d)"
  unfolding restoreListeners_def Let_def
  by (rule keeps_then [OF keeps_restore_links keeps_restore_forwards]) simp_all

section \<open>Accepted connections\<close>

lemma keeps_attach:
  assumes "daemon_inv d" and "d_conns d n \<noteq> None"
  shows "keeps d (attach h n d)"
proof (cases "d_chans d h")
  case None
  with assms show ?thesis by (simp add: attach_def keeps_refl)
next
  case (Some c)
  have "\<not> ch_closed c \<and> (ch_kind c = ''caps'' \<longrightarrow> ch_done c = Some False)" if "h \<in> snd ` set (d_channels d)"
    using that assms(1) Some by (auto simp: daemon_inv_def chans_ok_def chan_ok_def)
  then have "keeps d (put_chan h (c\<lparr>ch_conn := Some n\<rparr>) d)" unfolding keeps_def
    using assms by (intro conjI inv_put_chan [OF assms(1) Some]) auto
  with Some show ?thesis by (simp add: attach_def)
qed

lemma keeps_flush_early:
  assumes "daemon_inv d"
  shows "keeps d (flush_early h n d)"
proof (cases "d_chans d h")
  case None
  with assms show ?thesis by (simp add: flush_early_def keeps_refl)
next
  case (Some c)
  let ?d = "write_conn n (ch_caps c) d"
  have w: "keeps d ?d" by (rule keeps_write_conn [OF assms])
  have c: "d_chans ?d h = Some c" "d_channels ?d = d_channels d"
    using Some by (simp_all add: write_conn_def split: option.split)
  have "\<not> ch_closed c \<and> (ch_kind c = ''caps'' \<longrightarrow> ch_done c = Some False) \<and> (\<forall>m. ch_conn c = Some m \<longrightarrow> d_conns d m \<noteq> None)"
    if "h \<in> snd ` set (d_channels d)"
    using that assms Some by (auto simp: daemon_inv_def chans_ok_def chan_ok_def)
  then have "keeps ?d (put_chan h (c\<lparr>ch_caps := []\<rparr>) ?d)" unfolding keeps_def
    using c keeps_conn [OF w] by (intro conjI inv_put_chan [OF keeps_inv [OF w] c(1)]) auto
  then show ?thesis using Some keeps_refl [OF assms] keeps_trans [OF w] by (simp add: flush_early_def)
qed

lemma keeps_pipeLocal:
  assumes "daemon_inv d" and "fair during" and "fair during'" and "d_conns d n \<noteq> None"
  shows "keeps d (pipeLocal env during during' n p s dl d)"
proof -
  obtain d1 r where o: "openChannel env p s dl d = (d1, r)" by (meson surj_pair)
  have k1: "keeps d d1" by (rule keeps_openChannel(1) [OF assms(1) o])
  have k2: "keeps d (during d1)" by (rule keeps_then [OF k1 keeps_fair [OF assms(2)]])
  have "keeps d (attach h n (during d1))" for h
    by (rule keeps_then [OF k2 keeps_attach]) (use keeps_conn [OF k2 assms(4)] in auto)
  then have "keeps d (flush_early h n (during' (attach h n (during d1))))" for h
    using keeps_then [OF keeps_then keeps_flush_early] keeps_fair [OF assms(3)] by blast
  then show ?thesis using o keeps_then [OF k1 keeps_close_conn] by (simp add: pipeLocal_def split: sum.split)
qed

lemma keeps_resolve_retry:
  "daemon_inv d \<Longrightarrow> \<forall>f\<in>set sleeps. fair f \<Longrightarrow> keeps d (fst (resolve_retry env sleeps n d))"
proof (induction env sleeps n d rule: resolve_retry.induct)
  case (2 env sleep sleeps n d)
  have k: "keeps d (sleep d)" using "2.prems" by (intro keeps_fair) auto
  have "resolvePeerID env n d = None \<Longrightarrow> keeps d (fst (resolve_retry env sleeps n (sleep d)))"
    using "2.IH" "2.prems"(2) keeps_inv [OF k] keeps_trans [OF k] by simp
  then show ?case using keeps_refl [OF "2.prems"(1)] by (simp split: option.split)
qed (simp add: keeps_refl)

lemma keeps_accept_conn:
  assumes "daemon_inv d" and "\<forall>f\<in>set sleeps. fair f" and "fair during" and "fair during'"
  shows "keeps d (accept_conn env sleeps during during' h d)"
proof -
  obtain n d1 where n: "new_conn d = (n, d1)" by (meson surj_pair)
  have k1: "keeps d d1" and c1: "d_conns d1 n \<noteq> None" using fair_new_conn [OF assms(1) n] by (simp_all add: keeps_def)
  have direct: "keeps d (pipeLocal env during during' n p s dl d1)" for p s dl
    using keeps_then [OF k1 keeps_pipeLocal [OF _ assms(3,4) c1]] .
  have retry: "keeps d (case resolve_retry env (take 20 sleeps) name d1 of
      (d2, None) \<Rightarrow> close_conn n d2 | (d2, Some pid) \<Rightarrow> pipeLocal env during during' n pid s dl d2)" for name s dl
  proof -
    obtain d2 r where r: "resolve_retry env (take 20 sleeps) name d1 = (d2, r)" by (meson surj_pair)
    have "keeps d1 d2" using keeps_resolve_retry [OF keeps_inv [OF k1], of "take 20 sleeps" env name] assms(2) r
      by (metis fst_conv in_set_takeD)
    then have k2: "keeps d d2" "d_conns d2 n \<noteq> None" using keeps_trans [OF k1] keeps_conn [OF _ c1] by blast+
    then show ?thesis using r keeps_then [OF k2(1) keeps_close_conn]
        keeps_then [OF k2(1) keeps_pipeLocal [OF _ assms(3,4) k2(2)]] by (simp split: option.split)
  qed
  show ?thesis using direct retry keeps_refl [OF assms(1)]
    by (auto simp: accept_conn_def n split: option.split target.split)
qed

section \<open>The watcher\<close>

lemma keeps_watch_machine: "daemon_inv d \<Longrightarrow> keeps d (watch_machine env autos m d)"
proof -
  have "keeps d (fold (\<lambda>f d. if f_Remote f \<in> live then d else fst (StopForward env (f_Local f) d)) fs d)"
    if "daemon_inv d" for live and fs :: "forward_info list" and d
    using that
  proof (induction fs arbitrary: d)
    case (Cons f fs)
    have "keeps d (if f_Remote f \<in> live then d else fst (StopForward env (f_Local f) d))"
      using keeps_refl [OF Cons.prems] keeps_StopForward [OF Cons.prems] by simp
    then show ?case using keeps_then [OF _ Cons.IH] by simp
  qed (simp add: keeps_refl)
  then show "daemon_inv d \<Longrightarrow> keeps d (watch_machine env autos m d)"
    by (simp add: watch_machine_def keeps_refl split: sum.split)
qed

lemma keeps_watch_tick: "daemon_inv d \<Longrightarrow> keeps d (watch_tick env ord d)"
proof -
  have "keeps d (fold (watch_machine env autos) ms d)" if "daemon_inv d" for autos ms d
    using that
  proof (induction ms arbitrary: d)
    case (Cons m ms)
    show ?case using keeps_then [OF keeps_watch_machine [OF Cons.prems] Cons.IH] by simp
  qed (simp add: keeps_refl)
  then show "daemon_inv d \<Longrightarrow> keeps d (watch_tick env ord d)" by (simp add: watch_tick_def Let_def)
qed

section \<open>Messages of the hub and commands\<close>

definition msg_ok :: "msg \<Rightarrow> bool" where
  "msg_ok m \<longleftrightarrow> (m_Type m = TPaired \<longrightarrow> m_Peer m \<noteq> None)"

lemma peers_fold:
  "wf_table t \<and> (\<forall>(k, p)\<in>set t. mi_ID p = k) \<Longrightarrow>
   wf_table (fold (\<lambda>p. AList.update (mi_ID p) p) l t) \<and> (\<forall>(k, p)\<in>set (fold (\<lambda>p. AList.update (mi_ID p) p) l t). mi_ID p = k)"
proof (induction l arbitrary: t)
  case (Cons q l)
  have "wf_table (AList.update (mi_ID q) q t) \<and> (\<forall>(k, p)\<in>set (AList.update (mi_ID q) q t). mi_ID p = k)"
    using Cons.prems by (auto dest!: set_update_imp)
  from Cons.IH [OF this] show ?case by simp
qed simp

lemma keeps_set_peers:
  assumes "daemon_inv d"
  shows "keeps d (set_peers l d)"
proof -
  have "chan_ok (set_peers l d) = chan_ok d" "fwd_ok (set_peers l d) = fwd_ok d"
    by (simp_all add: set_peers_def chan_ok_def fwd_ok_def fun_eq_iff)
  moreover have "peers_ok (set_peers l d)" using peers_fold [of "[]" l] by (simp add: set_peers_def peers_ok_def)
  ultimately show ?thesis using assms
    by (simp add: keeps_def daemon_inv_def heaps_ok_def chans_ok_def lns_ok_def grows_def) (simp add: set_peers_def)
qed

lemma fair_handleHubMsg:
  assumes "msg_ok m"
  shows "fair (handleHubMsg env m)"
proof (rule fairI)
  fix d assume inv: "daemon_inv d"
  define d' where "d' = (if m_Type m = TMachineUpdate then set_peers (m_Machines m) d
         else if m_Type m = TWelcome then d\<lparr>d_online := True, d_welcomed := True\<rparr>
         else if m_Type m = TError then (if m_Channel m \<noteq> [] then closeChannel (m_Channel m) False d else d)
         else if m_Type m = TRelay then handleRelay env m d
         else if m_Type m = TRelayClose then handleRelayClose m d
         else d)"
  have "keeps d (d\<lparr>d_online := True, d_welcomed := True\<rparr>)"
    by (rule keeps_core [OF _ inv]) (simp add: same_core_def)
  then have "keeps d d'"
    using keeps_set_peers [OF inv] keeps_closeChannel [OF inv] keeps_fair [OF fair_handleRelay inv] keeps_refl [OF inv]
    unfolding d'_def handleRelayClose_def by presburger
  moreover have "handleHubMsg env m d = handleHubMsgExtras m d'"
    using assms unfolding handleHubMsg_def d'_def msg_ok_def by presburger
  ultimately show "keeps d (handleHubMsg env m d)" using keeps_then [OF _ keeps_core [OF core_deliver]] by simp
qed

lemma keeps_pending:
  "daemon_inv d \<Longrightarrow> keeps d (d\<lparr>d_pendingCode := a, d_pendingCodeErr := b\<rparr>)"
  "daemon_inv d \<Longrightarrow> keeps d (d\<lparr>d_pendingPair := c\<rparr>)"
  by (rule keeps_core; simp add: same_core_def)+

lemma keeps_awaitCode: "daemon_inv d \<Longrightarrow> fair f \<Longrightarrow> keeps d (fst (awaitCode env f d))"
  unfolding awaitCode_def Let_def fst_conv
  by (rule keeps_then [OF keeps_then [OF keeps_pending(1) keeps_fair] keeps_pending(1)]; assumption?)

lemma keeps_awaitPaired: "daemon_inv d \<Longrightarrow> fair f \<Longrightarrow> keeps d (fst (awaitPaired env f d))"
  unfolding awaitPaired_def Let_def fst_conv
  by (rule keeps_then [OF keeps_then [OF keeps_pending(2) keeps_fair] keeps_pending(2)]; assumption?)

lemma keeps_ctlPair:
  assumes "daemon_inv d" and "fair f"
  shows "keeps d (fst (ctlPair env f req d))"
proof -
  have core: "same_core d (d\<lparr>d_st := (d_st d)\<lparr>s_Name := n\<rparr>\<rparr>)" for n by (simp add: same_core_def)
  define d1 where "d1 = ctl_rename env (q_Name req) d"
  have k1: "keeps d d1" unfolding d1_def ctl_rename_def Let_def
    using keeps_refl [OF assms(1)] keeps_core [OF same_core_trans [OF same_core_trans [OF core core_saveState] core_sendMsg] assms(1)]
    by simp
  have k2: "keeps d (sendMsg m d1)" for m by (rule keeps_then [OF k1 keeps_sendMsg])
  have "keeps d (fst (awaitCode env f (sendMsg m d1)))" "keeps d (fst (awaitPaired env f (sendMsg m d1)))" for m
    by (rule keeps_then [OF k2 keeps_awaitCode [OF _ assms(2)]] keeps_then [OF k2 keeps_awaitPaired [OF _ assms(2)]]; assumption)+
  note k3 = this
  show ?thesis
  proof (cases "q_Code req = []")
    case True
    obtain d2 r where a: "awaitCode env f (sendMsg (zero_msg\<lparr>m_Type := TCreateCode\<rparr>) d1) = (d2, r)" by (meson surj_pair)
    then have "keeps d d2" using k3(1) by (metis fst_conv)
    moreover have "fst (ctlPair env f req d) = d2"
      unfolding ctlPair_def d1_def [symmetric] Let_def using True a by (cases r) simp_all
    ultimately show ?thesis by simp
  next
    case False
    let ?m = "zero_msg\<lparr>m_Type := TPair, m_Code := q_Code req, m_MachineID := s_MachineID (d_st d1),
        m_Name := s_Name (d_st d1), m_PubKey := kp_PubB64 (d_key d1)\<rparr>"
    obtain d2 r where a: "awaitPaired env f (sendMsg ?m d1) = (d2, r)" by (meson surj_pair)
    then have "keeps d d2" using k3(2) by (metis fst_conv)
    moreover have "fst (ctlPair env f req d) = d2"
      unfolding ctlPair_def d1_def [symmetric] Let_def using False a by (cases r) simp_all
    ultimately show ?thesis by simp
  qed
qed

lemma keeps_execControl:
  assumes "daemon_inv d" and "fair f"
  shows "keeps d (fst (execControl env f req d))"
proof -
  have use: "keeps d (fst (ctlUse env f req d))"
  proof -
    obtain d1 r where e: "EnsureLink env f (q_Name req) d = (d1, r)" by (meson surj_pair)
    have k1: "keeps d d1" using keeps_EnsureLink [OF assms] e by (metis fst_conv)
    have "keeps d (saveState env (set_active n d1))" for n
      by (rule keeps_then [OF k1 keeps_core [OF same_core_trans [OF core_set_active core_saveState]]])
    then show ?thesis using k1 e keeps_refl [OF assms(1)] by (simp add: ctlUse_def split: sum.split prod.split)
  qed
  have unuse: "keeps d (fst (ctlUnuse env d))"
    unfolding ctlUnuse_def fst_conv
    by (rule keeps_core [OF same_core_trans [OF core_set_active core_saveState] assms(1)])
  have fwd: "keeps d (fst (ctlForward env req d))"
  proof -
    have "keeps d (fst (case EnsureForward env p lp rp a d of (d1, Some e) \<Rightarrow> (d1, g e) | (d1, None) \<Rightarrow> (d1, r)))"
      for p lp rp a g and r :: ctl_resp
      using keeps_EnsureForward [OF assms(1), of env p lp rp a]
      by (cases "EnsureForward env p lp rp a d") (simp split: option.split)
    then show ?thesis using keeps_refl [OF assms(1)] by (simp add: ctlForward_def Let_def)
  qed
  have unfwd: "keeps d (fst (ctlUnforward env req d))"
    using keeps_StopForward [OF assms(1), of env "q_Local req"]
    by (cases "StopForward env (q_Local req) d") (simp add: ctlUnforward_def split: option.split)
  have rev: "keeps d (fst (ctlRevoke env req d))"
    using keeps_refl [OF assms(1)] keeps_sendMsg [OF assms(1)] by (simp add: ctlRevoke_def split: sum.split)
  note pair = keeps_ctlPair [OF assms]
  show ?thesis
    using use unuse fwd unfwd rev pair keeps_refl [OF assms(1)]
    unfolding execControl_def by (simp only: if_distrib [of fst] fst_conv) presburger
qed

section \<open>The daemon as a machine\<close>

text \<open>
  The events of the daemon. A command that waits for the hub, an accepted connection and a capability
  refresh carry the events that happen while they wait.
\<close>

datatype devent =
    HubMsg denv msg
  | Command denv "devent list" ctl_req
  | Accepted denv "devent list list" "devent list" "devent list" nat
  | PumpTurn denv string bool "string \<times> string" "string \<times> bool"
  | RefreshTry denv "devent list" string
  | WatchTick denv "string list \<Rightarrow> string list"
  | HubWrite bool
  | HubDialled

definition seq :: "(daemon \<Rightarrow> daemon) list \<Rightarrow> daemon \<Rightarrow> daemon" where
  "seq fs d = fold (\<lambda>f d. f d) fs d"

primrec daemon_step :: "devent \<Rightarrow> daemon \<Rightarrow> daemon" where
  "daemon_step (HubMsg env m) = handleHubMsg env m"
| "daemon_step (Command env es req) = (\<lambda>d. fst (execControl env (seq (map daemon_step es)) req d))"
| "daemon_step (Accepted env ess es es' h) =
     accept_conn env (map (\<lambda>es. seq es) (map (map daemon_step) ess)) (seq (map daemon_step es)) (seq (map daemon_step es')) h"
| "daemon_step (PumpTurn env cid t k r) = (\<lambda>d. fst (pump_turn env cid t k r d))"
| "daemon_step (RefreshTry env es n) = (\<lambda>d. fst (refresh_attempt env (seq (map daemon_step es)) n d))"
| "daemon_step (WatchTick env ord) = watch_tick env ord"
| "daemon_step (HubWrite ok) = (\<lambda>d. fst (hub_write ok d))"
| "daemon_step HubDialled = (\<lambda>d. d\<lparr>d_online := False, d_welcomed := False\<rparr>)"

abbreviation daemon_run :: "devent list \<Rightarrow> daemon \<Rightarrow> daemon" where
  "daemon_run es \<equiv> fold daemon_step es"

text \<open>What the hub must keep to: a paired message names the peer.\<close>

primrec devent_ok :: "devent \<Rightarrow> bool" where
  "devent_ok (HubMsg env m) = msg_ok m"
| "devent_ok (Command env es req) = list_all (\<lambda>b. b) (map devent_ok es)"
| "devent_ok (Accepted env ess es es' h) =
     (list_all (list_all (\<lambda>b. b)) (map (map devent_ok) ess) \<and> list_all (\<lambda>b. b) (map devent_ok es) \<and>
      list_all (\<lambda>b. b) (map devent_ok es'))"
| "devent_ok (PumpTurn env cid t k r) = True"
| "devent_ok (RefreshTry env es n) = list_all (\<lambda>b. b) (map devent_ok es)"
| "devent_ok (WatchTick env ord) = True"
| "devent_ok (HubWrite ok) = True"
| "devent_ok HubDialled = True"

lemma seq_map: "seq (map f xs) = fold f xs"
  by (rule ext) (simp add: seq_def fold_map comp_def)

lemma fair_seq: "\<forall>f\<in>set fs. fair f \<Longrightarrow> fair (seq fs)"
  using fair_fold [of fs "\<lambda>f. f"] by (simp add: seq_def [abs_def])

lemma fair_step: "devent_ok e \<Longrightarrow> fair (daemon_step e)"
proof (induction e)
  case (HubMsg env m)
  then show ?case by (simp add: fair_handleHubMsg)
next
  case (Command env es req)
  then have "fair (seq (map daemon_step es))" by (intro fair_seq) (auto simp: list_all_iff)
  then show ?case by (auto intro: fairI keeps_execControl)
next
  case (Accepted env ess es es' h)
  then have "fair (seq (map daemon_step es))" "fair (seq (map daemon_step es'))"
    "\<forall>es\<in>set ess. fair (seq (map daemon_step es))"
    by (auto intro!: fair_seq simp: list_all_iff)
  then show ?case by (simp only: daemon_step.simps, intro fairI, intro keeps_accept_conn) auto
next
  case (PumpTurn env cid t k r)
  then show ?case by (simp add: fair_pump_turn)
next
  case (RefreshTry env es n)
  then have "fair (seq (map daemon_step es))" by (intro fair_seq) (auto simp: list_all_iff)
  then show ?case by (auto intro: fairI keeps_refresh_attempt)
next
  case (WatchTick env ord)
  then show ?case by (auto intro: fairI keeps_watch_tick)
next
  case (HubWrite ok)
  then show ?case by (auto intro!: fair_core simp: same_core_def hub_write_def split: list.split)
next
  case HubDialled
  then show ?case by (auto intro!: fair_core simp: same_core_def)
qed

interpretation dm: event_machine daemon_step devent_ok daemon_inv
  by unfold_locales (use fair_step in \<open>simp add: fair_def\<close>)

end
