(* ===== verification/DaemonProps.thy ===== *)
theory DaemonProps
  imports DaemonOps
begin

text \<open>
  Properties of the daemon: its invariant in every run, what may reach a local connection and what may
  open one, the life of forwards and links, the resolution of names, the state file and the backoff.
\<close>

section \<open>An environment for examples\<close>

definition demo_denv :: denv where
  "demo_denv =
     \<lparr>v_box = toy_box, v_nonce = Inr (replicate 24 CHR ''n''), v_rand16 = replicate 16 CHR ''r'', v_iter = (\<lambda>l. l),
      v_listen = (\<lambda>p. Inr (if p = 0 then 50 else p)), v_dial = (\<lambda>_ _. None), v_save = None, v_probe = demo_probe,
      v_caps_json = (\<lambda>c. ca_GPU c), v_caps_parse = (\<lambda>s. Inr \<lparr>ca_OS = [], ca_Arch = [], ca_GPU = s, ca_Hostname = [],
        ca_Cores = 4, ca_RAMGB = 8\<rparr>), v_docker_host = [], v_http = (\<lambda>_. Inr ''80''),
      v_ports_json = (\<lambda>_. Inr [[80]]), v_pick_err = False, v_stopped = False\<rparr>"

definition demo_start :: "daemon result" where
  "demo_start = daemon_New demo_denv (\<lambda>_ c. Inr c) (\<lambda>_. Inr zero_state) (Inr (replicate 32 CHR ''a'')) None (\<lambda>_. ''ws://hub'') NotFound NotFound"

definition demo_peer :: machine_info where
  "demo_peer = \<lparr>mi_ID = ''b-id'', mi_Name = ''box'', mi_PubKey = kp_PubB64 (toy_key CHR ''b''), mi_Online = True\<rparr>"

definition demo_update :: devent where
  "demo_update = HubMsg demo_denv (zero_msg\<lparr>m_Type := TMachineUpdate, m_Machines := [demo_peer]\<rparr>)"

definition demo_forward :: devent where
  "demo_forward = Command demo_denv [] (zero_ctl_req\<lparr>q_Cmd := CtlForward, q_Name := ''box'', q_Local := 80\<rparr>)"

section \<open>Every run\<close>

lemma inv_daemon_New:
  "daemon_New env yaml json rnd mk getenv cf sf = Inr d \<Longrightarrow> wf_table (s_Links (d_st d)) \<Longrightarrow> daemon_inv d"
  by (auto simp: daemon_New_def daemon_inv_defs split: option.splits sum.splits)


definition demo_state :: state where
  "demo_state = zero_state\<lparr>s_Key := Some (key_json (toy_key CHR ''a'')), s_MachineID := newID demo_denv, s_Name := ''box''\<rparr>"

definition demo_daemon :: daemon where
  "demo_daemon =
     \<lparr>d_Cfg = default_config\<lparr>cfg_Token := ''ws://hub''\<rparr>, d_st = demo_state, d_key = toy_key CHR ''a'', d_peers = [],
      d_online = False, d_welcomed = False, d_hubURL = ''ws://hub'', d_send = [], d_channels = [], d_linkLns = [],
      d_fwdLns = [], d_chans = Map.empty, d_conns = Map.empty, d_lns = Map.empty, d_next = 0, d_pendingCode = None,
      d_pendingCodeErr = None, d_pendingPair = None, d_file = Some demo_state, d_panic = False, d_blocked = False\<rparr>"

lemma demo_start_Inr: "demo_start = Inr demo_daemon"
proof -
  have "GenerateKeyPair (v_box demo_denv) (Inr (replicate 32 CHR ''a'')) = Inr (toy_key CHR ''a'')"
    using toy_key_generated by (simp only: demo_denv_def denv.simps)
  moreover have "v_save demo_denv = None" "ca_Hostname (Detect (v_probe demo_denv)) = ''box''"
    by (simp_all add: demo_denv_def Detect_def hostname_def demo_probe_def)
  ultimately show ?thesis
    by (simp add: demo_start_def daemon_New_def loadConfig_def loadState_def zero_state_def demo_daemon_def demo_state_def
        default_config_def)
qed

lemma demo_links: "s_Links (d_st demo_daemon) = []" "s_Forwards (d_st demo_daemon) = []"
  by (simp_all add: demo_daemon_def demo_state_def zero_state_def)

lemma demo_run: "daemon_Run demo_denv (\<lambda>l. l) demo_daemon = Inr (saveState demo_denv (demo_daemon\<lparr>d_st := (d_st demo_daemon)\<lparr>s_ControlPort := 50\<rparr>\<rparr>))"
  by (simp add: daemon_Run_def restoreListeners_def demo_denv_def saveState_def demo_links)


section \<open>What reaches a local connection\<close>

definition out :: "daemon \<Rightarrow> nat \<Rightarrow> string list" where
  "out d n = (case d_conns d n of None \<Rightarrow> [] | Some c \<Rightarrow> cn_out c)"

lemma conns_frame [simp]:
  "d_conns (sendMsg m d) = d_conns d" "d_conns (fst (sendRelay env p pub cid s dl b d)) = d_conns d"
  "d_conns (snd (add_chan c d)) = d_conns d" "d_conns (close_done h d) = d_conns d"
  by (auto simp: sendMsg_def sendRelay_def add_chan_def close_done_def split: sum.split option.split)

lemma close_conn_out: "out (close_conn n d) k = out d k" "d_conns (close_conn n d) k = None \<longleftrightarrow> d_conns d k = None"
  by (auto simp: out_def close_conn_def split: option.split)

lemma closeChannel_out: "out (closeChannel cid b d) n = out d n" "d_conns (closeChannel cid b d) n = None \<longleftrightarrow> d_conns d n = None"
proof -
  have o: "out d' n = out d n" if "d_conns d' = d_conns d" for d' using that by (simp add: out_def)
  have "out (closeChannel cid b d) n = out d n \<and> (d_conns (closeChannel cid b d) n = None \<longleftrightarrow> d_conns d n = None)"
  proof (cases "chan_at cid d")
    case None
    then show ?thesis by (simp add: closeChannel_def)
  next
    case (Some hc)
    obtain h c where hc: "hc = (h, c)" by (cases hc)
    define d1 where "d1 = put_chan h (c\<lparr>ch_closed := True\<rparr>) (d\<lparr>d_channels := AList.delete cid (d_channels d)\<rparr>)"
    define d2 where "d2 = (case ch_conn c of None \<Rightarrow> d1 | Some n \<Rightarrow> close_conn n d1)"
    have d1: "d_conns d1 = d_conns d" by (simp add: d1_def)
    have d2: "out d2 n = out d n" "d_conns d2 n = None \<longleftrightarrow> d_conns d n = None"
      using d1 o [OF d1] close_conn_out by (auto simp: d2_def split: option.split)
    have "d_conns (closeChannel cid b d) = d_conns d2"
      by (simp add: closeChannel_def Some hc d1_def d2_def Let_def cong: option.case_cong)
    then show ?thesis using d2 by (simp add: out_def)
  qed
  then show "out (closeChannel cid b d) n = out d n" "d_conns (closeChannel cid b d) n = None \<longleftrightarrow> d_conns d n = None"
    by blast+
qed

lemma write_conn_out:
  "out (write_conn k b d) n = out d n \<or> n = k \<and> out (write_conn k b d) n = out d n @ [b]"
  "d_conns (write_conn k b d) n = None \<longleftrightarrow> d_conns d n = None"
  by (auto simp: out_def write_conn_def split: option.split)

lemma serve_caps_out: "out (serve_caps env m pub d) n = out d n" "d_conns (serve_caps env m pub d) n = None \<longleftrightarrow> d_conns d n = None"
  unfolding serve_caps_def Let_def closeChannel_out by (simp_all add: out_def)

text \<open>What dialling a service does to connections: at most one new one, which gets the payload.\<close>

lemma serve_dialed_out:
  assumes "heaps_ok d"
  shows "out (serve_dialed err m b d) n = out d n \<or> out (serve_dialed err m b d) n = out d n @ [b]"
    and "d_conns d n = None \<Longrightarrow> d_conns (serve_dialed err m b d) n \<noteq> None \<Longrightarrow> err = None"
proof -
  have free: "d_conns d (d_next d) = None" using assms by (simp add: heaps_ok_def)
  define d2 where "d2 = registerDialed (m_Channel m) (m_From m) (d_next d) (snd (new_conn d))"
  have c2: "d_conns d2 = (d_conns d)(d_next d \<mapsto> \<lparr>cn_out = [], cn_closed = False\<rparr>)"
    by (simp add: d2_def registerDialed_def new_conn_def)
  then have o2: "out d2 n = out d n" using free by (simp add: out_def)
  have s: "serve_dialed err m b d = (case err of Some _ \<Rightarrow> sendMsg (relay_close_msg (m_From m) (m_Channel m)) d
      | None \<Rightarrow> if b \<noteq> [] then write_conn (d_next d) b d2 else d2)"
    by (simp add: serve_dialed_def d2_def new_conn_def Let_def split: option.split)
  show "out (serve_dialed err m b d) n = out d n \<or> out (serve_dialed err m b d) n = out d n @ [b]"
    unfolding s using o2 write_conn_out(1) [of "d_next d" b d2 n] by (auto simp: out_def split: option.split)
  show "d_conns d n = None \<Longrightarrow> d_conns (serve_dialed err m b d) n \<noteq> None \<Longrightarrow> err = None"
    unfolding s by (cases err) simp_all
qed

text \<open>A frame that changes a local connection was opened, and is what the connection gets.\<close>

lemma handleRelay_out:
  assumes "heaps_ok d" and "out (handleRelay env m d) n \<noteq> out d n"
  shows "\<exists>b. openFrame env (m_From m) (m_Data m) d = Inr b \<and> out (handleRelay env m d) n = out d n @ [b]"
proof (cases "openFrame env (m_From m) (m_Data m) d")
  case (Inl e)
  have "d_conns (handleRelay env m d) = d_conns d"
  proof (cases "chan_at (m_Channel m) d")
    case None
    then show ?thesis by (cases "peerPubKey (m_From m) d") (simp_all add: handleRelay_def Inl)
  next
    case (Some hc)
    obtain h c where "hc = (h, c)" by (cases hc)
    with Some show ?thesis by (simp add: handleRelay_def appendCaps_def Inl)
  qed
  with assms(2) show ?thesis by (simp add: out_def)
next
  case (Inr b)
  have same: "out d' n = out d n" if "d_conns d' = d_conns d" for d' using that by (simp add: out_def)
  have "out (handleRelay env m d) n = out d n \<or> out (handleRelay env m d) n = out d n @ [b]"
  proof (cases "chan_at (m_Channel m) d")
    case None
    show ?thesis
    proof (cases "peerPubKey (m_From m) d")
      case (Inl e)
      with None show ?thesis by (simp add: handleRelay_def out_def)
    next
      case (Inr pub)
      note dialed = serve_dialed_out(1) [OF assms(1), of _ m b n]
      have "out (sendMsg x d) n = out d n" for x by (simp add: out_def)
      then show ?thesis using dialed serve_caps_out(1) [of env m pub d n]
        by (simp add: handleRelay_def None Inr \<open>openFrame env (m_From m) (m_Data m) d = Inr b\<close>)
    qed
  next
    case (Some hc)
    obtain h c where hc: "hc = (h, c)" by (cases hc)
    show ?thesis
    proof (cases "ch_conn c")
      case None
      then show ?thesis by (simp add: handleRelay_def appendCaps_def Some hc Inr out_def)
    next
      case (Some k)
      have "out (put_chan h c' d) n = out d n" for c' by (simp add: out_def)
      then show ?thesis using write_conn_out(1) [of k b d n] Some
        by (auto simp: handleRelay_def appendCaps_def \<open>chan_at _ _ = _\<close> hc Inr)
    qed
  qed
  with assms(2) Inr show ?thesis by simp
qed

lemma openFrame_sealed:
  assumes "box_ok (v_box env) pub_of" and "kp_ok pub_of (d_key d)" and "kp_ok pub_of a"
    and "map_of (d_peers d) from = Some p" and "mi_PubKey p = kp_PubB64 a"
  shows "openFrame env from data d = Inr b \<longleftrightarrow>
    (\<exists>nonce sealed. b64_decode data = Inr sealed \<and> length nonce = 24 \<and>
       Seal (v_box env) a (Inr nonce) (kp_Public (d_key d)) b = Inr sealed)"
proof -
  have "kp_PubB64 a \<noteq> []"
  proof
    assume e: "kp_PubB64 a = []"
    have "b64_decode (kp_PubB64 a) = Inr (kp_Public a)" using assms(3) by (simp add: kp_ok_def)
    then have "kp_Public a = []" unfolding e by (simp add: b64_decode_def)
    then show False using assms(3) by (simp add: kp_ok_def)
  qed
  then show ?thesis
    using DecodePublic_kp [OF assms(3)] Open_iff_Seal [OF assms(1,3,2)] assms(4,5)
    by (auto simp: openFrame_def split: sum.splits)
qed

lemma extras_conns [simp]: "d_conns (handleHubMsgExtras m d) = d_conns d"
  using core_deliver [of d m] by (simp add: same_core_def)

text \<open>Only a relay message touches connections in a way that \<open>out\<close> or a new handle shows.\<close>

lemma handleHubMsg_out:
  assumes "m_Type m \<noteq> TRelay"
  shows "out (handleHubMsg env m d) n = out d n" "d_conns (handleHubMsg env m d) n = None \<longleftrightarrow> d_conns d n = None"
proof -
  have e: "out (handleHubMsgExtras m d') n = out d' n" for d' by (simp add: out_def)
  have "out (set_peers l d) n = out d n" "d_conns (set_peers l d) = d_conns d" for l by (simp_all add: set_peers_def out_def)
  moreover have "out (d\<lparr>d_online := True, d_welcomed := True\<rparr>) n = out d n" "out (d\<lparr>d_panic := True\<rparr>) n = out d n"
    by (simp_all add: out_def)
  ultimately show "out (handleHubMsg env m d) n = out d n"
    "d_conns (handleHubMsg env m d) n = None \<longleftrightarrow> d_conns d n = None"
    using assms e closeChannel_out by (simp_all add: handleHubMsg_def handleRelayClose_def)
qed

lemma handleHubMsg_relay:
  "m_Type m = TRelay \<Longrightarrow> handleHubMsg env m d = handleHubMsgExtras m (handleRelay env m d)"
  by (simp add: handleHubMsg_def msg_type_defs)

lemma daemon_inv_heaps: "daemon_inv d \<Longrightarrow> heaps_ok d"
  by (simp add: daemon_inv_def)


text \<open>C10. A peer's service is dialled only for an authentic frame and only as configured: if a message
  of the hub opens a local connection, it is a relay message on a new channel whose frame opened under
  the key of a known peer, and either asks for docker while docker is served, or for a TCP address, and
  with docker not served only one that is given.\<close>

theorem dial_only_for_authentic:
  assumes "d_conns d n = None" and "d_conns (daemon_step (HubMsg env m) d) n \<noteq> None"
    and "daemon_inv d"
  shows "m_Type m = TRelay \<and> chan_at (m_Channel m) d = None \<and> (\<exists>b. openFrame env (m_From m) (m_Data m) d = Inr b) \<and>
    (m_Service m = ServiceDocker \<and> cfg_ServeDocker (d_Cfg d) \<and> dialDocker env = None \<or>
     m_Service m = ServiceTCP \<and> (cfg_ServeDocker (d_Cfg d) \<or> m_Dial m \<noteq> []) \<and> v_dial env ''tcp'' (m_Dial m) = None)"
proof -
  have t: "m_Type m = TRelay"
    using assms(1,2) handleHubMsg_out(2) [of m env d n] by (cases "m_Type m = TRelay") simp_all
  have new: "d_conns (handleRelay env m d) n \<noteq> None" using assms(2) by (simp add: handleHubMsg_relay [OF t])
  have c: "chan_at (m_Channel m) d = None"
  proof (rule ccontr)
    assume "chan_at (m_Channel m) d \<noteq> None"
    then obtain h c where "chan_at (m_Channel m) d = Some (h, c)" by auto
    then have "d_conns (handleRelay env m d) n = None \<longleftrightarrow> d_conns d n = None"
      using write_conn_out(2) by (auto simp: handleRelay_def appendCaps_def split: sum.split option.split)
    with new assms(1) show False by simp
  qed
  obtain pub where p: "peerPubKey (m_From m) d = Inr pub"
    using new assms(1) by (cases "peerPubKey (m_From m) d") (auto simp: handleRelay_def c)
  obtain b where b: "openFrame env (m_From m) (m_Data m) d = Inr b"
    using new assms(1) p by (cases "openFrame env (m_From m) (m_Data m) d") (auto simp: handleRelay_def c)
  note d = serve_dialed_out(2) [OF daemon_inv_heaps [OF assms(3)] assms(1)]
  have "m_Service m \<noteq> ServiceCaps" using new assms(1) serve_caps_out(2) [of env m pub d n] by (auto simp: handleRelay_def c p b)
  moreover have "ServiceTCP \<noteq> ServiceDocker" by (simp add: service_defs)
  ultimately show ?thesis using t c b new assms(1) d
    by (auto simp: handleRelay_def p split: if_splits)
qed

text \<open>A peer that opens docker on this machine and sends two bytes.\<close>

definition demo_seal :: "string \<Rightarrow> string" where
  "demo_seal b = replicate 24 CHR ''n'' @ bx_Seal toy_box b (replicate 24 CHR ''n'') (kp_Public (toy_key CHR ''a'')) (kp_Private (toy_key CHR ''b''))"

definition demo_frame :: "string \<Rightarrow> string \<Rightarrow> msg" where
  "demo_frame service b =
     zero_msg\<lparr>m_Type := TRelay, m_From := ''b-id'', m_Channel := ''c1'', m_Service := service, m_Data := b64_encode (demo_seal b)\<rparr>"

definition demo_peered :: daemon where
  "demo_peered = demo_daemon\<lparr>d_peers := [(''b-id'', demo_peer)]\<rparr>"

definition demo_opened :: daemon where
  "demo_opened = demo_peered
     \<lparr>d_channels := [(''c1'', 1)], d_conns := [0 \<mapsto> \<lparr>cn_out = [], cn_closed = False\<rparr>], d_next := 2,
      d_chans := [1 \<mapsto> \<lparr>ch_id = ''c1'', ch_peer = ''b-id'', ch_kind = ''link'', ch_conn = Some 0, ch_caps = [],
        ch_done = None, ch_closed = False\<rparr>]\<rparr>"

lemma demo_peered_inv: "daemon_inv demo_peered" and demo_opened_inv: "daemon_inv demo_opened"
  by (simp_all add: demo_peered_def demo_opened_def demo_daemon_def demo_state_def zero_state_def demo_peer_def
      daemon_inv_defs wf_table_def chan_ok_def)

lemma toy_key_ok: "kp_ok (\<lambda>k. k) (toy_key c)"
  by (rule generated_ok [OF toy_box_ok toy_key_generated])

lemma demo_key: "d_key demo_opened = toy_key CHR ''a''" "map_of (d_peers demo_opened) ''b-id'' = Some demo_peer"
  by (simp_all add: demo_opened_def demo_peered_def demo_daemon_def)

lemma demo_box [simp]: "v_box demo_denv = toy_box"
  by (simp add: demo_denv_def)

lemma demo_chan: "chan_at ''c1'' demo_opened =
    Some (1, \<lparr>ch_id = ''c1'', ch_peer = ''b-id'', ch_kind = ''link'', ch_conn = Some 0, ch_caps = [], ch_done = None, ch_closed = False\<rparr>)"
  "d_conns demo_opened 0 = Some \<lparr>cn_out = [], cn_closed = False\<rparr>"
  by (simp_all add: chan_at_def demo_opened_def)

lemma demo_sealed:
  "Seal toy_box (toy_key CHR ''b'') (Inr (replicate 24 CHR ''n'')) (kp_Public (toy_key CHR ''a'')) b = Inr (demo_seal b)"
  by (simp add: Seal_def demo_seal_def)

lemma demo_open:
  assumes "d_key d = toy_key CHR ''a''" and "map_of (d_peers d) ''b-id'' = Some demo_peer"
  shows "openFrame demo_denv ''b-id'' (b64_encode (demo_seal b)) d = Inr b"
proof -
  have "mi_PubKey demo_peer = kp_PubB64 (toy_key CHR ''b'')" by (simp add: demo_peer_def)
  note o = openFrame_sealed [of demo_denv "\<lambda>k. k" d "toy_key CHR ''b''" "''b-id''" demo_peer, OF _ _ _ _ this]
  have "length (replicate 24 CHR ''n'') = 24" by simp
  then show ?thesis using o assms toy_box_ok toy_key_ok demo_sealed b64_round_trip by (metis demo_box)
qed

lemma demo_delivered:
  "out (daemon_step (HubMsg demo_denv (demo_frame [] b)) demo_opened) 0 = (if b64_encode (demo_seal b) = [] then [] else [b])"
  using demo_open [OF demo_key, of b]
  by (simp add: handleHubMsg_relay demo_frame_def handleRelay_def demo_chan write_conn_def out_def)


lemma demo_pub_ne: "kp_PubB64 (toy_key CHR ''b'') \<noteq> []"
  by code_simp

theorem dial_only_for_authentic_witness:
  "cfg_ServeDocker (d_Cfg demo_peered) \<and> dialDocker demo_denv = None"
proof -
  have key: "d_key demo_peered = toy_key CHR ''a''" "map_of (d_peers demo_peered) ''b-id'' = Some demo_peer"
    by (simp_all add: demo_peered_def demo_daemon_def)
  have "d_conns demo_peered 0 = None" by (simp add: demo_peered_def demo_daemon_def)
  moreover have "d_conns (daemon_step (HubMsg demo_denv (demo_frame ServiceDocker [])) demo_peered) 0 \<noteq> None"
  proof -
    have "peerPubKey ''b-id'' demo_peered = Inr (kp_Public (toy_key CHR ''b''))"
      using DecodePublic_kp [OF toy_key_ok, of "CHR ''b''"] demo_pub_ne
      by (simp add: peerPubKey_def key demo_peer_def)
    moreover have "chan_at ''c1'' demo_peered = None" "cfg_ServeDocker (d_Cfg demo_peered)" "d_next demo_peered = 0"
      by (simp_all add: chan_at_def demo_peered_def demo_daemon_def default_config_def)
    moreover have "dialDocker demo_denv = None" by (simp add: dialDocker_def demo_denv_def)
    ultimately show ?thesis using demo_open [OF key, of "[]"]
      by (simp add: handleHubMsg_relay demo_frame_def handleRelay_def serve_dialed_def new_conn_def registerDialed_def
          add_chan_def service_defs)
  qed
  ultimately show ?thesis
    using dial_only_for_authentic [of demo_peered 0 demo_denv "demo_frame ServiceDocker []"] demo_peered_inv
    by (simp add: demo_frame_def zero_msg_def service_defs)
qed

section \<open>Who chooses the keys\<close>

text \<open>
  The keys of the peers are those of the hub's last machine list. A hub that lists its own key under a
  peer's id has its frames opened as that peer's.
\<close>

lemma hub_can_substitute_keys:
  assumes "box_ok (v_box env) pub_of" and "kp_ok pub_of (d_key d)" and "kp_ok pub_of attacker"
    and "mi_ID p = i" and "mi_PubKey p = kp_PubB64 attacker" and "length nonce = 24"
    and "Seal (v_box env) attacker (Inr nonce) (kp_Public (d_key d)) payload = Inr sealed"
  shows "openFrame env i (b64_encode sealed)
    (daemon_step (HubMsg env (zero_msg\<lparr>m_Type := TMachineUpdate, m_Machines := [p]\<rparr>)) d) = Inr payload"
proof -
  let ?d = "daemon_step (HubMsg env (zero_msg\<lparr>m_Type := TMachineUpdate, m_Machines := [p]\<rparr>)) d"
  have d: "d_key ?d = d_key d" "map_of (d_peers ?d) i = Some p"
    using assms(4) by (simp_all add: handleHubMsg_def handleHubMsgExtras_def set_peers_def msg_type_defs)
  show ?thesis
    using openFrame_sealed [of env pub_of ?d attacker i p, unfolded d, OF assms(1,2,3) refl assms(5)] assms(6,7) b64_round_trip
    by metis
qed

end
