(* ===== verification/DaemonLife.thy ===== *)
theory DaemonLife
  imports DaemonProps
begin

text \<open>
  The life of what the daemon keeps: a forward from its start to its end, the automatic end of forwards
  of containers that are gone, the machine's identity across restarts, the reconnect loop.
\<close>

section \<open>Forwards\<close>

lemma saveState_frame [simp]:
  "d_st (saveState env d) = d_st d" "d_fwdLns (saveState env d) = d_fwdLns d" "d_lns (saveState env d) = d_lns d"
  "d_linkLns (saveState env d) = d_linkLns d" "d_peers (saveState env d) = d_peers d"
  by (simp_all add: saveState_def split: option.split)

lemma set_ln_frame [simp]:
  "d_st (set_ln h f d) = d_st d" "d_fwdLns (set_ln h f d) = d_fwdLns d" "d_linkLns (set_ln h f d) = d_linkLns d"
  "d_peers (set_ln h f d) = d_peers d" "d_lns (set_ln h f d) = (d_lns d)(h := map_option f (d_lns d h))"
  by (simp_all add: set_ln_def)

lemmas ln_defs = serve_ln_def close_ln_def

text \<open>What a successful \<open>EnsureForward\<close> did.\<close>

lemma EnsureForward_done:
  assumes "EnsureForward env name l r auto d = (d1, None)"
  obtains p port where "resolvePeer env name d = Inr p" and "v_listen env l = Inr port"
    and "map_of (d_fwdLns d) l = None" and "0 < l" "l \<le> 65535" "0 < r" "r \<le> 65535"
    and "d_fwdLns d1 = AList.update l (d_next d) (d_fwdLns d)"
    and "s_Forwards (d_st d1) = s_Forwards (d_st d) @ [\<lparr>f_Local = l, f_Remote = r, f_Machine = mi_Name p, f_Auto = auto\<rparr>]"
    and "d_lns d1 = (d_lns d)(d_next d \<mapsto> \<lparr>ln_port = port, ln_open = True, ln_serves = Some (ToPeer (mi_ID p) ServiceTCP (loopback r))\<rparr>)"
proof -
  have b: "\<not> (l \<le> 0 \<or> l > 65535 \<or> r \<le> 0 \<or> r > 65535)" using assms by (auto simp: EnsureForward_def)
  then obtain p where p: "resolvePeer env name d = Inr p"
    using assms by (cases "resolvePeer env name d") (simp_all add: EnsureForward_def)
  then have f: "map_of (d_fwdLns d) l = None" using assms b by (auto simp: EnsureForward_def split: if_splits)
  then obtain port where port: "v_listen env l = Inr port"
    using assms b p by (cases "v_listen env l") (auto simp: EnsureForward_def listen_def)
  show thesis
    using assms b unfolding EnsureForward_def p listen_def port
    by (intro that [OF p port f]) (auto simp: f ln_defs)
qed

lemma StopForward_frame:
  "s_Forwards (d_st (fst (StopForward env l d))) = filter (\<lambda>f. f_Local f \<noteq> l) (s_Forwards (d_st d))"
  "d_fwdLns (fst (StopForward env l d)) = AList.delete l (d_fwdLns d)"
  "s_Links (d_st (fst (StopForward env l d))) = s_Links (d_st d)"
  "d_lns (fst (StopForward env l d)) = (case map_of (d_fwdLns d) l of None \<Rightarrow> d_lns d
     | Some h \<Rightarrow> (d_lns d)(h := map_option (\<lambda>x. x\<lparr>ln_open := False\<rparr>) (d_lns d h)))"
  by (simp_all add: StopForward_def ln_defs Let_def split: option.split)

text \<open>C18. The life of a forward: when it was opened, its port has an open listener that serves the
  resolved machine's loopback port and the state lists it; opening the port again is refused and changes
  nothing; stopping it succeeds, closes the listener, frees the port and leaves the other forwards as
  they were.\<close>

theorem forward_life:
  assumes "EnsureForward env name l r auto d = (d1, None)"
  shows "\<exists>p port h. resolvePeer env name d = Inr p \<and> v_listen env l = Inr port \<and> map_of (d_fwdLns d1) l = Some h \<and>
    d_lns d1 h = Some \<lparr>ln_port = port, ln_open = True, ln_serves = Some (ToPeer (mi_ID p) ServiceTCP (loopback r))\<rparr> \<and>
    \<lparr>f_Local = l, f_Remote = r, f_Machine = mi_Name p, f_Auto = auto\<rparr> \<in> set (s_Forwards (d_st d1)) \<and>
    (\<forall>env' name' r' auto'. \<exists>e. EnsureForward env' name' l r' auto' d1 = (d1, Some e)) \<and>
    (let d2 = fst (StopForward env' l d1)
     in snd (StopForward env' l d1) = None \<and> map_option ln_open (d_lns d2 h) = Some False \<and>
        map_of (d_fwdLns d2) = map_of (d_fwdLns d) \<and>
        s_Forwards (d_st d2) = filter (\<lambda>f. f_Local f \<noteq> l) (s_Forwards (d_st d)))"
proof -
  obtain p port where e: "resolvePeer env name d = Inr p" "v_listen env l = Inr port"
    "map_of (d_fwdLns d) l = None" "0 < l" "l \<le> 65535" "0 < r" "r \<le> 65535"
    "d_fwdLns d1 = AList.update l (d_next d) (d_fwdLns d)"
    "s_Forwards (d_st d1) = s_Forwards (d_st d) @ [\<lparr>f_Local = l, f_Remote = r, f_Machine = mi_Name p, f_Auto = auto\<rparr>]"
    "d_lns d1 = (d_lns d)(d_next d \<mapsto> \<lparr>ln_port = port, ln_open = True, ln_serves = Some (ToPeer (mi_ID p) ServiceTCP (loopback r))\<rparr>)"
    by (rule EnsureForward_done [OF assms])
  have again: "\<exists>e. EnsureForward env' name' l r' auto' d1 = (d1, Some e)" for env' name' r' auto'
    using e(8) by (auto simp: EnsureForward_def split: sum.split)
  have "map_of (d_fwdLns (fst (StopForward env' l d1))) = map_of (d_fwdLns d)"
    using e(3) by (auto simp: StopForward_frame e(8))
  moreover have "snd (StopForward env' l d1) = None" by (simp add: StopForward_def Let_def e(8,10))
  ultimately show ?thesis
    using e again by (intro exI [of _ p] exI [of _ port] exI [of _ "d_next d"]) (simp add: StopForward_frame Let_def)
qed

theorem forward_life_witness:
  "snd (StopForward demo_denv 80 (fst (EnsureForward demo_denv ''box'' 80 8 False demo_peered))) = None"
proof -
  have "\<exists>d1. EnsureForward demo_denv ''box'' 80 8 False demo_peered = (d1, None)"
    by (simp add: EnsureForward_def resolvePeer_def named_peers_def online_result_def requireOnline_def listen_def
        demo_peered_def demo_daemon_def demo_peer_def demo_denv_def)
  then obtain d1 where d1: "EnsureForward demo_denv ''box'' 80 8 False demo_peered = (d1, None)" ..
  show ?thesis using forward_life [OF d1, of demo_denv] by (simp add: d1 Let_def) blast
qed

section \<open>Forwards that end with their container\<close>

definition stop_all :: "denv \<Rightarrow> int list \<Rightarrow> daemon \<Rightarrow> daemon" where
  "stop_all env ports d = fold (\<lambda>p d. fst (StopForward env p d)) ports d"

lemma stop_all_frame:
  "s_Forwards (d_st (stop_all env ports d)) = filter (\<lambda>f. f_Local f \<notin> set ports) (s_Forwards (d_st d))"
  "map_of (d_fwdLns (stop_all env ports d)) q = (if q \<in> set ports then None else map_of (d_fwdLns d) q)"
  "s_Links (d_st (stop_all env ports d)) = s_Links (d_st d)"
proof (induction ports arbitrary: d)
  case (Cons p ports)
  {
    case 1
    have "filter (\<lambda>f. f_Local f \<notin> set ports) (filter (\<lambda>f. f_Local f \<noteq> p) fs) =
        filter (\<lambda>f. f_Local f \<notin> set (p # ports)) fs" for fs :: "forward_info list"
      by (induction fs) auto
    then show ?case using Cons(1) by (simp add: stop_all_def StopForward_frame)
  next
    case 2
    then show ?case using Cons(2) by (simp add: stop_all_def StopForward_frame)
  next
    case 3
    then show ?case using Cons(3) by (simp add: stop_all_def StopForward_frame)
  }
qed (simp_all add: stop_all_def)

lemma stop_all_append: "stop_all env (ps @ qs) d = stop_all env qs (stop_all env ps d)"
  by (simp add: stop_all_def)

text \<open>A forward is dead when its machine answered and no container publishes its port.\<close>

definition dead_forward :: "denv \<Rightarrow> daemon \<Rightarrow> forward_info \<Rightarrow> bool" where
  "dead_forward env d f \<longleftrightarrow>
     f_Auto f \<and> (case containerPublicPorts env (f_Machine f) d of Inl _ \<Rightarrow> False | Inr live \<Rightarrow> f_Remote f \<notin> set live)"

lemma ports_links: "s_Links (d_st d') = s_Links (d_st d) \<Longrightarrow> containerPublicPorts env m d' = containerPublicPorts env m d"
  by (simp add: containerPublicPorts_def)

definition dead_ports :: "denv \<Rightarrow> daemon \<Rightarrow> forward_info list \<Rightarrow> string \<Rightarrow> int list" where
  "dead_ports env d autos m = map f_Local (filter (\<lambda>f. f_Machine f = m \<and> dead_forward env d f) autos)"

lemma fold_stop_all:
  "fold (\<lambda>f d. if P f then d else fst (StopForward env (f_Local f) d)) fs d = stop_all env (map f_Local (filter (\<lambda>f. \<not> P f) fs)) d"
  by (induction fs arbitrary: d) (simp_all add: stop_all_def)

lemma watch_machine_stops:
  assumes "\<forall>f\<in>set autos. f_Auto f" and "s_Links (d_st d') = s_Links (d_st d)"
  shows "watch_machine env autos m d' = stop_all env (dead_ports env d autos m) d'"
proof (cases "containerPublicPorts env m d")
  case (Inl e)
  then have "filter (\<lambda>f. f_Machine f = m \<and> dead_forward env d f) autos = []"
    by (auto simp: filter_empty_conv dead_forward_def)
  with Inl show ?thesis by (simp add: watch_machine_def ports_links [OF assms(2)] dead_ports_def stop_all_def)
next
  case (Inr live)
  have "filter (\<lambda>f. \<not> f_Remote f \<in> set live) (filter (\<lambda>f. f_Machine f = m) autos) =
      filter (\<lambda>f. f_Machine f = m \<and> dead_forward env d f) autos"
    unfolding filter_filter using assms(1) Inr by (intro filter_cong) (auto simp: dead_forward_def)
  with Inr show ?thesis
    by (simp only: watch_machine_def ports_links [OF assms(2)] sum.case fold_stop_all dead_ports_def)
qed

lemma watch_machines_stop:
  assumes "\<forall>f\<in>set autos. f_Auto f"
  shows "s_Links (d_st d') = s_Links (d_st d) \<Longrightarrow>
    fold (watch_machine env autos) ms d' = stop_all env (concat (map (dead_ports env d autos) ms)) d'"
proof (induction ms arbitrary: d')
  case (Cons m ms)
  have "s_Links (d_st (stop_all env (dead_ports env d autos m) d')) = s_Links (d_st d)"
    using Cons.prems by (simp add: stop_all_frame)
  then show ?case using Cons.IH watch_machine_stops [OF assms Cons.prems] by (simp add: stop_all_append)
qed (simp add: stop_all_def)

lemma inj_on_locals: "distinct (map f_Local fs) \<Longrightarrow> f \<in> set fs \<Longrightarrow> g \<in> set fs \<Longrightarrow> f_Local f = f_Local g \<Longrightarrow> f = g"
  by (auto simp: distinct_map dest: inj_onD)


definition demo_watched :: daemon where
  "demo_watched = demo_daemon\<lparr>d_st := zero_state\<lparr>
     s_Links := [(''box'', \<lparr>li_Port = 50, li_GPU = ''none'', li_Cores = 1, li_RAMGB = 1\<rparr>)],
     s_Forwards := [\<lparr>f_Local = 1, f_Remote = 80, f_Machine = ''box'', f_Auto = True\<rparr>,
                    \<lparr>f_Local = 2, f_Remote = 81, f_Machine = ''box'', f_Auto = True\<rparr>,
                    \<lparr>f_Local = 3, f_Remote = 82, f_Machine = ''box'', f_Auto = False\<rparr>]\<rparr>\<rparr>"


section \<open>Reconnecting\<close>

text \<open>No message of the hub changes the configured address, the state, the state file or the keys.\<close>

definition conf :: "daemon \<Rightarrow> string \<times> state \<times> state option \<times> config \<times> key_pair" where
  "conf d = (d_hubURL d, d_st d, d_file d, d_Cfg d, d_key d)"

lemma conf_frame [simp]:
  "conf (sendMsg m d) = conf d" "conf (put_chan h c d) = conf d" "conf (write_conn n b d) = conf d"
  "conf (close_conn n d) = conf d" "conf (close_done h d) = conf d" "conf (snd (add_chan c d)) = conf d"
  "conf (fst (sendRelay env p pub cid s dl b d)) = conf d" "conf (snd (new_conn d)) = conf d"
  by (auto simp: conf_def sendMsg_def put_chan_def write_conn_def close_conn_def close_done_def add_chan_def sendRelay_def new_conn_def
      split: option.split sum.split)

lemma conf_channels [simp]: "conf (d\<lparr>d_channels := t\<rparr>) = conf d"
  by (simp add: conf_def)

lemma conf_closeChannel [simp]: "conf (closeChannel cid b d) = conf d"
proof (cases "chan_at cid d")
  case (Some hc)
  then show ?thesis by (cases hc; cases "ch_conn (snd hc)") (simp_all add: closeChannel_def Let_def)
qed (simp add: closeChannel_def)

lemma conf_serve [simp]:
  "conf (serve_caps env m pub d) = conf d" "conf (serve_dialed err m b d) = conf d"
proof -
  show "conf (serve_caps env m pub d) = conf d" by (simp only: serve_caps_def Let_def conf_closeChannel conf_frame)
  have "new_conn d = (d_next d, snd (new_conn d))" by (simp add: new_conn_def)
  then show "conf (serve_dialed err m b d) = conf d"
    by (cases err) (simp_all add: serve_dialed_def registerDialed_def Let_def case_prod_beta)
qed

lemma conf_handleRelay [simp]: "conf (handleRelay env m d) = conf d"
proof (cases "chan_at (m_Channel m) d")
  case None
  then show ?thesis
    by (cases "peerPubKey (m_From m) d"; cases "openFrame env (m_From m) (m_Data m) d") (simp_all add: handleRelay_def)
next
  case (Some hc)
  then show ?thesis
    by (cases hc; cases "openFrame env (m_From m) (m_Data m) d") (simp_all add: handleRelay_def appendCaps_def split: option.split)
qed

lemma conf_handleHubMsg [simp]: "conf (handleHubMsg env m d) = conf d"
proof -
  have "conf (handleHubMsgExtras m d') = conf d'" for d'
    by (simp add: conf_def handleHubMsgExtras_def deliver_code_def deliver_code_err_def deliver_pair_def split: option.split list.split)
  moreover have "conf (set_peers l d) = conf d" "conf (d\<lparr>d_online := True, d_welcomed := True\<rparr>) = conf d"
    "conf (d\<lparr>d_panic := True\<rparr>) = conf d" for l
    by (simp_all add: conf_def set_peers_def)
  ultimately show ?thesis by (simp add: handleHubMsg_def handleRelayClose_def)
qed

lemma conf_hubReader: "conf (fst (hubReader frames d)) = conf d"
proof (induction frames arbitrary: d)
  case (Cons f frames)
  show ?case
  proof (cases f)
    case (Pair env raw)
    have "conf (fst (hubReader frames (case raw of None \<Rightarrow> d | Some m \<Rightarrow> handleHubMsg env m d))) = conf d"
      using Cons.IH by (simp split: option.split)
    with Pair show ?thesis by (simp add: case_prod_beta)
  qed
qed simp

lemma conf_connectOnce: "conf (fst (connectOnce se d)) = conf d"
proof -
  have "conf (d\<lparr>d_online := False, d_welcomed := False\<rparr>) = conf d" by (simp add: conf_def)
  then show ?thesis by (simp add: connectOnce_def conf_hubReader Let_def split: sum.split option.split)
qed

text \<open>The sessions of the loop without its waits: the state after them and which were welcomed.\<close>

fun hub_turns :: "session list \<Rightarrow> daemon \<Rightarrow> daemon \<times> bool list" where
  "hub_turns [] d = (d, [])"
| "hub_turns (se # ses) d =
     (let (d1, _, welcomed, _) = connectOnce se d; (d2, ws) = hub_turns ses d1 in (d2, welcomed # ws))"

text \<open>How many turns since the last welcome, up to and with turn \<open>i\<close>.\<close>

definition misses :: "bool list \<Rightarrow> nat \<Rightarrow> nat" where
  "misses ws i = length (takeWhile Not (rev (take (Suc i) ws)))"

definition capped :: "nat \<Rightarrow> nat" where
  "capped k = min (2 ^ k) 32"

fun backoffs :: "nat \<Rightarrow> bool list \<Rightarrow> nat list" where
  "backoffs b [] = []"
| "backoffs b (w # ws) = next_backoff w b # backoffs (next_backoff w b) ws"

lemma turns_backoffs:
  "d_hubURL d \<noteq> [] \<Longrightarrow> connect_turns ses b d = (fst (hub_turns ses d), backoffs b (snd (hub_turns ses d)))"
proof (induction ses arbitrary: b d)
  case (Cons se ses)
  obtain d1 hello welcomed err where c: "connectOnce se d = (d1, hello, welcomed, err)" by (cases "connectOnce se d") auto
  have "d_hubURL d1 \<noteq> []" using Cons.prems conf_connectOnce [of se d] c by (simp add: conf_def)
  from Cons.IH [OF this] Cons.prems show ?case by (simp add: c Let_def case_prod_beta)
qed simp

lemma next_capped: "next_backoff False (capped k) = capped (Suc k)"
proof (cases "k < 5")
  case True
  then have "k \<in> {0, 1, 2, 3, 4}" by auto
  then show ?thesis by (auto simp: next_backoff_def capped_def)
next
  case False
  then have "(2 :: nat) ^ k \<ge> 2 ^ 5" by (intro power_increasing) auto
  then show ?thesis by (simp add: next_backoff_def capped_def)
qed

lemma next_welcomed: "next_backoff True b = capped 0"
  by (simp add: next_backoff_def capped_def)

text \<open>With \<open>k\<close> misses before the first turn.\<close>

definition misses_from :: "nat \<Rightarrow> bool list \<Rightarrow> nat \<Rightarrow> nat" where
  "misses_from k ws i = (if list_all Not (take (Suc i) ws) then k + Suc i else misses ws i)"

lemma misses_Cons: "misses (w # ws) (Suc i) = (if list_all Not (take (Suc i) ws) \<and> i < length ws
    then (if w then Suc i else Suc (Suc i)) else if i < length ws then misses ws i else misses (w # ws) (Suc i))"
proof (cases "i < length ws")
  case True
  have t: "takeWhile Not (xs @ [w]) = (if list_all Not xs then xs @ (if w then [] else [w]) else takeWhile Not xs)" for xs
    by (induction xs) auto
  have "list_all Not (rev xs) = list_all Not xs" for xs by (simp add: list_all_iff)
  with True t show ?thesis by (simp add: misses_def)
qed simp

lemma misses_from_Cons:
  assumes "i < length ws"
  shows "misses_from k (w # ws) (Suc i) = misses_from (if w then 0 else Suc k) ws i"
  using assms misses_Cons [of w ws i] by (auto simp: misses_from_def)

lemma backoffs_capped:
  "i < length ws \<Longrightarrow> backoffs (capped k) ws ! i = capped (misses_from k ws i)"
proof (induction ws arbitrary: i k)
  case (Cons w ws)
  have n: "next_backoff w (capped k) = capped (if w then 0 else Suc k)"
    using next_capped next_welcomed by (cases w) simp_all
  show ?case
  proof (cases i)
    case 0
    then show ?thesis unfolding 0 backoffs.simps n by (simp add: misses_from_def misses_def)
  next
    case (Suc j)
    then show ?thesis using Cons n misses_from_Cons [of j ws k w] by simp
  qed
qed simp

lemma length_backoffs: "length (backoffs b ws) = length ws"
  by (induction ws arbitrary: b) simp_all

lemma misses_from_zero: "i < length ws \<Longrightarrow> misses_from 0 ws i = misses ws i"
  by (auto simp: misses_from_def misses_def list_all_iff takeWhile_eq_all_conv [THEN iffD2])

text \<open>C20. The daemon keeps trying: with an address configured, whatever the sessions meet, the loop makes
  every one of them in order, and waits after each at least 1 and at most 32 seconds: two to the number of
  sessions since the hub last welcomed it, capped.\<close>

theorem reconnects_with_backoff:
  assumes "d_hubURL d \<noteq> []"
  shows "fst (connectLoop ses d) = fst (hub_turns ses d) \<and> length (snd (connectLoop ses d)) = length ses \<and>
    (\<forall>i<length ses. snd (connectLoop ses d) ! i = min (2 ^ misses (snd (hub_turns ses d)) i) 32 \<and>
       1 \<le> snd (connectLoop ses d) ! i)"
proof -
  have l: "length (snd (hub_turns ses d)) = length ses"
    by (induction ses arbitrary: d) (simp_all add: case_prod_beta Let_def)
  have c: "connectLoop ses d = (fst (hub_turns ses d), backoffs (capped 0) (snd (hub_turns ses d)))"
    using turns_backoffs [OF assms] by (simp add: connectLoop_def capped_def)
  show ?thesis unfolding c using l backoffs_capped [of _ "snd (hub_turns ses d)" 0] misses_from_zero
    by (simp add: length_backoffs capped_def)
qed

definition demo_session :: session where
  "demo_session = \<lparr>se_url = Inl ''bad address'', se_dial = (\<lambda>_. None), se_hello = None, se_deadline = None,
     se_frames = [], se_end = []\<rparr>"

theorem reconnects_with_backoff_witness: "snd (connectLoop [demo_session, demo_session] demo_daemon) = [2, 4]"
proof -
  have "d_hubURL demo_daemon \<noteq> []" by (simp add: demo_daemon_def)
  moreover have f: "snd (hub_turns [demo_session, demo_session] demo_daemon) = [False, False]"
    by (simp add: connectOnce_def demo_session_def)
  moreover have "misses [False, False] 0 = 1" "misses [False, False] 1 = 2" by (simp_all add: misses_def)
  ultimately have "length ws = 2 \<and> ws ! 0 = 2 \<and> ws ! 1 = 4"
    if "ws = snd (connectLoop [demo_session, demo_session] demo_daemon)" for ws
    using reconnects_with_backoff [of demo_daemon "[demo_session, demo_session]"] unfolding that f by simp
  then show ?thesis by (auto simp: length_Suc_conv numeral_2_eq_2)
qed

section \<open>The machine's identity\<close>

lemma LoadKey_stored: "LoadKey pub priv = Inr kp \<Longrightarrow> LoadKey (kp_PubB64 kp) (kp_PrivB64 kp) = Inr kp"
  by (auto simp: LoadKey_def split: sum.splits if_splits)

lemma generated_stored:
  assumes "box_ok bx pub_of" and "GenerateKeyPair bx rnd = Inr kp"
  shows "LoadKey (kp_PubB64 kp) (kp_PrivB64 kp) = Inr kp"
  using generated_ok [OF assms] by (cases kp) (auto simp: LoadKey_def kp_ok_def)

lemma newID_not_Nil: "v_rand16 env \<noteq> [] \<Longrightarrow> newID env \<noteq> []"
  by (cases "v_rand16 env") (simp_all add: newID_def)

lemma loadState_stored:
  assumes "loadState env json rnd f = Inr (st, kp)" and "box_ok (v_box env) pub_of" and "v_rand16 env \<noteq> []"
  shows "s_Key st = Some (key_json kp) \<and> LoadKey (kp_PubB64 kp) (kp_PrivB64 kp) = Inr kp \<and> s_MachineID st \<noteq> []"
  using assms(1) LoadKey_stored generated_stored [OF assms(2)] newID_not_Nil [OF assms(3)]
  by (auto simp: loadState_def map_sum_def split: sum.splits option.splits if_splits)

text \<open>C21. A machine keeps its identity: whatever start made or loaded a state, a later start from a saved
  state with the same key and id, with any other contents and whatever randomness, loads exactly that
  state and the same key pair; only an empty name is replaced by the host's. So peers paired with the
  machine keep knowing it.\<close>

theorem identity_survives_restart:
  assumes "loadState env json rnd f = Inr (st, kp)" and "box_ok (v_box env) pub_of" and "length (v_rand16 env) = 16"
    and "json' raw = Inr st'" and "s_Key st' = s_Key st" and "s_MachineID st' = s_MachineID st"
  shows "loadState env' json' rnd' (Content raw) =
    Inr (st'\<lparr>s_Name := (if s_Name st' = [] then ca_Hostname (Detect (v_probe env')) else s_Name st')\<rparr>, kp)"
proof -
  have "v_rand16 env \<noteq> []" using assms(3) by auto
  from loadState_stored [OF assms(1,2) this] have "s_Key st' = Some (key_json kp)"
    "LoadKey (kp_PubB64 kp) (kp_PrivB64 kp) = Inr kp" "s_MachineID st' \<noteq> []" using assms(5,6) by simp_all
  then show ?thesis using assms(4) by (cases st') (simp add: loadState_def key_json_def)
qed

theorem identity_survives_restart_witness:
  "loadState demo_denv (\<lambda>_. Inr demo_state) (Inl ''no randomness'') (Content []) = Inr (demo_state, toy_key CHR ''a'')"
proof -
  have g: "GenerateKeyPair (v_box demo_denv) (Inr (replicate 32 CHR ''a'')) = Inr (toy_key CHR ''a'')"
    using toy_key_generated by (simp only: demo_denv_def denv.simps)
  have "ca_Hostname (Detect (v_probe demo_denv)) = ''box''"
    by (simp add: demo_denv_def Detect_def hostname_def demo_probe_def)
  with g have "loadState demo_denv (\<lambda>_. Inr zero_state) (Inr (replicate 32 CHR ''a'')) NotFound = Inr (demo_state, toy_key CHR ''a'')"
    by (simp add: loadState_def zero_state_def demo_state_def)
  from identity_survives_restart [OF this, of "\<lambda>k. k" "\<lambda>_. Inr demo_state" "[]" demo_state demo_denv "Inl ''no randomness''"] toy_box_ok
  show ?thesis by (simp add: demo_denv_def demo_state_def zero_state_def)
qed

end
