(* ===== verification/Tunnel.thy ===== *)
theory Tunnel
  imports HubRun DaemonLife
begin

text \<open>
  The path of bytes through the system, from the connection one machine pumps, through its sealed
  frames and the hub, to the connection of the other machine.
\<close>

section \<open>The sender\<close>

definition sent :: "daemon \<Rightarrow> daemon \<Rightarrow> msg list" where
  "sent d d' = drop (length (d_send d)) (d_send d')"

definition pump_frame :: "key_pair \<Rightarrow> string \<Rightarrow> string \<Rightarrow> string \<Rightarrow> denv \<times> string \<times> bool \<Rightarrow> msg" where
  "pump_frame kp pub peer cid r =
     zero_msg\<lparr>m_Type := TRelay, m_To := peer, m_Channel := cid,
       m_Data := b64_encode (projr (Seal (v_box (fst r)) kp (v_nonce (fst r)) pub (fst (snd r))))\<rparr>"

text \<open>A read that got bytes and no error, with a working source of nonces.\<close>

definition good_read :: "box \<Rightarrow> denv \<times> string \<times> bool \<Rightarrow> bool" where
  "good_read bx r \<longleftrightarrow> v_box (fst r) = bx \<and> (\<exists>nonce. v_nonce (fst r) = Inr nonce \<and> length nonce = 24) \<and>
     fst (snd r) \<noteq> [] \<and> \<not> snd (snd r)"

lemma good_read_seal:
  "good_read bx r \<Longrightarrow> \<exists>nonce. length nonce = 24 \<and> Seal bx kp (Inr nonce) pub b = Inr (projr (Seal (v_box (fst r)) kp (v_nonce (fst r)) pub b))"
  by (auto simp: good_read_def Seal_def)

lemma sendRelay_good:
  assumes "good_read bx r"
  shows "sendRelay (fst r) peer pub cid [] [] (fst (snd r)) d = (sendMsg (pump_frame (d_key d) pub peer cid r) d, None)"
  using assms by (auto simp: good_read_def sendRelay_def pump_frame_def Seal_def zero_msg_def)

lemma pump_loop_good:
  "list_all (good_read bx) reads \<Longrightarrow>
   pump_loop cid td (peer, pub) reads d = d\<lparr>d_send := d_send d @ map (pump_frame (d_key d) pub peer cid) reads\<rparr>"
proof (induction reads arbitrary: d)
  case (Cons r reads)
  obtain env data err where r: "r = (env, data, err)" by (cases r) auto
  with Cons.prems have g: "good_read bx (env, data, err)" "data \<noteq> []" "\<not> err" by (simp_all add: good_read_def)
  have "pump_turn env cid td (peer, pub) (data, err) d = (sendMsg (pump_frame (d_key d) pub peer cid r) d, True)"
    using sendRelay_good [OF g(1), of peer pub cid d] g(2,3) by (simp add: pump_turn_def r)
  then show ?case using Cons.IH Cons.prems by (simp add: r sendMsg_def)
qed simp

lemma pump_sends:
  assumes "list_all (good_read bx) reads" and "chan_at cid d = Some (h, c)" and "peerPubKey (ch_peer c) d = Inr pub"
  shows "sent d (pumpConnToPeer cid td reads d) = map (pump_frame (d_key d) pub (ch_peer c) cid) reads"
  using assms by (simp add: pumpConnToPeer_def pump_start_def pump_loop_good sent_def)

section \<open>The hub\<close>

definition queued :: "hub \<Rightarrow> hub \<Rightarrow> nat \<Rightarrow> msg list" where
  "queued h h' t = drop (length (queue h t)) (queue h' t)"

text \<open>The connection \<open>c\<close> of machine \<open>a\<close> may talk to machine \<open>b\<close>, which is connected at \<open>t\<close>.\<close>

definition may_relay :: "henv \<Rightarrow> hub \<Rightarrow> nat \<Rightarrow> string \<Rightarrow> string \<Rightarrow> nat \<Rightarrow> bool" where
  "may_relay env h c a b t \<longleftrightarrow>
     is_open h c \<and> client_id h c = a \<and> a \<noteq> [] \<and> b \<noteq> [] \<and> has_acl (e_db env) a b (h_store h) = Inr True \<and>
     map_of (h_clients h) b = Some t \<and> is_open h t"

lemma relay_one:
  assumes "may_relay env h c a b t" and "m_Type m = TRelay" "m_To m = b" "m_Channel m \<noteq> []"
    and "length (queue h t) < send_cap"
  shows "queue (hub_step (Inbound env c (Frame m)) h) t = queue h t @ [relay_msg a m]"
    and "may_relay env (hub_step (Inbound env c (Frame m)) h) c a b t"
proof -
  obtain cl where cl: "h_conns h t = Some cl" "\<not> c_closed cl"
    using assms(1) by (auto simp: may_relay_def is_open_def split: option.splits)
  have "hub_step (Inbound env c (Frame m)) h = reply t (relay_msg a m) h"
    using assms(1-4) by (simp add: may_relay_def handle_def msg_type_defs on_relay_def relay_lookup_def send_found_def)
  also have "\<dots> = h\<lparr>h_conns := (h_conns h)(t \<mapsto> cl\<lparr>c_send := c_send cl @ [relay_msg a m]\<rparr>)\<rparr>"
    using cl assms(5) by (simp add: reply_def queue_def)
  finally have r: "hub_step (Inbound env c (Frame m)) h = \<dots>" .
  show "queue (hub_step (Inbound env c (Frame m)) h) t = queue h t @ [relay_msg a m]"
    unfolding r using cl by (simp add: queue_def)
  show "may_relay env (hub_step (Inbound env c (Frame m)) h) c a b t"
    unfolding r using assms(1) cl by (auto simp: may_relay_def client_id_def is_open_def split: option.splits)
qed

lemma relay_all:
  assumes "\<forall>m\<in>set ms. m_Type m = TRelay \<and> m_To m = b \<and> m_Channel m \<noteq> []"
    and "may_relay env h c a b t" and "length (queue h t) + length ms \<le> send_cap"
  shows "queue (fold (\<lambda>m. hub_step (Inbound env c (Frame m))) ms h) t = queue h t @ map (relay_msg a) ms"
  using assms
proof (induction ms arbitrary: h)
  case (Cons m ms)
  then have one: "queue (hub_step (Inbound env c (Frame m)) h) t = queue h t @ [relay_msg a m]"
    "may_relay env (hub_step (Inbound env c (Frame m)) h) c a b t"
    using relay_one [of env h c a b t m] by simp_all
  with Cons.IH [OF _ one(2)] Cons.prems show ?case by (simp del: hub_step.simps)
qed simp

text \<open>A full queue loses the frame without telling anyone.\<close>

lemma full_queue_drops:
  assumes "may_relay env h c a b t" and "m_Type m = TRelay" "m_To m = b" "m_Channel m \<noteq> []"
    and "length (queue h t) = send_cap"
  shows "hub_step (Inbound env c (Frame m)) h = h"
proof -
  obtain cl where cl: "h_conns h t = Some cl" "\<not> c_closed cl"
    using assms(1) by (auto simp: may_relay_def is_open_def split: option.splits)
  have "hub_step (Inbound env c (Frame m)) h = reply t (relay_msg a m) h"
    using assms(1-4) by (simp add: may_relay_def handle_def msg_type_defs on_relay_def relay_lookup_def send_found_def)
  with cl assms(5) show ?thesis by (simp add: reply_def queue_def)
qed

section \<open>The receiver\<close>

text \<open>The channel \<open>cid\<close> has the open connection \<open>n\<close>.\<close>

definition attached :: "daemon \<Rightarrow> string \<Rightarrow> nat \<Rightarrow> bool" where
  "attached d cid n \<longleftrightarrow>
     (case chan_at cid d of None \<Rightarrow> False | Some (h, c) \<Rightarrow> ch_kind c \<noteq> ''caps'' \<and> ch_conn c = Some n) \<and>
     (case d_conns d n of None \<Rightarrow> False | Some k \<Rightarrow> \<not> cn_closed k)"

lemma receive_one:
  assumes "attached d cid n" and "m_Type m = TRelay" "m_Channel m = cid" "m_Data m \<noteq> []"
    and "openFrame env (m_From m) (m_Data m) d = Inr b"
  shows "daemon_step (HubMsg env m) d = write_conn n b d" "attached (write_conn n b d) cid n"
    "out (write_conn n b d) n = out d n @ [b]"
proof -
  obtain h c where c: "chan_at cid d = Some (h, c)" "ch_kind c \<noteq> ''caps''" "ch_conn c = Some n"
    using assms(1) by (auto simp: attached_def split: option.splits)
  obtain k where k: "d_conns d n = Some k" "\<not> cn_closed k" using assms(1) by (auto simp: attached_def split: option.splits)
  show "daemon_step (HubMsg env m) d = write_conn n b d"
    using assms(2-5) c by (simp add: handleHubMsg_relay handleRelay_def handleHubMsgExtras_def msg_type_defs)
  have "chan_at cid (d\<lparr>d_conns := C\<rparr>) = chan_at cid d" for C by (simp add: chan_at_def cong: option.case_cong)
  then show "attached (write_conn n b d) cid n" "out (write_conn n b d) n = out d n @ [b]"
    using c k by (simp_all add: attached_def write_conn_def out_def)
qed

lemma receive_all:
  assumes "\<forall>m\<in>set ms. m_Type m = TRelay \<and> m_Channel m = cid \<and> m_Data m \<noteq> []"
    and "attached d cid n" and "list_all2 (\<lambda>m b. \<forall>d'. d_key d' = d_key d \<and> d_peers d' = d_peers d \<longrightarrow>
       openFrame env (m_From m) (m_Data m) d' = Inr b) ms bs"
  shows "out (fold (\<lambda>m. daemon_step (HubMsg env m)) ms d) n = out d n @ bs"
  using assms
proof (induction ms arbitrary: d bs)
  case (Cons m ms)
  then obtain b bs' where bs: "bs = b # bs'" and o: "openFrame env (m_From m) (m_Data m) d = Inr b"
    by (auto simp: list_all2_Cons1)
  have k: "d_key (write_conn n b d) = d_key d" "d_peers (write_conn n b d) = d_peers d"
    by (simp_all add: write_conn_def split: option.split)
  have r: "daemon_step (HubMsg env m) d = write_conn n b d" "attached (write_conn n b d) cid n"
    "out (write_conn n b d) n = out d n @ [b]"
    using receive_one [of d cid n m env b] Cons.prems(1,2) o by simp_all
  have "out (fold (\<lambda>m. daemon_step (HubMsg env m)) ms (write_conn n b d)) n = out (write_conn n b d) n @ bs'"
    using Cons.IH [OF _ r(2), of bs'] Cons.prems unfolding k bs by simp
  then show ?case by (simp only: fold_Cons comp_apply r(1) r(3) bs append_assoc append_Cons append_Nil)
qed simp

lemma b64_encode_not_Nil: "s \<noteq> [] \<Longrightarrow> b64_encode s \<noteq> []"
proof
  assume "s \<noteq> []" "b64_encode s = []"
  then have "b64_decode [] = Inr s" using b64_round_trip [of s] by simp
  then have "s = []" by (simp add: b64_decode_def)
  with \<open>s \<noteq> []\<close> show False ..
qed

text \<open>What the receiver opens is what the sender read.\<close>

lemma frame_opens:
  assumes "box_ok bx pub_of" and "v_box env = bx" and "kp_ok pub_of ka" and "kp_ok pub_of (d_key d)"
    and "map_of (d_peers d) a = Some p" and "mi_PubKey p = kp_PubB64 ka" and "good_read bx r"
  shows "openFrame env a (m_Data (pump_frame ka (kp_Public (d_key d)) peer cid r)) d = Inr (fst (snd r))"
    and "m_Data (pump_frame ka (kp_Public (d_key d)) peer cid r) \<noteq> []"
proof -
  let ?s = "projr (Seal (v_box (fst r)) ka (v_nonce (fst r)) (kp_Public (d_key d)) (fst (snd r)))"
  obtain nonce where n: "length nonce = 24" "Seal bx ka (Inr nonce) (kp_Public (d_key d)) (fst (snd r)) = Inr ?s"
    using good_read_seal [OF assms(7)] by blast
  have m: "m_Data (pump_frame ka (kp_Public (d_key d)) peer cid r) = b64_encode ?s"
    by (simp add: pump_frame_def)
  have d: "b64_decode (b64_encode ?s) = Inr ?s" by (rule b64_round_trip)
  show "openFrame env a (m_Data (pump_frame ka (kp_Public (d_key d)) peer cid r)) d = Inr (fst (snd r))"
    unfolding m openFrame_sealed [of env pub_of d ka a p, unfolded assms(2), OF assms(1,4,3,5,6)]
    using n d by blast
  have "?s \<noteq> []" using n by (auto simp: Seal_def)
  then show "m_Data (pump_frame ka (kp_Public (d_key d)) peer cid r) \<noteq> []" unfolding m by (rule b64_encode_not_Nil)
qed

text \<open>A frame is bound neither to a channel nor to a position in the stream: delivered twice, it is
  written twice.\<close>

lemma replay_is_delivered:
  assumes "attached d cid n" and "m_Type m = TRelay" "m_Channel m = cid" "m_Data m \<noteq> []"
    and "\<forall>d'. d_key d' = d_key d \<and> d_peers d' = d_peers d \<longrightarrow> openFrame env (m_From m) (m_Data m) d' = Inr b"
  shows "out (daemon_run [HubMsg env m, HubMsg env m] d) n = out d n @ [b, b]"
  using receive_all [of "[m, m]" cid d n env "[b, b]"] assms by simp

end
