(* ===== verification/Pairing.thy ===== *)
theory Pairing
  imports HubSpec Tunnel
begin

text \<open>
  Pairing through the whole system: the host's command asks the hub for a code, the guest's command
  redeems it. What the hub queues for a daemon is delivered while its command waits.
\<close>

section \<open>What arrives while a command waits\<close>

definition deliver :: "denv \<Rightarrow> msg list \<Rightarrow> daemon \<Rightarrow> daemon" where
  "deliver env ms = fold (handleHubMsg env) ms"

lemma deliver_updates:
  assumes "\<forall>m\<in>set ms. m_Type m = TMachineUpdate"
  shows "d_pendingPair (deliver env ms d) = d_pendingPair d"
  using assms
proof (induction ms arbitrary: d)
  case (Cons m ms)
  then have "d_pendingPair (handleHubMsg env m d) = d_pendingPair d"
    by (simp add: handleHubMsg_def handleHubMsgExtras_def set_peers_def msg_type_defs)
  with Cons show ?case by (simp add: deliver_def)
qed (simp add: deliver_def)

text \<open>The host: a created code is what the waiting command returns.\<close>

lemma host_gets_code:
  assumes "ms = [zero_msg\<lparr>m_Type := TCodeCreated, m_Code := k\<rparr>]"
  shows "r_OK (snd (execControl env (deliver env ms) (zero_ctl_req\<lparr>q_Cmd := CtlPair\<rparr>) d)) \<and>
    r_Code (snd (execControl env (deliver env ms) (zero_ctl_req\<lparr>q_Cmd := CtlPair\<rparr>) d)) = k \<and>
    sent d (fst (execControl env (deliver env ms) (zero_ctl_req\<lparr>q_Cmd := CtlPair\<rparr>) d)) = [zero_msg\<lparr>m_Type := TCreateCode\<rparr>]"
proof -
  have x: "execControl env f (zero_ctl_req\<lparr>q_Cmd := CtlPair\<rparr>) d = ctlPair env f (zero_ctl_req\<lparr>q_Cmd := CtlPair\<rparr>) d" for f
    by (simp add: execControl_def ctl_cmd_defs)
  have "handleHubMsg env (zero_msg\<lparr>m_Type := TCodeCreated, m_Code := k\<rparr>) d' = deliver_code k d'" for d'
    by (simp add: handleHubMsg_def handleHubMsgExtras_def msg_type_defs)
  then have f: "deliver env ms d' = deliver_code k d'" for d' by (simp add: deliver_def assms)
  have d: "deliver_code k (d'\<lparr>d_pendingCode := Some [], d_pendingCodeErr := e\<rparr>) = d'\<lparr>d_pendingCode := Some [k], d_pendingCodeErr := e\<rparr>" for d' e
    by (simp add: deliver_code_def)
  have a: "awaitCode env (deliver env ms) d' = (d'\<lparr>d_pendingCode := None, d_pendingCodeErr := None\<rparr>, Inr k)" for d'
    by (simp add: awaitCode_def f d Let_def)
  show ?thesis unfolding x
    by (simp add: ctlPair_def ctl_rename_def a zero_ctl_req_def sent_def sendMsg_def zero_ctl_resp_def)
qed

text \<open>The guest: a paired message, and updates after it, let the waiting command succeed.\<close>

definition pair_request :: "daemon \<Rightarrow> string \<Rightarrow> msg" where
  "pair_request d k =
     zero_msg\<lparr>m_Type := TPair, m_Code := k, m_MachineID := s_MachineID (d_st d), m_Name := s_Name (d_st d),
       m_PubKey := kp_PubB64 (d_key d)\<rparr>"

lemma guest_is_paired:
  assumes "ms = zero_msg\<lparr>m_Type := TPaired, m_Peer := Some p\<rparr> # us" and "\<forall>m\<in>set us. m_Type m = TMachineUpdate" and "k \<noteq> []"
  shows "r_OK (snd (execControl env (deliver env ms) (zero_ctl_req\<lparr>q_Cmd := CtlPair, q_Code := k\<rparr>) d))"
proof -
  let ?req = "zero_ctl_req\<lparr>q_Cmd := CtlPair, q_Code := k\<rparr>"
  have x: "execControl env f ?req d = ctlPair env f ?req d" for f
    by (simp add: execControl_def ctl_cmd_defs)
  have f: "d_pendingPair (deliver env ms (d'\<lparr>d_pendingPair := Some []\<rparr>)) = Some [None]" for d'
  proof -
    have "handleHubMsg env (zero_msg\<lparr>m_Type := TPaired, m_Peer := Some p\<rparr>) (d'\<lparr>d_pendingPair := Some []\<rparr>) = d'\<lparr>d_pendingPair := Some [None]\<rparr>"
      by (simp add: handleHubMsg_def handleHubMsgExtras_def deliver_pair_def msg_type_defs)
    then have "deliver env ms (d'\<lparr>d_pendingPair := Some []\<rparr>) = deliver env us (d'\<lparr>d_pendingPair := Some [None]\<rparr>)"
      by (simp add: deliver_def assms(1))
    then show ?thesis using deliver_updates [OF assms(2)] by simp
  qed
  have a: "\<exists>d''. awaitPaired env (deliver env ms) d' = (d'', None)" for d'
    by (simp add: awaitPaired_def f Let_def)
  have q: "q_Name ?req = []" "q_Code ?req = k" by (simp_all add: zero_ctl_req_def)
  obtain d'' where "awaitPaired env (deliver env ms) (sendMsg (pair_request d k) d) = (d'', None)" using a by blast
  then show ?thesis unfolding x using assms(3)
    by (simp add: ctlPair_def ctl_rename_def q Let_def pair_request_def zero_ctl_resp_def)
qed

section \<open>What the hub answers\<close>

text \<open>A database that works.\<close>

definition db_works :: "henv \<Rightarrow> bool" where
  "db_works env \<longleftrightarrow> (\<forall>st. db_err (e_db env) st = None)"

lemma queued_reply:
  assumes "is_open h c" and "length (queue h c) < send_cap" and "queue h0 c = queue h c"
  shows "queued h0 (reply c m h) c = [m]"
  using assms by (simp add: queued_def queue_reply)

lemma hub_creates_code:
  assumes "is_open h c" and "client_id h c = a" "a \<noteq> []" and "db_works env"
    and "random_code (e_rand env) = Inr k" and "pending_code (h_store h) k = None"
    and "length (queue h c) < send_cap" and "h1 = hub_step (Inbound env c (Frame (zero_msg\<lparr>m_Type := TCreateCode\<rparr>))) h"
  shows "queued h h1 c = [zero_msg\<lparr>m_Type := TCodeCreated, m_Code := k\<rparr>] \<and>
    pending_code (h_store h1) k = Some (a, db_now (e_db env) + codeTTL)"
proof -
  have "snd (create_code (e_db env) a k codeTTL (h_store h)) = None"
    using assms(4,6) by (simp add: create_code_def db_works_def pending_code_def)
  moreover obtain s' where s': "create_code (e_db env) a k codeTTL (h_store h) = (s', None)"
    using calculation by (cases "create_code (e_db env) a k codeTTL (h_store h)") simp
  ultimately have p: "pending_code s' k = Some (a, db_now (e_db env) + codeTTL)"
    using pc.issue_ok [of "e_db env" a k codeTTL "h_store h"] by simp
  have "h1 = reply c (zero_msg\<lparr>m_Type := TCodeCreated, m_Code := k\<rparr>) (h\<lparr>h_store := s'\<rparr>)"
    using assms(1-3,5,8) s' by (simp add: handle_def msg_type_defs on_create_code_def new_code_def)
  with p assms(1,7) show ?thesis by (simp add: queued_reply)
qed

lemma hub_pairs:
  assumes "is_open h c" and "client_id h c = b" "b \<noteq> []" and "db_works env"
    and "pending_code (h_store h) k = Some (a, t)" and "db_now (e_db env) \<le> t" and "a \<noteq> b"
    and "length (queue h c) < send_cap" and "m_Type m = TPair" "m_Code m = k"
    and "h2 = hub_step (Inbound env c (Frame m)) h"
  shows "linked (h_store h2) a b \<and> pending_code (h_store h2) k = None \<and>
    (\<exists>us. queued h h2 c = zero_msg\<lparr>m_Type := TPaired, m_Peer := Some (zero_info\<lparr>mi_ID := a\<rparr>)\<rparr> # us \<and>
       (\<forall>u\<in>set us. m_Type u = TMachineUpdate))"
proof -
  obtain s where s: "consume_code (e_db env) k (h_store h) = (s, Inr a)"
    using assms(4-6) by (auto simp: consume_code_def db_works_def pending_code_def Let_def)
  have ps: "pending_code s k = None" using pc.redeem_ok [of "e_db env" k "h_store h" a] s by simp
  obtain s1 where s1: "upsert_machine (e_db env) b (m_Name m) (m_PubKey m) s = (s1, None)"
    using assms(4) by (cases "map_of (machines s) b") (simp_all add: upsert_machine_def db_works_def)
  obtain s2 where s2: "add_acl (e_db env) a b s1 = (s2, None)"
    using assms(4) by (cases "map_of (acls s1) (acl_key a b)") (simp_all add: add_acl_def db_works_def)
  have l: "linked s2 a b" using acl.lnk_add [of "e_db env" a b s1] s2 by simp
  have p2: "pending_code s2 k = None"
    using ps pending_upsert [of "e_db env" b "m_Name m" "m_PubKey m" s] pending_acl(1) [of "e_db env" a b s1] s1 s2 by simp
  let ?x = "zero_msg\<lparr>m_Type := TPaired, m_Peer := Some (zero_info\<lparr>mi_ID := a\<rparr>)\<rparr>"
  have h2: "h2 = broadcast_update env (reply c ?x (h\<lparr>h_store := s2\<rparr>))"
    using assms(1-3,7,9-11) s s1 s2 by (simp add: handle_def msg_type_defs on_pair_def)
  have q1: "queue (reply c ?x (h\<lparr>h_store := s2\<rparr>)) c = queue h c @ [?x]"
    using assms(1,8) by (simp add: queue_reply)
  have "sends_only (\<lambda>_ u. m_Type u = TMachineUpdate) (reply c ?x (h\<lparr>h_store := s2\<rparr>)) h2"
    unfolding h2 by (rule sends_only_broadcast) (simp add: update_msg_def)
  then obtain us where us: "queue h2 c = (queue h c @ [?x]) @ us" "\<forall>u\<in>set us. m_Type u = TMachineUpdate"
    unfolding sends_only_def q1 [symmetric] by blast
  have "h_store h2 = s2" by (simp add: h2)
  with us(1) have "queued h h2 c = ?x # us" "linked (h_store h2) a b" "pending_code (h_store h2) k = None"
    using l p2 by (simp_all add: queued_def)
  with us(2) show ?thesis by blast
qed

end
