(* ===== verification/GoPath.thy ===== *)
theory GoPath
  imports GoStd
begin

text \<open>
  \<^verbatim>\<open>path/filepath\<close> on Unix: \<open>Clean\<close>, \<open>Join\<close> and \<open>SplitList\<close>. \<open>Clean\<close> works on the elements between the
  slashes: empty elements and \<^verbatim>\<open>.\<close> go away, \<^verbatim>\<open>..\<close> removes the element before it, except that it stays at
  the start of a relative path and vanishes at the start of a rooted one.
\<close>

definition slash :: char where
  "slash = CHR ''/''"

definition is_rooted :: "string \<Rightarrow> bool" where
  "is_rooted p \<longleftrightarrow> has_prefix p [slash]"

text \<open>One element of the path; \<open>acc\<close> holds the elements of the result in reverse.\<close>

definition clean_elem :: "bool \<Rightarrow> string \<Rightarrow> string list \<Rightarrow> string list" where
  "clean_elem rooted e acc =
     (if e = [] \<or> e = ''.'' then acc
      else if e = ''..'' then
        (case acc of
           [] \<Rightarrow> if rooted then [] else [''..'']
         | x # xs \<Rightarrow> if x = ''..'' then ''..'' # acc else xs)
      else e # acc)"

definition clean_elems :: "string \<Rightarrow> string list" where
  "clean_elems p = rev (fold (clean_elem (is_rooted p)) (split_byte slash p) [])"

definition clean :: "string \<Rightarrow> string" where
  "clean p =
     (let es = clean_elems p
      in if is_rooted p then slash # join_byte slash es
         else if es = [] then ''.'' else join_byte slash es)"

definition path_join :: "string list \<Rightarrow> string" where
  "path_join es =
     (case filter (\<lambda>e. e \<noteq> []) es of [] \<Rightarrow> [] | fs \<Rightarrow> clean (join_byte slash fs))"

definition split_list :: "string \<Rightarrow> string list" where
  "split_list s = (if s = [] then [] else split_byte (CHR '':'') s)"

text \<open>Joining a plain file name to a directory appends one element to the cleaned directory.\<close>

definition plain_elem :: "string \<Rightarrow> bool" where
  "plain_elem e \<longleftrightarrow> e \<noteq> [] \<and> e \<noteq> ''.'' \<and> e \<noteq> ''..'' \<and> slash \<notin> set e"

lemma clean_elems_snoc:
  assumes "plain_elem f" and "d \<noteq> []"
  shows "clean_elems (d @ slash # f) = clean_elems d @ [f]" "is_rooted (d @ slash # f) = is_rooted d"
proof -
  show r: "is_rooted (d @ slash # f) = is_rooted d"
    using assms(2) by (cases d) (simp_all add: is_rooted_def has_prefix_def)
  show "clean_elems (d @ slash # f) = clean_elems d @ [f]"
    unfolding clean_elems_def r
    using assms(1) by (simp add: plain_elem_def split_byte_snoc clean_elem_def)
qed

definition kept_elem :: "string \<Rightarrow> bool" where
  "kept_elem e \<longleftrightarrow> e \<noteq> [] \<and> e \<noteq> ''.'' \<and> slash \<notin> set e"

lemma kept_dotdot: "kept_elem ''..''"
  by (simp add: kept_elem_def slash_def)

lemma clean_elem_kept:
  assumes "slash \<notin> set x" and "list_all kept_elem acc"
  shows "list_all kept_elem (clean_elem r x acc)"
proof -
  have "list_all kept_elem (x # acc)" if "\<not> (x = [] \<or> x = ''.'')"
    using that assms by (simp add: kept_elem_def)
  moreover have "list_all kept_elem (case acc of [] \<Rightarrow> if r then [] else [''..'']
      | y # ys \<Rightarrow> if y = ''..'' then ''..'' # acc else ys)"
    using assms(2) kept_dotdot by (cases acc) auto
  ultimately show ?thesis using assms(2) unfolding clean_elem_def by presburger
qed

lemma fold_clean_kept:
  "\<forall>x\<in>set xs. slash \<notin> set x \<Longrightarrow> list_all kept_elem acc \<Longrightarrow>
   list_all kept_elem (fold (clean_elem r) xs acc)"
proof (induction xs arbitrary: acc)
  case (Cons x xs)
  then show ?case using clean_elem_kept [of x acc r] by simp
qed simp

lemma clean_elems_kept: "list_all kept_elem (clean_elems p)"
proof -
  have "list_all kept_elem (fold (clean_elem (is_rooted p)) (split_byte slash p) [])"
    using split_byte_parts by (intro fold_clean_kept) auto
  then show ?thesis by (simp add: clean_elems_def list_all_iff)
qed

lemma join_byte_head:
  "es \<noteq> [] \<Longrightarrow> hd es \<noteq> [] \<Longrightarrow> join_byte c es \<noteq> [] \<and> hd (join_byte c es) = hd (hd es)"
  by (cases "(c, es)" rule: join_byte.cases) auto

lemma rooted_Cons: "is_rooted p \<longleftrightarrow> p \<noteq> [] \<and> hd p = slash"
  by (cases p) (auto simp: is_rooted_def has_prefix_def)

lemma join_kept:
  assumes "list_all kept_elem es" and "es \<noteq> []"
  shows "\<not> is_rooted (join_byte slash es)" "split_byte slash (join_byte slash es) = es"
proof -
  have all: "\<forall>e\<in>set es. slash \<notin> set e" and h: "hd es \<noteq> []" "slash \<notin> set (hd es)"
    using assms by (auto simp: list_all_iff kept_elem_def)
  from hd_in_set [OF h(1)] h(2) have "hd (hd es) \<noteq> slash" by metis
  with join_byte_head [OF assms(2) h(1), of slash] show "\<not> is_rooted (join_byte slash es)"
    by (simp add: rooted_Cons)
  show "split_byte slash (join_byte slash es) = es" by (rule split_join [OF assms(2) all])
qed

definition unclean :: "string \<Rightarrow> string list" where
  "unclean q = (if q = ''.'' \<or> q = [slash] then [] else split_byte slash (if is_rooted q then tl q else q))"

lemma unclean_clean: "unclean (clean p) = clean_elems p \<and> is_rooted (clean p) = is_rooted p"
proof (cases "clean_elems p = []")
  case True
  then show ?thesis by (simp add: clean_def unclean_def rooted_Cons slash_def Let_def)
next
  case False
  note j = join_kept [OF clean_elems_kept False]
  let ?j = "join_byte slash (clean_elems p)"
  have "?j \<noteq> []" "?j \<noteq> ''.''"
  proof -
    have "\<not> kept_elem []" "\<not> kept_elem ''.''" by (simp_all add: kept_elem_def)
    moreover have "split_byte slash [] = [[]]" "split_byte slash ''.'' = [''.'']"
      by (simp_all add: slash_def)
    ultimately have "\<And>x. x = [] \<or> x = ''.'' \<Longrightarrow> \<not> list_all kept_elem (split_byte slash x)" by auto
    then show "?j \<noteq> []" "?j \<noteq> ''.''" using j(2) clean_elems_kept [of p] by metis+
  qed
  moreover have "?j \<noteq> [slash]" using j(1) by (auto simp: rooted_Cons)
  ultimately show ?thesis using j False by (auto simp: clean_def unclean_def rooted_Cons Let_def)
qed

lemma clean_of_elems:
  assumes "clean p = clean q"
  shows "is_rooted p = is_rooted q" "clean_elems p = clean_elems q"
  using assms unclean_clean [of p] unclean_clean [of q] by metis+

lemma clean_join_inj:
  assumes "plain_elem f" and "d \<noteq> []" and "d' \<noteq> []"
    and "clean (d @ slash # f) = clean (d' @ slash # f)"
  shows "clean d = clean d'"
  using clean_of_elems [OF assms(4)] clean_elems_snoc [OF assms(1,2)] clean_elems_snoc [OF assms(1,3)]
  by (simp add: clean_def)

lemma clean_not_Nil [simp]: "clean p \<noteq> []"
proof (cases "clean_elems p = []")
  case False
  have "hd (clean_elems p) \<noteq> []"
    using clean_elems_kept [of p] False by (cases "clean_elems p") (auto simp: kept_elem_def)
  from join_byte_head [OF False this, of slash] show ?thesis by (simp add: clean_def Let_def)
qed (simp add: clean_def)

lemma path_join_two: "d \<noteq> [] \<Longrightarrow> f \<noteq> [] \<Longrightarrow> path_join [d, f] = clean (d @ slash # f)"
  by (simp add: path_join_def)

end
