(* ===== verification/CliBase.thy ===== *)
theory CliBase
  imports Config GoPath
begin

text \<open>
  What every command of the CLI rests on (\<^verbatim>\<open>internal/cli/cli.go\<close>, paths of \<^verbatim>\<open>internal/cli/mgmt.go\<close>): the
  operating system as the argument \<open>os\<close>, a record of the calls the code makes, over a world \<open>'w\<close> that
  they read and change; the bunk home directory and its paths; the daemon's state file; one exchange
  with the daemon over its control port. What JSON and YAML make of the bytes of a file are the
  fields \<open>os_json\<close> and \<open>os_yaml\<close>. The world can be instantiated by a model of the daemon, as the root
  theory does.
\<close>

section \<open>The operating system\<close>

datatype exchange = NoDial | Failed string | Reply ctl_resp

datatype run_result = Exited int | NotRun string

record 'w os =
  os_getenv :: "string \<Rightarrow> string"
  os_read :: "string \<Rightarrow> 'w \<Rightarrow> string result"
  os_json :: "string \<Rightarrow> daemon_state result"
  os_yaml :: "string \<Rightarrow> config \<Rightarrow> config"
  os_is_dir :: "string \<Rightarrow> 'w \<Rightarrow> bool option"
  os_eval_symlinks :: "string \<Rightarrow> 'w \<Rightarrow> string result"
  os_exchange :: "int \<Rightarrow> ctl_req \<Rightarrow> 'w \<Rightarrow> exchange \<times> 'w"
  os_run :: "bool \<Rightarrow> string \<Rightarrow> string list \<Rightarrow> 'w \<Rightarrow> run_result \<times> 'w"
  os_stdout :: "string \<Rightarrow> 'w \<Rightarrow> 'w"
  os_stderr :: "string \<Rightarrow> 'w \<Rightarrow> 'w"

section \<open>Paths\<close>

definition Home :: "'w os \<Rightarrow> string" where
  "Home os =
     (if os_getenv os ''BUNK_HOME'' \<noteq> [] then os_getenv os ''BUNK_HOME''
      else if os_getenv os ''HOME'' = [] then ''.bunk''
      else path_join [os_getenv os ''HOME'', ''.bunk''])"

definition StatePath :: "'w os \<Rightarrow> string" where
  "StatePath os = path_join [Home os, ''state.json'']"

definition shimDir :: "'w os \<Rightarrow> string" where
  "shimDir os = path_join [Home os, ''bin'']"

definition shimPath :: "'w os \<Rightarrow> string" where
  "shimPath os = path_join [shimDir os, ''docker'']"

section \<open>The daemon's state and control port\<close>

definition read_state :: "'w os \<Rightarrow> 'w \<Rightarrow> daemon_state result" where
  "read_state os w =
     (case os_read os (StatePath os) w of
        Inl _ \<Rightarrow> Inl ''daemon not running (no state file). Start it with: bunk start''
      | Inr raw \<Rightarrow>
         (case os_json os raw of Inl e \<Rightarrow> Inl (''state: '' @ e) | Inr s \<Rightarrow> Inr s))"

definition ctl :: "'w os \<Rightarrow> ctl_req \<Rightarrow> 'w \<Rightarrow> ctl_resp result \<times> 'w" where
  "ctl os req w =
     (case read_state os w of
        Inl e \<Rightarrow> (Inl e, w)
      | Inr st \<Rightarrow>
         (case os_exchange os (ds_ControlPort st) req w of
            (NoDial, w') \<Rightarrow> (Inl ''daemon not reachable (start it with: bunk start)'', w')
          | (Failed e, w') \<Rightarrow> (Inl e, w')
          | (Reply resp, w') \<Rightarrow> (if r_OK resp then Inr resp else Inl (r_Error resp), w')))"

definition load_cfg :: "'w os \<Rightarrow> 'w \<Rightarrow> config" where
  "load_cfg os w =
     (case os_read os (path_join [Home os, ''config.yaml'']) w of
        Inl _ \<Rightarrow> default_config
      | Inr raw \<Rightarrow> os_yaml os raw default_config)"

end
