(* ===== verification/Shim.thy ===== *)
theory Shim
  imports CliBase
begin

text \<open>
  The docker command line of bunk (\<^verbatim>\<open>internal/cli/shim.go\<close>): which machine is active, the scan of the
  arguments of \<^verbatim>\<open>docker run\<close>, the limits and the GPU flag injected into them, the port forwards opened
  for published ports, the search of \<^verbatim>\<open>PATH\<close> for the real docker, and the pipeline that puts these
  together. A \<open>map[string]bool\<close> that only ever gets the value true is the list of its keys.
\<close>

section \<open>The active machine\<close>

definition active_link :: "'w os \<Rightarrow> 'w \<Rightarrow> (string \<times> string) result" where
  "active_link os w =
     (case read_state os w of
        Inl e \<Rightarrow> Inl e
      | Inr st \<Rightarrow>
          if ds_Active st = []
          then Inl (''no active machine '' @ em_dash @ '' run: bunk use <machine>'')
          else (case map_of (ds_Links st) (ds_Active st) of
                  None \<Rightarrow> Inl (''no proxy for active machine '' @ em_dash @ '' run: bunk use <machine>'')
                | Some ln \<Rightarrow>
                    if li_Port ln = 0
                    then Inl (''no proxy for active machine '' @ em_dash @ '' run: bunk use <machine>'')
                    else Inr (''tcp://127.0.0.1:'' @ itoa (li_Port ln), ds_Active st)))"

definition linkGPU :: "'w os \<Rightarrow> string \<Rightarrow> 'w \<Rightarrow> string" where
  "linkGPU os name w =
     (case read_state os w of
        Inl _ \<Rightarrow> ''none''
      | Inr st \<Rightarrow> (case map_of (ds_Links st) name of None \<Rightarrow> ''none'' | Some ln \<Rightarrow> li_GPU ln))"

definition linkCaps :: "'w os \<Rightarrow> string \<Rightarrow> 'w \<Rightarrow> int \<times> int" where
  "linkCaps os name w =
     (case read_state os w of
        Inl _ \<Rightarrow> (0, 0)
      | Inr st \<Rightarrow>
         (case map_of (ds_Links st) name of None \<Rightarrow> (0, 0) | Some ln \<Rightarrow> (li_Cores ln, li_RAMGB ln)))"

section \<open>The arguments of docker run\<close>

definition takesValue :: "string \<Rightarrow> bool" where
  "takesValue flag \<longleftrightarrow> flag \<in> set
     [''--publish'', ''--cpus'', ''--memory'', ''--pids-limit'', ''--gpus'', ''--device'',
      ''--cpuset-cpus'', ''--name'', ''--env'', ''--env-file'', ''--volume'', ''--mount'',
      ''--network'', ''--workdir'', ''--user'', ''--platform'', ''--pull'', ''--restart'',
      ''--label'', ''--add-host'', ''--entrypoint'', ''--ulimit'', ''--tmpfs'', ''--ip'',
      ''--ip6'', ''--link'', ''--mac-address'', ''--health-cmd'', ''--log-driver'',
      ''--log-opt'', ''--storage-opt'', ''--expose'', ''--shm-size'', ''--cgroup-parent'',
      ''--cpu-shares'', ''--cpu-quota'', ''--cpu-period'', ''--blkio-weight'',
      ''--oom-score-adj'', ''--init-path'', ''--stop-signal'', ''--stop-timeout'']"

record scan =
  sc_has :: "string list"
  sc_publishes :: "string list"
  sc_detached :: bool

definition empty_scan :: scan where
  "empty_scan = \<lparr>sc_has = [], sc_publishes = [], sc_detached = False\<rparr>"

text \<open>\<open>string(b)\<close> of a byte is the UTF-8 form of the code point with that number.\<close>

definition string_of_byte :: "char \<Rightarrow> string" where
  "string_of_byte c =
     (if byte_val c < 128 then [c]
      else [char_of (192 + byte_val c div 64), char_of (128 + byte_val c mod 64)])"

text \<open>
  A token of short flags without its dash, letter by letter; the second result is what is left of
  the following tokens, one less when \<open>-p\<close> took its value from there.
\<close>

fun scan_short :: "string \<Rightarrow> string list \<Rightarrow> scan \<Rightarrow> scan \<times> string list" where
  "scan_short [] rest sc = (sc, rest)"
| "scan_short (c # body) rest sc =
     (let f = CHR ''-'' # string_of_byte c;
          sc1 = sc\<lparr>sc_has := sc_has sc @ [f], sc_detached := sc_detached sc \<or> f = ''-d''\<rparr>
      in if f = ''-p'' then
           (if body \<noteq> [] then (sc1\<lparr>sc_publishes := sc_publishes sc1 @ [body]\<rparr>, rest)
            else (case rest of
                    [] \<Rightarrow> (sc1, [])
                  | v # rest' \<Rightarrow> (sc1\<lparr>sc_publishes := sc_publishes sc1 @ [v]\<rparr>, rest')))
         else scan_short body rest sc1)"

text \<open>A token of a long flag: its name and the value after the first equals sign.\<close>

definition long_flag :: "string \<Rightarrow> string \<times> string" where
  "long_flag a =
     (case index_byte (CHR ''='') a of None \<Rightarrow> (a, []) | Some i \<Rightarrow> (take i a, drop (Suc i) a))"

definition scan_long :: "string \<Rightarrow> string list \<Rightarrow> scan \<Rightarrow> scan \<times> string list" where
  "scan_long a rest sc =
     (let (name, val) = long_flag a
      in (sc\<lparr>sc_has := sc_has sc @ [name],
             sc_detached := sc_detached sc \<or> name = ''--detach'',
             sc_publishes := sc_publishes sc @ (if name = ''--publish'' then [val] else [])\<rparr>,
          if val = [] \<and> takesValue name then drop 1 rest else rest))"

lemma scan_short_shrinks: "length (snd (scan_short body rest sc)) \<le> length rest"
  by (induction body rest sc rule: scan_short.induct) (auto simp: Let_def split: list.splits)

lemma scan_long_shrinks: "length (snd (scan_long a rest sc)) \<le> length rest"
  by (simp add: scan_long_def split: prod.splits)

function scan_args :: "string list \<Rightarrow> scan \<Rightarrow> scan" where
  "scan_args [] sc = sc"
| "scan_args (a # rest) sc =
     (if a = ''--'' then sc
      else if a = [] \<or> hd a \<noteq> CHR ''-'' then sc
      else if has_prefix a ''--''
      then (let (sc', rest') = scan_long a rest sc in scan_args rest' sc')
      else (let (sc', rest') = scan_short (tl a) rest sc in scan_args rest' sc'))"
  by pat_completeness auto
termination
proof (relation "measure (\<lambda>(args, _). length args)", goal_cases)
  case (2 a rest sc p sc' rest')
  then show ?case using scan_long_shrinks [of a rest sc] by (cases "scan_long a rest sc") auto
next
  case (3 a rest sc p sc' rest')
  then show ?case using scan_short_shrinks [of "tl a" rest sc] by (cases "scan_short (tl a) rest sc") auto
qed simp

definition scanRunArgs :: "string list \<Rightarrow> scan" where
  "scanRunArgs args = scan_args args empty_scan"

section \<open>Limits and the GPU flag\<close>

definition clamp_cpus :: "config \<Rightarrow> int \<Rightarrow> int" where
  "clamp_cpus cfg cores =
     (let cpus = l_CPUs (cfg_Limits cfg) in if cores > 0 \<and> cpus > cores then cores else cpus)"

definition clamp_mem :: "config \<Rightarrow> int \<Rightarrow> int" where
  "clamp_mem cfg ramGB =
     (let memGB = l_MemoryGB (cfg_Limits cfg)
      in if ramGB > 0
         then (let headroom = (if ramGB - 1 < 1 then 1 else ramGB - 1)
               in if memGB > headroom then headroom else memGB)
         else memGB)"

definition extra_flags ::
    "string \<Rightarrow> string list \<Rightarrow> config \<Rightarrow> string \<Rightarrow> int \<Rightarrow> int \<Rightarrow> string list" where
  "extra_flags bunk_gpu has cfg gpu cores ramGB =
     (let cpus = clamp_cpus cfg cores; memGB = clamp_mem cfg ramGB; pids = l_Pids (cfg_Limits cfg)
      in (if ''--cpus'' \<notin> set has \<and> ''--cpu-shares'' \<notin> set has \<and> cpus > 0
          then [''--cpus'', itoa cpus] else []) @
         (if ''--memory'' \<notin> set has \<and> ''-m'' \<notin> set has \<and> memGB > 0
          then [''--memory'', itoa memGB @ ''g''] else []) @
         (if ''--pids-limit'' \<notin> set has \<and> pids > 0 then [''--pids-limit'', itoa pids] else []) @
         (if cfg_GPU cfg \<noteq> ''off'' \<and> bunk_gpu \<noteq> ''off'' \<and> gpu = ''nvidia'' \<and>
             ''--gpus'' \<notin> set has \<and> ''--device'' \<notin> set has
          then [''--gpus'', ''all''] else []))"

text \<open>\<open>None\<close> is the panic of \<^verbatim>\<open>args[0]\<close> on an empty argument list.\<close>

definition injectDefaults ::
    "string \<Rightarrow> string list \<Rightarrow> string list \<Rightarrow> config \<Rightarrow> string \<Rightarrow> int \<Rightarrow> int \<Rightarrow> string list option" where
  "injectDefaults bunk_gpu args has cfg gpu cores ramGB =
     (let extra = extra_flags bunk_gpu has cfg gpu cores ramGB
      in if extra = [] then Some args
         else (case args of [] \<Rightarrow> None | a # rest \<Rightarrow> Some (a # extra @ rest)))"

section \<open>Forwards for published ports\<close>

definition parsePublishHostPort :: "string \<Rightarrow> int option" where
  "parsePublishHostPort spec =
     (let atoi = (\<lambda>host. if host = [] then None else parse_int64 host)
      in case split_byte (CHR '':'') spec of
           [host, _] \<Rightarrow> atoi host
         | [_, host, _] \<Rightarrow> atoi host
         | _ \<Rightarrow> None)"

fun startAutoForwards :: "'w os \<Rightarrow> string list \<Rightarrow> string \<Rightarrow> 'w \<Rightarrow> int list \<times> 'w" where
  "startAutoForwards os [] machine w = ([], w)"
| "startAutoForwards os (spec # specs) machine w =
     (case parsePublishHostPort spec of
        None \<Rightarrow> startAutoForwards os specs machine w
      | Some hostPort \<Rightarrow>
         (case ctl os (zero_ctl_req\<lparr>q_Cmd := CtlForward, q_Name := machine, q_Local := hostPort,
                        q_Remote := hostPort, q_Auto := True\<rparr>) w of
            (Inl e, w1) \<Rightarrow>
              startAutoForwards os specs machine
                (os_stderr os (''bunk: auto-forward '' @ itoa hostPort @ '': '' @ e @ [CHR 0x0A]) w1)
          | (Inr resp, w1) \<Rightarrow>
              (let (ports, w2) = startAutoForwards os specs machine
                     (os_stderr os (''bunk: forwarding 127.0.0.1:'' @ itoa (r_Port resp) @ '' -> '' @ machine @
                        '':'' @ itoa hostPort @ [CHR 0x0A]) w1)
               in (r_Port resp # ports, w2))))"

definition stopAutoForwards :: "'w os \<Rightarrow> int list \<Rightarrow> bool \<Rightarrow> 'w \<Rightarrow> 'w" where
  "stopAutoForwards os ports detached w =
     (if detached then w
      else fold (\<lambda>p w. snd (ctl os (zero_ctl_req\<lparr>q_Cmd := CtlUnforward, q_Local := p\<rparr>) w)) ports w)"

section \<open>The real docker\<close>

text \<open>The loop over the directories of \<open>PATH\<close>; \<open>shimReal\<close> is empty when the shim directory does not resolve.\<close>

fun find_docker :: "'w os \<Rightarrow> string \<Rightarrow> string \<Rightarrow> string list \<Rightarrow> 'w \<Rightarrow> string result" where
  "find_docker os shim shimReal [] w = Inl ''docker not found on PATH (outside the bunk shim)''"
| "find_docker os shim shimReal (entry # dirs) w =
     (let dir = (if entry = [] then ''.'' else entry); p = path_join [dir, ''docker'']
      in if clean dir = clean shim then find_docker os shim shimReal dirs w
         else if os_is_dir os p w = Some False then
           (case os_eval_symlinks os p w of
              Inl _ \<Rightarrow> Inr p
            | Inr real \<Rightarrow>
                if shimReal \<noteq> [] \<and> clean real = clean (path_join [shimReal, ''docker''])
                then find_docker os shim shimReal dirs w
                else Inr p)
         else find_docker os shim shimReal dirs w)"

definition shim_real :: "'w os \<Rightarrow> 'w \<Rightarrow> string" where
  "shim_real os w = (case os_eval_symlinks os (shimDir os) w of Inl _ \<Rightarrow> [] | Inr d \<Rightarrow> d)"

definition realDockerPath :: "'w os \<Rightarrow> 'w \<Rightarrow> string result" where
  "realDockerPath os w =
     find_docker os (shimDir os) (shim_real os w) (split_list (os_getenv os ''PATH'')) w"

text \<open>Both runs of docker return the exit code; a run that never started is code 2.\<close>

definition execDockerSilent :: "'w os \<Rightarrow> string list \<Rightarrow> 'w \<Rightarrow> int \<times> 'w" where
  "execDockerSilent os args w =
     (case realDockerPath os w of
        Inl _ \<Rightarrow> (2, w)
      | Inr bin \<Rightarrow>
         (case os_run os True bin args w of (Exited n, w') \<Rightarrow> (n, w') | (NotRun _, w') \<Rightarrow> (2, w')))"

definition execDocker :: "'w os \<Rightarrow> string list \<Rightarrow> 'w \<Rightarrow> int \<times> 'w" where
  "execDocker os args w =
     (case realDockerPath os w of
        Inl e \<Rightarrow> (2, os_stderr os (''bunk: docker: '' @ e @ [CHR 0x0A]) w)
      | Inr bin \<Rightarrow>
         (case os_run os False bin args w of
            (Exited n, w') \<Rightarrow> (n, w')
          | (NotRun e, w') \<Rightarrow> (2, os_stderr os (''bunk: docker: '' @ e @ [CHR 0x0A]) w')))"

section \<open>The pipeline\<close>

text \<open>
  The arguments as docker gets them, the published ports and whether the container is detached.
  \<open>prepare_run\<close> is the part of \<open>DockerPassthrough\<close> for \<^verbatim>\<open>docker run\<close>; any other docker command goes
  through unchanged.
\<close>

definition prepare_run ::
    "'w os \<Rightarrow> string \<Rightarrow> string list \<Rightarrow> 'w \<Rightarrow> (string list \<times> string list \<times> bool) option" where
  "prepare_run os active args w =
     (case args of
        [] \<Rightarrow> Some (args, [], False)
      | sub # rest \<Rightarrow>
          if sub = ''run'' then
            (let sc = scanRunArgs rest; (cores, ramGB) = linkCaps os active w
             in map_option (\<lambda>args'. (args', sc_publishes sc, sc_detached sc))
                  (injectDefaults (os_getenv os ''BUNK_GPU'') args (sc_has sc) (load_cfg os w)
                     (linkGPU os active w) cores ramGB))
          else Some (args, [], False))"

definition DockerPassthrough :: "'w os \<Rightarrow> string list \<Rightarrow> bool \<Rightarrow> 'w \<Rightarrow> (int \<times> 'w) option" where
  "DockerPassthrough os args dryRun w =
     (case active_link os w of
        Inl e \<Rightarrow> Some (2, os_stderr os (''bunk: '' @ e @ [CHR 0x0A]) w)
      | Inr (host, active) \<Rightarrow>
          map_option
            (\<lambda>(args', publishes, detached).
               let full = [''--host'', host] @ args';
                   w1 = (if dryRun \<or> os_getenv os ''BUNK_SHOW_CMD'' = ''1''
                         then os_stderr os (''bunk: '' @ join_byte (CHR '' '') full @ [CHR 0x0A]) w else w)
               in if dryRun then (0, w1)
                  else
                    (let (started, w2) =
                           (if os_getenv os ''BUNK_NO_AUTO_FORWARD'' = []
                            then startAutoForwards os publishes active w1 else ([], w1));
                         (code, w3) = execDocker os full w2
                     in (code, stopAutoForwards os started detached w3)))
            (prepare_run os active args w))"

definition DockerShim :: "'w os \<Rightarrow> string list \<Rightarrow> 'w \<Rightarrow> (int \<times> 'w) option" where
  "DockerShim os args w =
     (case active_link os w of
        Inl _ \<Rightarrow> Some (execDocker os args w)
      | Inr _ \<Rightarrow> DockerPassthrough os args False w)"

end
