(* ===== verification/Cli.thy ===== *)
theory Cli
  imports Shim
begin

text \<open>
  The control commands of the CLI (\<^verbatim>\<open>internal/cli/cli.go\<close>): each sends a request to the daemon and prints
  what came back. A command returns its error, \<open>None\<close> when there is none, and the world after it.
  \<open>strconv.Quote\<close>, the \<^verbatim>\<open>%q\<close> of an error text, depends on Unicode's tables of printable characters
  and is the argument \<open>quote\<close>.
\<close>

section \<open>Printing\<close>

abbreviation LF :: char where
  "LF \<equiv> CHR 0x0A"

text \<open>
  \<^verbatim>\<open>%-ns\<close> pads on the right to \<open>n\<close> characters. The strings are names decoded from JSON, which is valid
  UTF-8, so the characters are the bytes that do not continue one.
\<close>

definition rune_count :: "string \<Rightarrow> nat" where
  "rune_count s = length (filter (\<lambda>c. byte_val c div 64 \<noteq> 2) s)"

definition pad_right :: "nat \<Rightarrow> string \<Rightarrow> string" where
  "pad_right n s = s @ replicate (n - rune_count s) CHR '' ''"

definition println :: "'w os \<Rightarrow> string \<Rightarrow> 'w \<Rightarrow> 'w" where
  "println os s w = os_stdout os (s @ [LF]) w"

section \<open>Port specifications\<close>

definition parsePortSpec :: "(string \<Rightarrow> string) \<Rightarrow> string \<Rightarrow> (int \<times> int) result" where
  "parsePortSpec quote spec =
     (case index_byte CHR '':'' spec of
        Some i \<Rightarrow>
          (case sscanf_d (take i spec) of
             None \<Rightarrow> Inl (''bad local port '' @ quote (take i spec))
           | Some local \<Rightarrow>
               (case sscanf_d (drop (i + 1) spec) of
                  None \<Rightarrow> Inl (''bad remote port '' @ quote (drop (i + 1) spec))
                | Some remote \<Rightarrow> Inr (local, remote)))
      | None \<Rightarrow>
          (case sscanf_d spec of
             None \<Rightarrow> Inl (''bad port '' @ quote spec)
           | Some local \<Rightarrow> Inr (local, local)))"

section \<open>The commands\<close>

definition cmd_Pair :: "'w os \<Rightarrow> string \<Rightarrow> string \<Rightarrow> 'w \<Rightarrow> string option \<times> 'w" where
  "cmd_Pair os code name w =
     (case ctl os (zero_ctl_req\<lparr>q_Cmd := CtlPair, q_Code := code, q_Name := name\<rparr>) w of
        (Inl e, w1) \<Rightarrow> (Some e, w1)
      | (Inr resp, w1) \<Rightarrow>
          (None,
           if code = [] then
             os_stdout os (''Pairing code for '' @ r_Name resp @ '':'' @ [LF, LF] @ ''    '' @ r_Code resp @ [LF, LF] @
               ''Share it with the other machine, then run:  bunk pair '' @ r_Code resp @ [LF]) w1
           else println os ''Paired! Now run:  bunk use <machine>'' w1))"

definition machine_line :: "machine_info \<Rightarrow> string" where
  "machine_line m =
     pad_right 20 (mi_Name m) @ '' '' @ pad_right 6 (if mi_Online m then ''online'' else ''offline'') @ '' ''"

definition cmd_Machines :: "'w os \<Rightarrow> 'w \<Rightarrow> string option \<times> 'w" where
  "cmd_Machines os w =
     (case ctl os (zero_ctl_req\<lparr>q_Cmd := CtlMachines\<rparr>) w of
        (Inl e, w1) \<Rightarrow> (Some e, w1)
      | (Inr resp, w1) \<Rightarrow>
          (None,
           if r_Machines resp = []
           then println os (''no machines yet '' @ em_dash @ '' run 'bunk pair' on the machine you want to share'') w1
           else fold (\<lambda>m. println os (machine_line m)) (r_Machines resp)
                  (println os (pad_right 20 ''NAME'' @ '' '' @ pad_right 6 ''STATUS'' @ '' GPU'') w1)))"

definition cmd_Revoke :: "'w os \<Rightarrow> string \<Rightarrow> 'w \<Rightarrow> string option \<times> 'w" where
  "cmd_Revoke os name w =
     (case ctl os (zero_ctl_req\<lparr>q_Cmd := CtlRevoke, q_Name := name\<rparr>) w of
        (Inl e, w1) \<Rightarrow> (Some e, w1)
      | (Inr _, w1) \<Rightarrow> (None, println os (''revoked '' @ name) w1))"

definition createContext :: "'w os \<Rightarrow> string \<Rightarrow> int \<Rightarrow> 'w \<Rightarrow> 'w" where
  "createContext os name port w =
     (case execDockerSilent os [''context'', ''inspect'', name] w of
        (code, w1) \<Rightarrow>
          if code = 0 then w1
          else snd (execDocker os [''context'', ''create'', name, ''--docker'', ''host=tcp://127.0.0.1:'' @ itoa port] w1))"

definition cmd_Use :: "'w os \<Rightarrow> string \<Rightarrow> bool \<Rightarrow> 'w \<Rightarrow> string option \<times> 'w" where
  "cmd_Use os name unset w =
     (if unset then
        (case ctl os (zero_ctl_req\<lparr>q_Cmd := CtlUnuse\<rparr>) w of
           (Inl e, w1) \<Rightarrow> (Some e, w1)
         | (Inr _, w1) \<Rightarrow> (None, println os ''back to local docker'' w1))
      else
        (case ctl os (zero_ctl_req\<lparr>q_Cmd := CtlUse, q_Name := name\<rparr>) w of
           (Inl e, w1) \<Rightarrow> (Some e, w1)
         | (Inr resp, w1) \<Rightarrow>
             (let ctxName = ''bunk-'' @ r_Active resp; w2 = createContext os ctxName (r_Port resp) w1
              in (None,
                  println os (''  docker --context '' @ ctxName @ '' ...   or plain docker via: bunk enable-shim'')
                    (println os (''now using '' @ r_Active resp @ '' (docker proxy on 127.0.0.1:'' @ itoa (r_Port resp) @
                       '', gpu='' @ r_GPU resp @ '')'') w2)))))"

definition cmd_Forward :: "(string \<Rightarrow> string) \<Rightarrow> 'w os \<Rightarrow> string \<Rightarrow> 'w \<Rightarrow> string option \<times> 'w" where
  "cmd_Forward quote os spec w =
     (case parsePortSpec quote spec of
        Inl e \<Rightarrow> (Some e, w)
      | Inr (local, remote) \<Rightarrow>
          (case ctl os (zero_ctl_req\<lparr>q_Cmd := CtlForward, q_Local := local, q_Remote := remote\<rparr>) w of
             (Inl e, w1) \<Rightarrow> (Some e, w1)
           | (Inr resp, w1) \<Rightarrow>
               (None,
                println os (''forwarding 127.0.0.1:'' @ itoa (r_Port resp) @ '' -> remote :'' @ itoa remote @
                  '' (stop: bunk unforward '' @ itoa (r_Port resp) @ '')'') w1)))"

definition cmd_Unforward :: "'w os \<Rightarrow> int \<Rightarrow> 'w \<Rightarrow> string option \<times> 'w" where
  "cmd_Unforward os local w =
     (case ctl os (zero_ctl_req\<lparr>q_Cmd := CtlUnforward, q_Local := local\<rparr>) w of
        (Inl e, w1) \<Rightarrow> (Some e, w1)
      | (Inr _, w1) \<Rightarrow> (None, println os (''closed forward on '' @ itoa local) w1))"

definition forward_line :: "forward_info \<Rightarrow> string" where
  "forward_line f = ''127.0.0.1:'' @ itoa (f_Local f) @ '' -> '' @ f_Machine f @ '':'' @ itoa (f_Remote f)"

definition cmd_Forwards :: "'w os \<Rightarrow> 'w \<Rightarrow> string option \<times> 'w" where
  "cmd_Forwards os w =
     (case ctl os (zero_ctl_req\<lparr>q_Cmd := CtlForwards\<rparr>) w of
        (Inl e, w1) \<Rightarrow> (Some e, w1)
      | (Inr resp, w1) \<Rightarrow>
          (None,
           if r_Forwards resp = [] then println os ''no active forwards'' w1
           else fold (\<lambda>f. println os (forward_line f)) (r_Forwards resp) w1))"

definition shortID :: "string \<Rightarrow> string" where
  "shortID mid = (if length mid > 8 then take 8 mid else mid)"

definition orDash :: "string \<Rightarrow> string" where
  "orDash s = (if s = [] then ''-'' else s)"

definition cmd_Status :: "'w os \<Rightarrow> 'w \<Rightarrow> string option \<times> 'w" where
  "cmd_Status os w =
     (case read_state os w of
        Inl e \<Rightarrow> (Some e, w)
      | Inr st \<Rightarrow>
          (case ctl os (zero_ctl_req\<lparr>q_Cmd := CtlStatus\<rparr>) w of
             (Inl e, w1) \<Rightarrow> (Some e, w1)
           | (Inr resp, w1) \<Rightarrow>
               (None,
                fold (println os)
                  [''machine:  '' @ r_Name resp @ '' ('' @ shortID (ds_MachineID st) @ '')'',
                   ''active:   '' @ orDash (r_Active resp),
                   ''gpu:      '' @ r_GPU resp,
                   ''linked:   '' @ itoa (int (length (r_Machines resp))) @ '' machine(s)''] w1)))"

section \<open>Port specifications round trip\<close>

lemma space_len_digit:
  assumes "is_digit c \<or> c = CHR ''-''"
  shows "space_len (c # s) = 0"
proof -
  have n: "33 \<le> byte_val c \<and> byte_val c < 128" using assms by (auto simp: is_digit_def)
  have "\<not> (hd x = c)" if "x \<in> set unicode_spaces" for x
  proof -
    have "byte_val (hd x) \<le> 32 \<or> 128 \<le> byte_val (hd x)" using that by (auto simp: unicode_spaces_def)
    with n show ?thesis by auto
  qed
  moreover have "x \<noteq> [] \<Longrightarrow> has_prefix (c # s) x \<Longrightarrow> hd x = c" for x
    by (cases x) (auto simp: has_prefix_def)
  ultimately have "filter (has_prefix (c # s)) unicode_spaces = []"
    using unicode_spaces_pos by (auto simp: filter_empty_conv)
  then show ?thesis by (simp add: space_len_def)
qed

lemma trim_left_digit: "is_digit c \<or> c = CHR ''-'' \<Longrightarrow> trim_left (c # s) = c # s"
  using space_len_digit by (subst trim_left.simps) simp

lemma itoa_Cons: "\<exists>c cs. itoa i = c # cs \<and> (is_digit c \<or> c = CHR ''-'')"
proof -
  have "\<exists>c cs. nat_digits n = c # cs \<and> is_digit c" for n
    using nat_digits_all [of n] nat_digits_not_Nil [of n] by (cases "nat_digits n") auto
  from this [of "nat i"] show ?thesis by (cases "i < 0") (auto simp: itoa_def)
qed

lemma takeWhile_digits: "s = [] \<or> \<not> is_digit (hd s) \<Longrightarrow> takeWhile is_digit (nat_digits n @ s) = nat_digits n"
  using nat_digits_all [of n] by (cases s) (auto simp: takeWhile_append2)

lemma split_sign_digits: "split_sign (nat_digits n @ s) = (False, nat_digits n @ s)"
  using split_sign_nat_digits [of n] nat_digits_not_Nil [of n] by (cases "nat_digits n") (auto simp: split_sign_def split: if_splits)

text \<open>\<open>Sscanf\<close> reads the printed number and ignores what follows it.\<close>

lemma sscanf_itoa:
  assumes "is_int64 i" and "s = [] \<or> \<not> is_digit (hd s)"
  shows "sscanf_d (itoa i @ s) = Some i"
proof -
  obtain c cs where c: "itoa i = c # cs" "is_digit c \<or> c = CHR ''-''" using itoa_Cons by blast
  then have t: "trim_left (itoa i @ s) = itoa i @ s" using trim_left_digit by simp
  have p: "parse_int64 (itoa i) = Some i" using assms(1) by simp
  show ?thesis
  proof (cases "i < 0")
    case True
    then have "itoa i = CHR ''-'' # nat_digits (nat (- i))" by (simp add: itoa_def)
    with t p takeWhile_digits [OF assms(2)] show ?thesis by (simp add: sscanf_d_def Let_def)
  next
    case False
    then have "itoa i = nat_digits (nat i)" by (simp add: itoa_def)
    with t p takeWhile_digits [OF assms(2)] show ?thesis by (simp add: sscanf_d_def split_sign_digits Let_def)
  qed
qed

lemma sscanf_itoa_alone: "is_int64 i \<Longrightarrow> sscanf_d (itoa i) = Some i"
  using sscanf_itoa [of i "[]"] by simp

text \<open>C35. What is typed as a forward is read back: a local and a remote port, or one port for both, in
  decimal, give exactly these ports.\<close>

theorem port_spec_round_trip:
  assumes "is_int64 l" and "is_int64 r"
  shows "parsePortSpec quote (itoa l @ '':'' @ itoa r) = Inr (l, r) \<and> parsePortSpec quote (itoa l) = Inr (l, l)"
proof -
  have "index_byte CHR '':'' (itoa l) = None" by (simp add: index_byte_None)
  then show ?thesis using assms by (simp add: parsePortSpec_def sscanf_itoa_alone)
qed

theorem port_spec_round_trip_witness: "parsePortSpec (\<lambda>s. s) (itoa 80 @ '':'' @ itoa 8) = Inr (80, 8)"
  using port_spec_round_trip [of 80 8 "\<lambda>s. s"] by (simp add: is_int64_def)

text \<open>What follows the number is ignored, so a mistyped specification is accepted.\<close>

lemma port_spec_trailing:
  assumes "is_int64 l" and "s \<noteq> []" and "\<not> is_digit (hd s)" and "CHR '':'' \<notin> set s"
  shows "parsePortSpec quote (itoa l @ s) = Inr (l, l)"
proof -
  have "index_byte CHR '':'' (itoa l @ s) = None" using assms(4) by (simp add: index_byte_None)
  then show ?thesis using assms(1,3) by (simp add: parsePortSpec_def sscanf_itoa)
qed

end
