(* ===== verification/IdleGate.thy ===== *)
theory IdleGate
  imports Config GoStd
begin

text \<open>
  The idle gate of the daemon (\<^verbatim>\<open>internal/daemon/idlegate.go\<close>): a loop that asks how long the owner of
  the host has been idle and pauses the labelled containers while they are active. What the host
  answers is \<open>host\<close> at the start and \<open>tick\<close> in each turn of the loop; the commands it runs are the output.
\<close>

section \<open>Starting\<close>

record host =
  h_goos :: string
  h_lookpath :: "string \<Rightarrow> string result"
  h_display :: string

text \<open>
  The threshold in milliseconds and the interval in nanoseconds, a 64-bit \<open>time.Duration\<close> whose
  product wraps; \<open>None\<close> when the gate is not run.
\<close>

definition gate_threshold :: "idle_gate_config \<Rightarrow> int" where
  "gate_threshold c = (if ig_ThresholdMs c \<le> 0 then 30000 else ig_ThresholdMs c)"

definition gate_interval :: "idle_gate_config \<Rightarrow> int" where
  "gate_interval c =
     (let interval = int64 (ig_IdleSeconds c * 1000000000)
      in if interval \<le> 0 then 15 * 1000000000 else interval)"

definition gate_start :: "host \<Rightarrow> idle_gate_config \<Rightarrow> (int \<times> int) option" where
  "gate_start h c =
     (if h_goos h \<noteq> ''linux'' then None
      else (case h_lookpath h ''xprintidle'' of
              Inl _ \<Rightarrow> None
            | Inr _ \<Rightarrow> if h_display h = [] then None else Some (gate_threshold c, gate_interval c)))"

section \<open>One turn\<close>

text \<open>
  \<open>tk_stop\<close> is that the daemon stops before the interval is over; \<open>tk_idle\<close> and \<open>tk_list\<close> are the outputs
  of \<^verbatim>\<open>xprintidle\<close> and \<^verbatim>\<open>docker ps\<close>, \<open>tk_run\<close> the error of \<^verbatim>\<open>docker pause\<close> or \<^verbatim>\<open>unpause\<close> on a container.
\<close>

record tick =
  tk_stop :: bool
  tk_idle :: "string result"
  tk_list :: "string result"
  tk_run :: "string \<Rightarrow> string \<Rightarrow> string option"

record gate_cmd =
  gc_verb :: string
  gc_id :: string
  gc_err :: "string option"

definition xprintidle :: "tick \<Rightarrow> int option" where
  "xprintidle tk = (case tk_idle tk of Inl _ \<Rightarrow> None | Inr out \<Rightarrow> parse_int64 (trim_space out))"

definition dockerListIdleGate :: "tick \<Rightarrow> string list result" where
  "dockerListIdleGate tk = (case tk_list tk of Inl e \<Rightarrow> Inl e | Inr out \<Rightarrow> Inr (GoStd.fields out))"

definition setPaused :: "tick \<Rightarrow> bool \<Rightarrow> gate_cmd list" where
  "setPaused tk pause =
     (case dockerListIdleGate tk of
        Inl _ \<Rightarrow> []
      | Inr ids \<Rightarrow>
          (let verb = (if pause then ''pause'' else ''unpause'')
           in map (\<lambda>cid. \<lparr>gc_verb = verb, gc_id = cid, gc_err = tk_run tk verb cid\<rparr>) ids))"

definition gate_turn :: "int \<Rightarrow> tick \<Rightarrow> bool \<Rightarrow> bool \<times> gate_cmd list" where
  "gate_turn threshold tk paused =
     (case xprintidle tk of
        None \<Rightarrow> (paused, [])
      | Some idle \<Rightarrow>
          (let active = idle < threshold;
               (p1, c1) = (if active \<and> \<not> paused then (True, setPaused tk True) else (paused, []));
               (p2, c2) = (if \<not> active \<and> p1 then (False, setPaused tk False) else (p1, []))
           in (p2, c1 @ c2)))"

text \<open>The loop, until the daemon stops or for as many turns as are given.\<close>

fun gate_loop :: "int \<Rightarrow> tick list \<Rightarrow> bool \<Rightarrow> bool \<times> gate_cmd list" where
  "gate_loop threshold [] paused = (paused, [])"
| "gate_loop threshold (tk # tks) paused =
     (if tk_stop tk then (paused, [])
      else (let (p, cs) = gate_turn threshold tk paused; (p', cs') = gate_loop threshold tks p
            in (p', cs @ cs')))"

definition runIdleGate :: "host \<Rightarrow> idle_gate_config \<Rightarrow> tick list \<Rightarrow> gate_cmd list" where
  "runIdleGate h c tks =
     (case gate_start h c of
        None \<Rightarrow> []
      | Some (threshold, _) \<Rightarrow> snd (gate_loop threshold tks False))"

section \<open>What the loop computes\<close>

text \<open>The ticks before the stop, and the last reading among them that was a number.\<close>

definition live_ticks :: "tick list \<Rightarrow> tick list" where
  "live_ticks tks = takeWhile (\<lambda>tk. \<not> tk_stop tk) tks"

fun last_reading :: "int option \<Rightarrow> tick list \<Rightarrow> int option" where
  "last_reading r [] = r"
| "last_reading r (tk # tks) = last_reading (case xprintidle tk of None \<Rightarrow> r | Some i \<Rightarrow> Some i) tks"

definition active_at :: "int \<Rightarrow> int option \<Rightarrow> bool" where
  "active_at threshold r = (case r of None \<Rightarrow> False | Some i \<Rightarrow> i < threshold)"

lemma gate_turn_paused:
  "fst (gate_turn th tk p) = (case xprintidle tk of None \<Rightarrow> p | Some i \<Rightarrow> i < th)"
  by (auto simp: gate_turn_def Let_def split: option.split)

lemma gate_turn_cmds:
  "snd (gate_turn th tk p) = (if fst (gate_turn th tk p) = p then [] else setPaused tk (\<not> p))"
  by (auto simp: gate_turn_def Let_def split: option.split)

lemma gate_loop_Cons:
  "\<not> tk_stop tk \<Longrightarrow> gate_loop th (tk # tks) p =
    (fst (gate_loop th tks (fst (gate_turn th tk p))),
     snd (gate_turn th tk p) @ snd (gate_loop th tks (fst (gate_turn th tk p))))"
  by (simp add: case_prod_beta Let_def)

text \<open>What the commands do to one container: the last one that succeeded on it decides.\<close>

fun paused_by :: "bool \<Rightarrow> gate_cmd list \<Rightarrow> string \<Rightarrow> bool" where
  "paused_by b [] cid = b"
| "paused_by b (c # cs) cid =
     paused_by (if gc_id c = cid \<and> gc_err c = None then gc_verb c = ''pause'' else b) cs cid"

lemma paused_by_append: "paused_by b (xs @ ys) cid = paused_by (paused_by b xs cid) ys cid"
  by (induction xs arbitrary: b) simp_all

lemma paused_by_same:
  "\<forall>c\<in>set cs. gc_err c = None \<and> (gc_verb c = ''pause'') = v \<Longrightarrow>
   paused_by b cs cid = (if cid \<in> gc_id ` set cs then v else b)"
  by (induction cs arbitrary: b) auto

text \<open>Docker works in a tick when it lists the containers \<open>ids\<close> and every command on them succeeds.\<close>

definition docker_works :: "string list \<Rightarrow> tick \<Rightarrow> bool" where
  "docker_works ids tk \<longleftrightarrow> dockerListIdleGate tk = Inr ids \<and> (\<forall>v cid. tk_run tk v cid = None)"

lemma paused_by_setPaused:
  assumes "docker_works ids tk" and "cid \<in> set ids"
  shows "paused_by b (setPaused tk pause) cid = pause"
proof -
  have "setPaused tk pause = map (\<lambda>c. \<lparr>gc_verb = if pause then ''pause'' else ''unpause'', gc_id = c, gc_err = None\<rparr>) ids"
    using assms(1) by (simp add: setPaused_def docker_works_def)
  moreover have "(if pause then ''pause'' else ''unpause'') = ''pause'' \<longleftrightarrow> pause" by simp
  ultimately show ?thesis using assms(2) by (subst paused_by_same [of _ pause]) (simp_all add: image_image)
qed

lemma gate_turn_container:
  assumes "docker_works ids tk" and "cid \<in> set ids"
  shows "paused_by p (snd (gate_turn th tk p)) cid = fst (gate_turn th tk p)"
  using paused_by_setPaused [OF assms] by (auto simp: gate_turn_cmds)

lemma gate_loop_container:
  assumes "\<forall>tk\<in>set (live_ticks tks). docker_works ids tk" and "cid \<in> set ids"
  shows "paused_by p (snd (gate_loop th tks p)) cid = fst (gate_loop th tks p)"
  using assms(1)
proof (induction tks arbitrary: p)
  case (Cons tk tks)
  show ?case
  proof (cases "tk_stop tk")
    case False
    with Cons.prems have "docker_works ids tk" "\<forall>tk\<in>set (live_ticks tks). docker_works ids tk"
      by (simp_all add: live_ticks_def)
    with False Cons.IH gate_turn_container [OF _ assms(2)] show ?thesis
      by (simp only: gate_loop_Cons fst_conv snd_conv paused_by_append not_False_eq_True)
  qed simp
qed simp

lemma gate_loop_paused:
  "fst (gate_loop th tks (active_at th r)) = active_at th (last_reading r (live_ticks tks))"
proof (induction tks arbitrary: r)
  case (Cons tk tks)
  show ?case
  proof (cases "tk_stop tk")
    case False
    have "fst (gate_turn th tk (active_at th r)) = active_at th (case xprintidle tk of None \<Rightarrow> r | Some i \<Rightarrow> Some i)"
      by (simp add: gate_turn_paused active_at_def split: option.split)
    with False Cons.IH show ?thesis
      by (simp add: gate_loop_Cons live_ticks_def del: gate_loop.simps(2))
  qed (simp add: live_ticks_def)
qed (simp add: live_ticks_def)


definition demo_tick :: "string result \<Rightarrow> tick" where
  "demo_tick idle = \<lparr>tk_stop = False, tk_idle = idle, tk_list = Inr ''c1'', tk_run = (\<lambda>_ _. None)\<rparr>"

definition demo_host :: host where
  "demo_host = \<lparr>h_goos = ''linux'', h_lookpath = (\<lambda>_. Inr ''/usr/bin/xprintidle''), h_display = '':0''\<rparr>"

definition demo_gate :: idle_gate_config where
  "demo_gate = \<lparr>ig_Enabled = True, ig_IdleSeconds = 5, ig_ThresholdMs = 9\<rparr>"

lemma demo_reading:
  "xprintidle (demo_tick (Inr ''8'')) = Some 8" "xprintidle (demo_tick (Inr ''x'')) = None"
  by (code_simp, code_simp)


text \<open>C34. The gate's parameters: a gate that runs has a positive threshold and never spins, since its
  interval is positive even where the configured seconds overflow; up to 292 years it is the configured
  one.\<close>

theorem gate_bounds:
  assumes "gate_start h c = Some (threshold, interval)"
  shows "threshold > 0 \<and> 0 < interval \<and> interval < 2 ^ 63 \<and>
    (0 < ig_IdleSeconds c \<and> ig_IdleSeconds c \<le> 9223372036 \<longrightarrow> interval = ig_IdleSeconds c * 1000000000)"
proof -
  have eq: "threshold = gate_threshold c" "interval = gate_interval c"
    using assms by (auto simp: gate_start_def split: if_splits sum.splits)
  have r: "is_int64 (int64 (ig_IdleSeconds c * 1000000000))" by (rule int64_range)
  have i: "int64 (ig_IdleSeconds c * 1000000000) = ig_IdleSeconds c * 1000000000"
    if "0 < ig_IdleSeconds c" "ig_IdleSeconds c \<le> 9223372036"
    using that by (intro int64_id) (simp add: is_int64_def)
  show ?thesis unfolding eq using r i
    by (auto simp: gate_threshold_def gate_interval_def Let_def is_int64_def)
qed

theorem gate_bounds_witness: "gate_threshold demo_gate > 0 \<and> gate_interval demo_gate > 0"
  using gate_bounds [of demo_host demo_gate "gate_threshold demo_gate" "gate_interval demo_gate"]
  by (simp add: gate_start_def demo_host_def)

text \<open>
  When the list of containers cannot be read in the tick that should pause them, the gate still takes
  them for paused, and the ticks that follow pause nothing while the owner stays active.
\<close>

lemma failed_pause_is_not_repeated:
  assumes "\<not> tk_stop tk" and "xprintidle tk = Some i" and "i < th" and "tk_list tk = Inl e"
    and "\<forall>tk\<in>set tks. \<exists>j. xprintidle tk = Some j \<and> j < th"
  shows "snd (gate_loop th (tk # tks) False) = []"
proof -
  have "snd (gate_loop th tks True) = []" using assms(5)
  proof (induction tks)
    case (Cons t tks)
    then have "fst (gate_turn th t True) = True" by (auto simp: gate_turn_paused)
    with Cons show ?case by (cases "tk_stop t") (simp_all add: gate_loop_Cons gate_turn_cmds del: gate_loop.simps(2), simp)
  qed simp
  moreover have "fst (gate_turn th tk False)" using assms by (simp add: gate_turn_paused)
  ultimately show ?thesis using assms
    by (simp add: gate_loop_Cons gate_turn_cmds setPaused_def dockerListIdleGate_def del: gate_loop.simps(2))
qed

end
