(* ===== verification/Mgmt.thy ===== *)
theory Mgmt
  imports Cli IdleGate
begin

text \<open>
  The management commands of the CLI (\<^verbatim>\<open>internal/cli/mgmt.go\<close>): the background daemon and its pid file,
  the docker shim, the idle gate's configuration. \<open>mgmt\<close> adds to the calls of \<open>os\<close> those that change files
  and processes; \<open>None\<close> is the nil error.
\<close>

section \<open>The operating system\<close>

datatype removal = Removed | NotExist | NotRemoved string

record 'w mgmt =
  mg_os :: "'w os"
  mg_self :: "string result"
  mg_mkdir_all :: "string \<Rightarrow> 'w \<Rightarrow> string option \<times> 'w"
  mg_open_append :: "string \<Rightarrow> 'w \<Rightarrow> string option \<times> 'w"
  mg_start :: "string \<Rightarrow> string list \<Rightarrow> string \<Rightarrow> 'w \<Rightarrow> int result \<times> 'w"
  mg_write :: "string \<Rightarrow> string \<Rightarrow> nat \<Rightarrow> 'w \<Rightarrow> string option \<times> 'w"
  mg_sleep :: "nat \<Rightarrow> 'w \<Rightarrow> 'w"
  mg_find_process :: "int \<Rightarrow> string option"
  mg_signal :: "int \<Rightarrow> nat \<Rightarrow> 'w \<Rightarrow> string option \<times> 'w"
  mg_remove :: "string \<Rightarrow> 'w \<Rightarrow> removal \<times> 'w"
  mg_symlink :: "string \<Rightarrow> string \<Rightarrow> 'w \<Rightarrow> string option \<times> 'w"
  mg_yaml_marshal :: "config \<Rightarrow> string result"

definition SIGTERM :: nat where
  "SIGTERM = 15"

text \<open>File modes, \<^verbatim>\<open>0o644\<close> and \<^verbatim>\<open>0o755\<close>.\<close>

definition mode_file :: nat where "mode_file = 420"
definition mode_exec :: nat where "mode_exec = 493"

definition user_home :: "'w os \<Rightarrow> string option" where
  "user_home os = (if os_getenv os ''HOME'' = [] then None else Some (os_getenv os ''HOME''))"

section \<open>The background daemon\<close>

definition pidPath :: "'w os \<Rightarrow> string" where
  "pidPath os = path_join [Home os, ''daemon.pid'']"

definition logPath :: "'w os \<Rightarrow> string" where
  "logPath os = path_join [Home os, ''daemon.log'']"

text \<open>\<open>None\<close> stands for any error: both callers drop its text.\<close>

definition readPid :: "'w mgmt \<Rightarrow> 'w \<Rightarrow> int option" where
  "readPid M w =
     (case os_read (mg_os M) (pidPath (mg_os M)) w of
        Inl _ \<Rightarrow> None
      | Inr raw \<Rightarrow> sscanf_d (trim_space raw))"

definition daemonRunning :: "'w mgmt \<Rightarrow> 'w \<Rightarrow> bool \<times> 'w" where
  "daemonRunning M w =
     (case readPid M w of
        None \<Rightarrow> (False, w)
      | Some pid \<Rightarrow>
          (case mg_find_process M pid of
             Some _ \<Rightarrow> (False, w)
           | None \<Rightarrow> (case mg_signal M pid 0 w of (err, w1) \<Rightarrow> (err = None, w1))))"

text \<open>After the checks: the log file is opened, the process started, its pid written.\<close>

definition spawn_daemon :: "'w mgmt \<Rightarrow> string \<Rightarrow> 'w \<Rightarrow> string option \<times> 'w" where
  "spawn_daemon M self w =
     (let os = mg_os M; w1 = snd (mg_mkdir_all M (Home os) w)
      in case mg_open_append M (logPath os) w1 of
           (Some e, w2) \<Rightarrow> (Some e, w2)
         | (None, w2) \<Rightarrow>
             (case mg_start M self [''daemon''] (logPath os) w2 of
                (Inl e, w3) \<Rightarrow> (Some e, w3)
              | (Inr pid, w3) \<Rightarrow>
                  (case mg_write M (pidPath os) (itoa pid @ [LF]) mode_file w3 of
                     (Some e, w4) \<Rightarrow> (Some e, w4)
                   | (None, w4) \<Rightarrow>
                       (None, println os (''bunk daemon started (logs: '' @ logPath os @ '')'') (mg_sleep M 300 w4)))))"

definition StartDaemon :: "'w mgmt \<Rightarrow> 'w \<Rightarrow> string option \<times> 'w" where
  "StartDaemon M w =
     (case daemonRunning M w of
        (True, w1) \<Rightarrow> (Some ''daemon already running'', w1)
      | (False, w1) \<Rightarrow> (case mg_self M of Inl e \<Rightarrow> (Some e, w1) | Inr self \<Rightarrow> spawn_daemon M self w1))"

definition StopDaemon :: "'w mgmt \<Rightarrow> 'w \<Rightarrow> string option \<times> 'w" where
  "StopDaemon M w =
     (case readPid M w of
        None \<Rightarrow> (Some ''daemon not running'', w)
      | Some pid \<Rightarrow>
          (let w1 = (case mg_find_process M pid of None \<Rightarrow> snd (mg_signal M pid SIGTERM w) | Some _ \<Rightarrow> w);
               w2 = snd (mg_remove M (pidPath (mg_os M)) w1)
           in (None, println (mg_os M) ''bunk daemon stopped'' w2)))"

definition RestartDaemon :: "'w mgmt \<Rightarrow> 'w \<Rightarrow> string option \<times> 'w" where
  "RestartDaemon M w = StartDaemon M (mg_sleep M 200 (snd (StopDaemon M w)))"

section \<open>The docker shim\<close>

definition shim_script :: "string \<Rightarrow> string" where
  "shim_script self =
     ''#!/bin/sh'' @ [LF] @ ''# bunk shim: routes docker to the active bunk machine'' @ [LF] @
     ''exec '' @ [CHR 0x22] @ self @ [CHR 0x22] @ '' docker-shim '' @ [CHR 0x22] @ ''$@'' @ [CHR 0x22, LF]"

definition local_bin :: "string \<Rightarrow> string" where
  "local_bin home = path_join [home, ''.local'', ''bin'']"

definition link_shim :: "'w mgmt \<Rightarrow> 'w \<Rightarrow> 'w" where
  "link_shim M w =
     (case user_home (mg_os M) of
        None \<Rightarrow> w
      | Some lh \<Rightarrow>
          if os_is_dir (mg_os M) (local_bin lh) w = Some True
          then println (mg_os M) ''linked docker shim into ~/.local/bin (already on most PATHs)''
                 (snd (mg_symlink M (shimPath (mg_os M)) (path_join [local_bin lh, ''docker'']) w))
          else w)"

definition EnableShim :: "'w mgmt \<Rightarrow> 'w \<Rightarrow> string option \<times> 'w" where
  "EnableShim M w =
     (let os = mg_os M; w1 = snd (mg_mkdir_all M (shimDir os) w);
          self = (case mg_self M of Inl _ \<Rightarrow> ''bunk'' | Inr s \<Rightarrow> s)
      in case mg_write M (shimPath os) (shim_script self) mode_exec w1 of
           (Some e, w2) \<Rightarrow> (Some e, w2)
         | (None, w2) \<Rightarrow>
             (None,
              fold (println os)
                [''docker shim installed at '' @ shimPath os,
                 ''add to PATH if needed:  export PATH='' @ [CHR 0x22] @ ''$HOME/.bunk/bin:$PATH'' @ [CHR 0x22],
                 ''docker now runs on the active bunk machine; 'bunk unuse' goes back to local.'']
                (link_shim M w2)))"

definition DisableShim :: "'w mgmt \<Rightarrow> 'w \<Rightarrow> string option \<times> 'w" where
  "DisableShim M w =
     (case mg_remove M (shimPath (mg_os M)) w of
        (NotRemoved e, w1) \<Rightarrow> (Some e, w1)
      | (_, w1) \<Rightarrow>
          (None,
           println (mg_os M) ''docker shim removed''
             (case user_home (mg_os M) of
                None \<Rightarrow> w1
              | Some lh \<Rightarrow> snd (mg_remove M (path_join [lh, ''.local'', ''bin'', ''docker'']) w1))))"

section \<open>The idle gate\<close>

definition gate_on :: "config \<Rightarrow> config" where
  "gate_on c =
     c\<lparr>cfg_IdleGate := (cfg_IdleGate c)\<lparr>ig_Enabled := True,
         ig_ThresholdMs := (if ig_ThresholdMs (cfg_IdleGate c) = 0 then 30000 else ig_ThresholdMs (cfg_IdleGate c))\<rparr>\<rparr>"

definition InstallIdleGate :: "'w mgmt \<Rightarrow> 'w \<Rightarrow> string option \<times> 'w" where
  "InstallIdleGate M w =
     (let os = mg_os M; path = path_join [Home os, ''config.yaml'']
      in case mg_mkdir_all M (Home os) w of
           (Some e, w1) \<Rightarrow> (Some e, w1)
         | (None, w1) \<Rightarrow>
             (let c = (case os_read os path w1 of Inl _ \<Rightarrow> default_config | Inr raw \<Rightarrow> os_yaml os raw default_config)
              in case mg_yaml_marshal M (gate_on c) of
                   Inl e \<Rightarrow> (Some e, w1)
                 | Inr raw \<Rightarrow>
                     (case mg_write M path raw mode_file w1 of
                        (Some e, w2) \<Rightarrow> (Some e, w2)
                      | (None, w2) \<Rightarrow>
                          (None,
                           fold (println os)
                             [''idle-gate enabled (needs Linux + X11 + xprintidle; restart the daemon: bunk restart)'',
                              ''label containers to gate:  docker run -l bunk.idle-gate=1 ...''] w2))))"

end
