(* ===== verification/BunkMain.thy ===== *)
theory BunkMain
  imports Mgmt Connect
begin

text \<open>
  The bunk command (\<^verbatim>\<open>cmd/bunk/main.go\<close>): the reading of its arguments and the dispatch to the CLI, the
  daemon or docker. The result is the exit code; \<open>None\<close> is a panic of the docker pipeline, which the
  properties of the pipeline exclude. The daemon's run, which only returns with an error, is the argument \<open>daemon_cmd\<close>;
  \<open>runDaemon\<close> is its start on the model of the daemon.
\<close>

definition usage_lines :: "string list" where
  "usage_lines =
     [''bunk '' @ em_dash @ '' your containers bunk on a friend's machine'',
      [],
      ''Usage:'',
      ''  bunk pair [code] [--name NAME]   one-time linking (host: no code = create one)'',
      ''  bunk use <machine> [--unset]     point docker at that machine (or go local)'',
      ''  bunk machines                    list linked machines + status'',
      ''  bunk forward <local>[:<remote>]  expose a remote service port on localhost'',
      ''  bunk unforward <port>            close a forward'',
      ''  bunk forwards                    list active forwards'',
      ''  bunk revoke <machine>            cut a link immediately'',
      ''  bunk status                      daemon + hub status'',
      ''  bunk start | stop | restart      manage the background daemon'',
      ''  bunk enable-shim | disable-shim  make plain 'docker' route to the active machine'',
      ''  bunk install-idle-gate           pause containers while the owner is active'',
      ''  bunk --dry-run run <image> ...   show the exact docker command'',
      [],
      ''Anything else is docker:  bunk run/exec/logs/ps/stop/rm/cp/build/push/pull/compose ...'',
      ''runs on the active machine with safe defaults (CPU/RAM/pids limits, GPU passthrough).'']"

definition usage :: string where
  "usage = concat (map (\<lambda>l. l @ [LF]) usage_lines)"

section \<open>Arguments\<close>

text \<open>The loop over the arguments of \<^verbatim>\<open>bunk pair\<close>: the code and the name.\<close>

fun pair_args :: "string list \<Rightarrow> string \<Rightarrow> string \<Rightarrow> string \<times> string" where
  "pair_args [] code name = (code, name)"
| "pair_args (a # rest) code name =
     (if a = ''--name'' then (case rest of [] \<Rightarrow> (code, name) | n # rest' \<Rightarrow> pair_args rest' code n)
      else pair_args rest (if \<not> has_prefix a ''-'' \<and> code = [] then a else code) name)"

text \<open>The loop over the arguments of \<^verbatim>\<open>bunk use\<close>: whether to unset, and the name.\<close>

fun use_args :: "string list \<Rightarrow> bool \<Rightarrow> string \<Rightarrow> bool \<times> string" where
  "use_args [] unset name = (unset, name)"
| "use_args (a # rest) unset name =
     (if a = ''--unset'' then use_args rest True name
      else use_args rest unset (if \<not> has_prefix a ''-'' then a else name))"

text \<open>The error texts of \<open>strconv.Atoi\<close> quote their argument.\<close>

definition atoi_error :: "(string \<Rightarrow> string) \<Rightarrow> string \<Rightarrow> string" where
  "atoi_error quote s =
     (let (neg, ds) = split_sign s
      in ''strconv.Atoi: parsing '' @ quote s @ '': '' @
         (if ds \<noteq> [] \<and> list_all is_digit ds then ''value out of range'' else ''invalid syntax''))"

section \<open>Dispatch\<close>

text \<open>A command of the switch that is not docker: its error, and the world after it.\<close>

definition run_command ::
    "(string \<Rightarrow> string) \<Rightarrow> 'w mgmt \<Rightarrow> ('w \<Rightarrow> string option \<times> 'w) \<Rightarrow> string \<Rightarrow> string list \<Rightarrow> 'w \<Rightarrow> (string option \<times> 'w) option" where
  "run_command quote M daemon_cmd cmd rest w =
     (let os = mg_os M
      in if cmd = ''pair'' then (let (code, name) = pair_args rest [] [] in Some (cmd_Pair os code name w))
      else if cmd = ''use'' then
        (let (unset, name) = use_args rest False []
         in Some (if \<not> unset \<and> name = [] then (Some ''usage: bunk use <machine>'', w) else cmd_Use os name unset w))
      else if cmd = ''unuse'' then Some (cmd_Use os [] True w)
      else if cmd = ''machines'' then Some (cmd_Machines os w)
      else if cmd = ''forward'' then
        Some (case rest of [spec] \<Rightarrow> cmd_Forward quote os spec w
              | _ \<Rightarrow> (Some ''usage: bunk forward <local>[:<remote>]'', w))
      else if cmd = ''unforward'' then
        Some (case rest of
                [p] \<Rightarrow> (case parse_int64 p of
                         None \<Rightarrow> (Some (atoi_error quote p), w)
                       | Some port \<Rightarrow> cmd_Unforward os port w)
              | _ \<Rightarrow> (Some ''usage: bunk unforward <port>'', w))
      else if cmd = ''forwards'' then Some (cmd_Forwards os w)
      else if cmd = ''revoke'' then
        Some (case rest of [name] \<Rightarrow> cmd_Revoke os name w | _ \<Rightarrow> (Some ''usage: bunk revoke <machine>'', w))
      else if cmd = ''status'' then Some (cmd_Status os w)
      else if cmd = ''daemon'' then Some (daemon_cmd w)
      else if cmd = ''start'' then Some (StartDaemon M w)
      else if cmd = ''stop'' then Some (StopDaemon M w)
      else if cmd = ''restart'' then Some (RestartDaemon M w)
      else if cmd = ''enable-shim'' then Some (EnableShim M w)
      else if cmd = ''disable-shim'' then Some (DisableShim M w)
      else if cmd = ''install-idle-gate'' then Some (InstallIdleGate M w)
      else None)"

definition bunk_switch ::
    "(string \<Rightarrow> string) \<Rightarrow> 'w mgmt \<Rightarrow> ('w \<Rightarrow> string option \<times> 'w) \<Rightarrow> bool \<Rightarrow> string list \<Rightarrow> 'w \<Rightarrow> (int \<times> 'w) option" where
  "bunk_switch quote M daemon_cmd dryRun args w =
     (case run_command quote M daemon_cmd (hd args) (tl args) w of
        Some (None, w1) \<Rightarrow> Some (0, w1)
      | Some (Some e, w1) \<Rightarrow> Some (1, os_stderr (mg_os M) (''bunk: '' @ e @ [LF]) w1)
      | None \<Rightarrow>
          if hd args = ''docker-shim'' then DockerShim (mg_os M) (tl args) w
          else if hd args \<in> set [''help'', ''--help'', ''-h''] then Some (0, os_stdout (mg_os M) usage w)
          else DockerPassthrough (mg_os M) args dryRun w)"

definition bunk_main ::
    "(string \<Rightarrow> string) \<Rightarrow> 'w mgmt \<Rightarrow> ('w \<Rightarrow> string option \<times> 'w) \<Rightarrow> string list \<Rightarrow> 'w \<Rightarrow> (int \<times> 'w) option" where
  "bunk_main quote M daemon_cmd args w =
     (let (dryRun, args') = (case args of a # rest \<Rightarrow> if a = ''--dry-run'' then (True, rest) else (False, args)
                             | [] \<Rightarrow> (False, []))
      in if args' = [] then Some (0, os_stdout (mg_os M) usage w)
         else bunk_switch quote M daemon_cmd dryRun args' w)"

text \<open>The start of the daemon: \<open>New\<close>, then \<open>Run\<close> up to its loops.\<close>

definition runDaemon ::
    "denv \<Rightarrow> (string \<Rightarrow> config \<Rightarrow> config result) \<Rightarrow> (string \<Rightarrow> state result) \<Rightarrow> string result \<Rightarrow> string option \<Rightarrow>
     (string \<Rightarrow> string) \<Rightarrow> file_read \<Rightarrow> file_read \<Rightarrow> ((string \<times> int) list \<Rightarrow> (string \<times> int) list) \<Rightarrow> daemon result" where
  "runDaemon env yaml json rnd mkdir getenv cfg_file st_file ord =
     (case daemon_New env yaml json rnd mkdir getenv cfg_file st_file of
        Inl e \<Rightarrow> Inl e
      | Inr d \<Rightarrow> daemon_Run env ord d)"

end
