(* ===== verification/ShimProps.thy ===== *)
theory ShimProps
  imports Shim
begin

text \<open>
  Correctness of the docker command line: the scan reads back a printed command line, the injected
  limits respect the user and the host, injection is idempotent, the host port of a publish
  specification, and the search for docker that never finds the shim itself.
\<close>

section \<open>The scan\<close>

text \<open>The scan only ever adds to its accumulator.\<close>

definition scan_plus :: "scan \<Rightarrow> scan \<Rightarrow> scan" where
  "scan_plus a b =
     \<lparr>sc_has = sc_has a @ sc_has b, sc_publishes = sc_publishes a @ sc_publishes b,
      sc_detached = (sc_detached a \<or> sc_detached b)\<rparr>"

lemma scan_plus_assoc: "scan_plus (scan_plus a b) c = scan_plus a (scan_plus b c)"
  by (simp add: scan_plus_def)

lemma scan_plus_empty [simp]: "scan_plus a empty_scan = a" "scan_plus empty_scan a = a"
  by (simp_all add: scan_plus_def empty_scan_def)

lemma scan_plus_sel [simp]:
  "sc_has (scan_plus a b) = sc_has a @ sc_has b"
  "sc_publishes (scan_plus a b) = sc_publishes a @ sc_publishes b"
  "sc_detached (scan_plus a b) = (sc_detached a \<or> sc_detached b)"
  by (simp_all add: scan_plus_def)

lemma scan_short_plus:
  "scan_short body rest (scan_plus a b) =
     (scan_plus a (fst (scan_short body rest b)), snd (scan_short body rest b))"
proof (induction body rest b rule: scan_short.induct)
  case (2 c body rest b)
  let ?f = "CHR ''-'' # string_of_byte c"

  show ?case
  proof (cases "?f = ''-p''")
    case True
    then show ?thesis by (cases body; cases rest) (simp_all add: Let_def scan_plus_def)
  next
    case False
    then show ?thesis using 2 [OF refl refl False] by (simp add: Let_def scan_plus_def)
  qed
qed simp

lemma scan_long_plus:
  "scan_long t rest (scan_plus a b) =
     (scan_plus a (fst (scan_long t rest b)), snd (scan_long t rest b))"
  by (simp add: scan_long_def scan_plus_def split: prod.splits)

lemma scan_args_plus: "scan_args args (scan_plus a b) = scan_plus a (scan_args args b)"
proof (induction args b rule: scan_args.induct)
  case (2 t rest b)
  show ?case
  proof (cases "t = ''--'' \<or> t = [] \<or> hd t \<noteq> CHR ''-''")
    case True
    then show ?thesis by auto
  next
    case False
    show ?thesis
    proof (cases "has_prefix t ''--''")
      case True
      with False show ?thesis using 2(1) by (auto simp: scan_long_plus split: prod.split)
    next
      case pre: False
      with False show ?thesis using 2(2) by (auto simp: scan_short_plus split: prod.split)
    qed
  qed
qed simp

lemma scan_args_acc: "scan_args args sc = scan_plus sc (scanRunArgs args)"
  using scan_args_plus [of args sc empty_scan] by (simp add: scanRunArgs_def)

text \<open>A long flag with its value in the next token.\<close>

definition value_flag :: "string \<Rightarrow> bool" where
  "value_flag f \<longleftrightarrow> takesValue f \<and> f \<noteq> ''--publish'' \<and> f \<noteq> ''--detach'' \<and> CHR ''='' \<notin> set f"

lemma takesValue_long: "takesValue f \<Longrightarrow> has_prefix f ''--'' \<and> f \<noteq> ''--'' \<and> hd f = CHR ''-''"
  by (auto simp: takesValue_def has_prefix_def)

lemma has_prefix_dashes: "has_prefix t ''--'' \<Longrightarrow> t \<noteq> [] \<and> hd t = CHR ''-''"
  by (cases t) (auto simp: has_prefix_def)

lemma scan_value_flag:
  assumes "value_flag f"
  shows "scan_args (f # v # rest) sc = scan_args rest (sc\<lparr>sc_has := sc_has sc @ [f]\<rparr>)"
proof -
  have "long_flag f = (f, [])"
    using assms by (simp add: long_flag_def value_flag_def index_byte_None [THEN iffD2])
  then have "scan_long f (v # rest) sc = (sc\<lparr>sc_has := sc_has sc @ [f]\<rparr>, rest)"
    using assms by (simp add: scan_long_def value_flag_def)
  then show ?thesis
    using assms takesValue_long [of f] has_prefix_dashes [of f] by (simp add: value_flag_def)
qed

section \<open>What is injected\<close>

text \<open>The injected flags as pairs of a name and a value.\<close>

definition extra_pairs ::
    "string \<Rightarrow> string list \<Rightarrow> config \<Rightarrow> string \<Rightarrow> int \<Rightarrow> int \<Rightarrow> (string \<times> string) list" where
  "extra_pairs bunk_gpu has cfg gpu cores ramGB =
     (if ''--cpus'' \<notin> set has \<and> ''--cpu-shares'' \<notin> set has \<and> clamp_cpus cfg cores > 0
      then [(''--cpus'', itoa (clamp_cpus cfg cores))] else []) @
     (if ''--memory'' \<notin> set has \<and> ''-m'' \<notin> set has \<and> clamp_mem cfg ramGB > 0
      then [(''--memory'', itoa (clamp_mem cfg ramGB) @ ''g'')] else []) @
     (if ''--pids-limit'' \<notin> set has \<and> l_Pids (cfg_Limits cfg) > 0
      then [(''--pids-limit'', itoa (l_Pids (cfg_Limits cfg)))] else []) @
     (if cfg_GPU cfg \<noteq> ''off'' \<and> bunk_gpu \<noteq> ''off'' \<and> gpu = ''nvidia'' \<and>
         ''--gpus'' \<notin> set has \<and> ''--device'' \<notin> set has
      then [(''--gpus'', ''all'')] else [])"

definition pair_tokens :: "(string \<times> string) list \<Rightarrow> string list" where
  "pair_tokens ps = concat (map (\<lambda>(f, v). [f, v]) ps)"

lemma extra_flags_pairs: "extra_flags g has cfg gpu cores ram = pair_tokens (extra_pairs g has cfg gpu cores ram)"
  by (simp add: extra_flags_def extra_pairs_def pair_tokens_def Let_def)

lemma extra_pairs_names:
  "(f, v) \<in> set (extra_pairs g has cfg gpu cores ram) \<Longrightarrow>
   f \<in> {''--cpus'', ''--memory'', ''--pids-limit'', ''--gpus''} \<and> f \<notin> set has"
  by (auto simp: extra_pairs_def split: if_splits)

lemma extra_value_flags: "\<forall>(f, v)\<in>set (extra_pairs g has cfg gpu cores ram). value_flag f"
proof -
  have "value_flag ''--cpus''" "value_flag ''--memory''" "value_flag ''--pids-limit''" "value_flag ''--gpus''"
    by (simp_all add: value_flag_def takesValue_def)
  then show ?thesis using extra_pairs_names by blast
qed

lemma scan_pairs:
  "\<forall>(f, v)\<in>set ps. value_flag f \<Longrightarrow>
   scan_args (pair_tokens ps @ rest) sc = scan_args rest (sc\<lparr>sc_has := sc_has sc @ map fst ps\<rparr>)"
proof (induction ps arbitrary: sc)
  case (Cons p ps)
  obtain f v where p: "p = (f, v)" by (cases p)
  have "scan_args (f # v # pair_tokens ps @ rest) sc =
      scan_args (pair_tokens ps @ rest) (sc\<lparr>sc_has := sc_has sc @ [f]\<rparr>)"
    using Cons.prems p by (intro scan_value_flag) simp
  then show ?case using Cons p by (simp add: pair_tokens_def)
qed (simp add: pair_tokens_def)

lemma scan_injected:
  assumes "\<forall>(f, v)\<in>set ps. value_flag f"
  shows "scanRunArgs (pair_tokens ps @ rest) =
     scan_plus \<lparr>sc_has = map fst ps, sc_publishes = [], sc_detached = False\<rparr> (scanRunArgs rest)"
proof -
  have "scanRunArgs (pair_tokens ps @ rest) =
      scan_args rest \<lparr>sc_has = map fst ps, sc_publishes = [], sc_detached = False\<rparr>"
    unfolding scanRunArgs_def [of "pair_tokens ps @ rest"] scan_pairs [OF assms] by (simp add: empty_scan_def)
  then show ?thesis by (simp only: scan_args_acc)
qed

lemma pair_tokens_Nil [simp]: "pair_tokens ps = [] \<longleftrightarrow> ps = []"
  by (cases ps) (auto simp: pair_tokens_def)

lemma set_if_mono: "(c \<Longrightarrow> c') \<Longrightarrow> set (if c then xs else []) \<subseteq> set (if c' then xs else [])"
  by (cases c) simp_all

lemma extra_pairs_mono:
  assumes "set has' \<subseteq> set has"
  shows "set (extra_pairs g has cfg gpu cores ram) \<subseteq> set (extra_pairs g has' cfg gpu cores ram)"
proof -
  have "f \<notin> set has \<Longrightarrow> f \<notin> set has'" for f using assms by blast
  then show ?thesis
    unfolding extra_pairs_def set_append by (intro Un_mono set_if_mono) meson+
qed

lemma extra_again:
  "extra_pairs g (map fst (extra_pairs g has cfg gpu cores ram) @ has) cfg gpu cores ram = []"
proof (rule ccontr)
  let ?P = "extra_pairs g has cfg gpu cores ram"
  assume "extra_pairs g (map fst ?P @ has) cfg gpu cores ram \<noteq> []"
  then obtain f v where fv: "(f, v) \<in> set (extra_pairs g (map fst ?P @ has) cfg gpu cores ram)"
    by (metis list.set_intros(1) neq_Nil_conv surj_pair)
  have "set has \<subseteq> set (map fst ?P @ has)" by simp
  from subsetD [OF extra_pairs_mono [OF this] fv] have "(f, v) \<in> set ?P" .
  then have "f \<in> set (map fst ?P @ has)" by force
  with extra_pairs_names [OF fv] show False by blast
qed

lemma inject_cases:
  assumes "injectDefaults g args has cfg gpu cores ram = Some out"
  obtains (none) "extra_pairs g has cfg gpu cores ram = []" "out = args"
  | (some) a rest where "args = a # rest" "out = a # pair_tokens (extra_pairs g has cfg gpu cores ram) @ rest"
proof (cases "extra_pairs g has cfg gpu cores ram = []")
  case True
  with assms none show ?thesis by (simp add: injectDefaults_def extra_flags_pairs)
next
  case False
  with assms some show ?thesis
    by (cases args) (auto simp: injectDefaults_def Let_def extra_flags_pairs)
qed

text \<open>C23. Injection is stable: the scan of the injected command line sees the same published ports and
  the same detached flag as the scan of the user's, and injecting again adds nothing.\<close>

theorem inject_idempotent:
  assumes "injectDefaults g args (sc_has (scanRunArgs (tl args))) cfg gpu cores ram = Some out"
  shows "sc_publishes (scanRunArgs (tl out)) = sc_publishes (scanRunArgs (tl args)) \<and>
    sc_detached (scanRunArgs (tl out)) = sc_detached (scanRunArgs (tl args)) \<and>
    injectDefaults g out (sc_has (scanRunArgs (tl out))) cfg gpu cores ram = Some out"
  using assms
proof (cases rule: inject_cases)
  case none
  then show ?thesis using assms by simp
next
  case (some a rest)
  have "scanRunArgs (tl out) = scan_plus
      \<lparr>sc_has = map fst (extra_pairs g (sc_has (scanRunArgs rest)) cfg gpu cores ram),
       sc_publishes = [], sc_detached = False\<rparr> (scanRunArgs rest)"
    using scan_injected [OF extra_value_flags] some by simp
  then show ?thesis using some by (simp add: injectDefaults_def extra_flags_pairs extra_again)
qed

definition demo_run :: "string list" where
  "demo_run = [''run'', ''-d'', ''-p'', ''80:80'', ''img'', ''--cpus'', ''9'']"

definition demo_injected :: "string list" where
  "demo_injected =
     [''run'', ''--cpus'', ''2'', ''--memory'', ''1g'', ''--pids-limit'', ''256'', ''-d'', ''-p'', ''80:80'', ''img'',
      ''--cpus'', ''9'']"

lemma demo_inject:
  "injectDefaults [] demo_run (sc_has (scanRunArgs (tl demo_run))) default_config ''none'' 2 2 = Some demo_injected"
  by code_simp

theorem inject_idempotent_witness:
  "injectDefaults [] demo_injected (sc_has (scanRunArgs (tl demo_injected))) default_config ''none'' 2 2 =
     Some demo_injected"
  using inject_idempotent [OF demo_inject] by blast

lemma clamp_cpus_bounds: "clamp_cpus cfg cores \<le> l_CPUs (cfg_Limits cfg)" "0 < cores \<Longrightarrow> clamp_cpus cfg cores \<le> cores"
  by (auto simp: clamp_cpus_def Let_def)

lemma clamp_mem_bounds: "clamp_mem cfg ram \<le> l_MemoryGB (cfg_Limits cfg)" "0 < ram \<Longrightarrow> clamp_mem cfg ram \<le> max 1 (ram - 1)"
  by (auto simp: clamp_mem_def Let_def)

lemma extra_pairs_values:
  assumes "(f, v) \<in> set (extra_pairs g has cfg gpu cores ram)"
  shows "f = ''--cpus'' \<and> v = itoa (clamp_cpus cfg cores) \<and> 0 < clamp_cpus cfg cores \<or>
    f = ''--memory'' \<and> v = itoa (clamp_mem cfg ram) @ ''g'' \<and> 0 < clamp_mem cfg ram \<or>
    f = ''--pids-limit'' \<and> v = itoa (l_Pids (cfg_Limits cfg)) \<and> 0 < l_Pids (cfg_Limits cfg) \<or>
    f = ''--gpus'' \<and> v = ''all'' \<and> gpu = ''nvidia'' \<and> cfg_GPU cfg \<noteq> ''off'' \<and> g \<noteq> ''off''"
  using assms unfolding extra_pairs_def set_append Un_iff by (elim disjE) (simp_all split: if_split_asm)

lemma extra_pairs_distinct: "distinct (map fst (extra_pairs g has cfg gpu cores ram))"
  by (auto simp: extra_pairs_def)

text \<open>What an injected flag may ask of the host.\<close>

definition safe_flag :: "string \<Rightarrow> config \<Rightarrow> string \<Rightarrow> int \<Rightarrow> int \<Rightarrow> string \<Rightarrow> string \<Rightarrow> bool" where
  "safe_flag g cfg gpu cores ram f v \<longleftrightarrow>
     (\<exists>n. f = ''--cpus'' \<and> v = itoa n \<and> 0 < n \<and> n \<le> l_CPUs (cfg_Limits cfg) \<and> (0 < cores \<longrightarrow> n \<le> cores)) \<or>
     (\<exists>n. f = ''--memory'' \<and> v = itoa n @ ''g'' \<and> 0 < n \<and> n \<le> l_MemoryGB (cfg_Limits cfg) \<and>
          (0 < ram \<longrightarrow> n \<le> max 1 (ram - 1))) \<or>
     (f = ''--pids-limit'' \<and> v = itoa (l_Pids (cfg_Limits cfg)) \<and> 0 < l_Pids (cfg_Limits cfg)) \<or>
     (f = ''--gpus'' \<and> v = ''all'' \<and> gpu = ''nvidia'' \<and> cfg_GPU cfg \<noteq> ''off'' \<and> g \<noteq> ''off'')"

lemma extra_pairs_safe:
  assumes "(f, v) \<in> set (extra_pairs g has cfg gpu cores ram)"
  shows "safe_flag g cfg gpu cores ram f v"
  using extra_pairs_values [OF assms] clamp_cpus_bounds [where cfg = cfg and cores = cores]
    clamp_mem_bounds [where cfg = cfg and ram = ram]
  unfolding safe_flag_def by (elim disjE conjE) blast+



section \<open>Printed command lines\<close>

text \<open>
  The options of a \<^verbatim>\<open>docker run\<close> command line as a user writes them, their tokens, and what the scan
  should find in them: a switch or a value with an equals sign, a long flag with the value in the next
  token, published ports in the three forms the scan knows, a cluster of letters.
\<close>

datatype run_opt =
    Switch string | Assigned string string | Valued string string
  | PublishTo string | PublishNext string | PublishHere string | Letters string

fun opt_tokens :: "run_opt \<Rightarrow> string list" where
  "opt_tokens (Switch n) = [''--'' @ n]"
| "opt_tokens (Assigned n v) = [''--'' @ n @ CHR ''='' # v]"
| "opt_tokens (Valued n v) = [''--'' @ n, v]"
| "opt_tokens (PublishTo v) = [''--publish='' @ v]"
| "opt_tokens (PublishNext v) = [''-p'', v]"
| "opt_tokens (PublishHere v) = [''-p'' @ v]"
| "opt_tokens (Letters cs) = [CHR ''-'' # cs]"

fun opt_ok :: "run_opt \<Rightarrow> bool" where
  "opt_ok (Switch n) \<longleftrightarrow> n \<noteq> [] \<and> CHR ''='' \<notin> set n \<and> \<not> takesValue (''--'' @ n)"
| "opt_ok (Assigned n v) \<longleftrightarrow> CHR ''='' \<notin> set n \<and> v \<noteq> [] \<and> n \<noteq> ''publish''"
| "opt_ok (Valued n v) \<longleftrightarrow> takesValue (''--'' @ n) \<and> n \<noteq> ''publish''"
| "opt_ok (PublishTo v) \<longleftrightarrow> v \<noteq> []"
| "opt_ok (PublishNext v) \<longleftrightarrow> True"
| "opt_ok (PublishHere v) \<longleftrightarrow> v \<noteq> []"
| "opt_ok (Letters cs) \<longleftrightarrow> cs \<noteq> [] \<and> CHR ''p'' \<notin> set cs \<and> hd cs \<noteq> CHR ''-'' \<and> list_all (\<lambda>c. byte_val c < 128) cs"

fun opt_names :: "run_opt \<Rightarrow> string list" where
  "opt_names (Switch n) = [''--'' @ n]"
| "opt_names (Assigned n v) = [''--'' @ n]"
| "opt_names (Valued n v) = [''--'' @ n]"
| "opt_names (PublishTo v) = [''--publish'']"
| "opt_names (PublishNext v) = [''-p'']"
| "opt_names (PublishHere v) = [''-p'']"
| "opt_names (Letters cs) = map (\<lambda>c. [CHR ''-'', c]) cs"

fun opt_publishes :: "run_opt \<Rightarrow> string list" where
  "opt_publishes (PublishTo v) = [v]"
| "opt_publishes (PublishNext v) = [v]"
| "opt_publishes (PublishHere v) = [v]"
| "opt_publishes _ = []"

definition opts_scan :: "run_opt list \<Rightarrow> scan" where
  "opts_scan os =
     \<lparr>sc_has = concat (map opt_names os), sc_publishes = concat (map opt_publishes os),
      sc_detached = (''-d'' \<in> set (concat (map opt_names os)) \<or> ''--detach'' \<in> set (concat (map opt_names os)))\<rparr>"

lemma scan_letters:
  "CHR ''p'' \<notin> set cs \<Longrightarrow> list_all (\<lambda>c. byte_val c < 128) cs \<Longrightarrow>
   scan_short cs rest sc =
     (sc\<lparr>sc_has := sc_has sc @ map (\<lambda>c. [CHR ''-'', c]) cs, sc_detached := sc_detached sc \<or> list_ex (\<lambda>c. c = CHR ''d'') cs\<rparr>, rest)"
  by (induction cs arbitrary: sc) (auto simp: string_of_byte_def)

lemma scan_long_token:
  "scan_args ((CHR ''-'' # CHR ''-'' # n) # rest) sc =
     (if n = [] then sc
      else (let (sc', rest') = scan_long (CHR ''-'' # CHR ''-'' # n) rest sc in scan_args rest' sc'))"
  by (simp add: has_prefix_def)

lemma long_flag_switch: "CHR ''='' \<notin> set n \<Longrightarrow> long_flag (CHR ''-'' # CHR ''-'' # n) = (CHR ''-'' # CHR ''-'' # n, [])"
  by (simp add: long_flag_def index_byte_None [THEN iffD2])

lemma long_flag_assigned:
  "CHR ''='' \<notin> set n \<Longrightarrow> long_flag (CHR ''-'' # CHR ''-'' # n @ CHR ''='' # v) = (CHR ''-'' # CHR ''-'' # n, v)"
  by (simp add: long_flag_def)

lemma takesValue_no_eq: "takesValue f \<Longrightarrow> CHR ''='' \<notin> set f \<and> f \<noteq> ''--detach''"
  by (auto simp: takesValue_def)

lemma scan_opt:
  assumes "opt_ok opt"
  shows "scan_args (opt_tokens opt @ rest) sc = scan_args rest (scan_plus sc (opts_scan [opt]))"
proof (cases opt)
  case (Switch n)
  have "takesValue ''--publish''" by (simp add: takesValue_def)
  then have "n \<noteq> ''publish''" using Switch assms by auto
  then show ?thesis using assms Switch
    by (cases sc) (simp add: scan_long_token scan_long_def long_flag_switch opts_scan_def scan_plus_def
        eq_commute [of n "''detach''"] del: scan_args.simps)
next
  case (Assigned n v)
  then show ?thesis using assms
    by (cases sc) (simp add: scan_long_token scan_long_def long_flag_assigned opts_scan_def scan_plus_def
        eq_commute [of n "''detach''"] del: scan_args.simps)
next
  case (Valued n v)
  then have "value_flag (''--'' @ n)" using assms takesValue_no_eq [of "''--'' @ n"] by (simp add: value_flag_def)
  from scan_value_flag [OF this, of v rest sc] Valued takesValue_no_eq [of "''--'' @ n"] assms show ?thesis
    by (cases sc) (simp add: opts_scan_def scan_plus_def eq_commute [of n "''detach''"] del: scan_args.simps)
next
  case (PublishTo v)
  then show ?thesis using assms long_flag_assigned [of "''publish''" v]
    by (cases sc) (simp add: scan_long_token scan_long_def opts_scan_def scan_plus_def del: scan_args.simps)
next
  case (PublishNext v)
  then show ?thesis by (cases sc) (simp add: has_prefix_def string_of_byte_def opts_scan_def scan_plus_def)
next
  case (PublishHere v)
  then show ?thesis using assms
    by (cases sc) (simp add: has_prefix_def string_of_byte_def opts_scan_def scan_plus_def)
next
  case (Letters cs)
  then have cs: "cs \<noteq> []" "CHR ''p'' \<notin> set cs" "hd cs \<noteq> CHR ''-''" "list_all (\<lambda>c. byte_val c < 128) cs"
    using assms by simp_all
  then have "\<not> has_prefix (CHR ''-'' # cs) ''--''" "CHR ''-'' # cs \<noteq> ''--''"
    by (cases cs; simp add: has_prefix_def)+
  then have "scan_args ((CHR ''-'' # cs) # rest) sc =
      (let (sc', rest') = scan_short cs rest sc in scan_args rest' sc')" by simp
  moreover have "list_ex (\<lambda>c. c = CHR ''d'') cs \<longleftrightarrow>
      ''-d'' \<in> set (map (\<lambda>c. [CHR ''-'', c]) cs) \<or> ''--detach'' \<in> set (map (\<lambda>c. [CHR ''-'', c]) cs)"
    by (auto simp: list_ex_iff)
  ultimately show ?thesis using Letters scan_letters [OF cs(2,4), of rest sc]
    by (cases sc) (simp add: opts_scan_def scan_plus_def del: scan_args.simps)
qed

lemma opts_scan_Cons: "opts_scan (opt # opts) = scan_plus (opts_scan [opt]) (opts_scan opts)"
  by (auto simp: opts_scan_def scan_plus_def)

lemma scan_opts:
  "list_all opt_ok opts \<Longrightarrow>
   scan_args (concat (map opt_tokens opts) @ rest) sc = scan_args rest (scan_plus sc (opts_scan opts))"
proof (induction opts arbitrary: sc)
  case Nil
  have "opts_scan [] = empty_scan" by (simp add: opts_scan_def empty_scan_def)
  then show ?case by simp
next
  case (Cons opt opts)
  then show ?case
    using opts_scan_Cons [of opt opts] by (simp add: scan_opt scan_plus_assoc)
qed

text \<open>C17. The scan reads back what a user wrote: for every command line made of options in the forms it
  knows, followed by an image and the command for the container, it finds exactly the options' names
  and published ports and whether the container is detached, and it looks at nothing from the image on.\<close>

theorem scan_reads_back:
  assumes "list_all opt_ok opts" and "img \<noteq> []" and "hd img \<noteq> CHR ''-''"
  shows "scanRunArgs (concat (map opt_tokens opts) @ img # command) =
    \<lparr>sc_has = concat (map opt_names opts), sc_publishes = concat (map opt_publishes opts),
     sc_detached = (''-d'' \<in> set (concat (map opt_names opts)) \<or> ''--detach'' \<in> set (concat (map opt_names opts)))\<rparr>"
  using scan_opts [OF assms(1), of "img # command" empty_scan] assms(2,3)
  by (auto simp: scanRunArgs_def opts_scan_def)

definition demo_opts :: "run_opt list" where
  "demo_opts = [Letters ''dit'', PublishHere ''5432:5432'', PublishNext ''80:80'', Valued ''memory'' ''1g'', Assigned ''cpus'' ''2'',
     PublishTo ''9:9'', Switch ''rm'']"

theorem scan_reads_back_witness:
  "sc_publishes (scanRunArgs [''-dit'', ''-p5432:5432'', ''-p'', ''80:80'', ''--memory'', ''1g'', ''--cpus=2'',
     ''--publish=9:9'', ''--rm'', ''pg'', ''--gpus'']) = [''5432:5432'', ''80:80'', ''9:9'']"
proof -
  have "list_all opt_ok demo_opts" by code_simp
  from scan_reads_back [OF this, of "''pg''" "[''--gpus'']"] show ?thesis by (simp add: demo_opts_def)
qed

section \<open>Published ports\<close>

lemma split_byte_iff:
  assumes "xs \<noteq> []"
  shows "split_byte c s = xs \<longleftrightarrow> s = join_byte c xs \<and> (\<forall>x\<in>set xs. c \<notin> set x)"
proof
  show "s = join_byte c xs \<and> (\<forall>x\<in>set xs. c \<notin> set x)" if "split_byte c s = xs"
    using that split_byte_parts by (metis join_split)
  show "split_byte c s = xs" if "s = join_byte c xs \<and> (\<forall>x\<in>set xs. c \<notin> set x)"
    using that split_join [OF assms] by simp
qed

lemma parse_int64_Nil [simp]: "parse_int64 [] = None"
  by (simp add: parse_int64_def split_sign_def)

lemma publish_split:
  "parsePublishHostPort spec = Some p \<longleftrightarrow>
     (\<exists>host cont. split_byte (CHR '':'') spec = [host, cont] \<and> parse_int64 host = Some p) \<or>
     (\<exists>ip host cont. split_byte (CHR '':'') spec = [ip, host, cont] \<and> parse_int64 host = Some p)"
  by (auto simp: parsePublishHostPort_def split: list.splits)

text \<open>C38. The host port of a published port is read from exactly two forms, host:container and
  ip:host:container, with any text that is a 64-bit integer for the host port; in every other case
  there is no forward.\<close>

theorem publish_host_port:
  "parsePublishHostPort spec = Some p \<longleftrightarrow>
     (\<exists>host cont. spec = host @ CHR '':'' # cont \<and> CHR '':'' \<notin> set (host @ cont) \<and> parse_int64 host = Some p) \<or>
     (\<exists>ip host cont. spec = ip @ CHR '':'' # host @ CHR '':'' # cont \<and> CHR '':'' \<notin> set (ip @ host @ cont) \<and>
        parse_int64 host = Some p)"
  unfolding publish_split split_byte_iff [OF list.distinct(2)]
  by (simp only: join_byte.simps list.set ball_simps set_append Un_iff de_Morgan_disj conj_assoc simp_thms insert_iff)

text \<open>The value of \<^verbatim>\<open>--publish\<close> in the next token is lost: the scan skips it, as the value of a flag it
  knows, after it has recorded an empty published port, so no forward is opened, while the two forms
  with an equals sign and with \<^verbatim>\<open>-p\<close> are recorded.\<close>

theorem publish_next_token_lost:
  "sc_publishes (scanRunArgs (''--publish'' # v # rest)) = [] # sc_publishes (scanRunArgs rest) \<and>
   parsePublishHostPort [] = None \<and>
   sc_publishes (scanRunArgs (''-p'' # v # rest)) = v # sc_publishes (scanRunArgs rest)"
proof -
  have "takesValue ''--publish''" by (simp add: takesValue_def)
  then have "scan_long ''--publish'' (v # rest) empty_scan =
      (\<lparr>sc_has = [''--publish''], sc_publishes = [[]], sc_detached = False\<rparr>, rest)"
    by (simp add: scan_long_def long_flag_def empty_scan_def)
  then have "scanRunArgs (''--publish'' # v # rest) =
      scan_args rest \<lparr>sc_has = [''--publish''], sc_publishes = [[]], sc_detached = False\<rparr>"
    by (simp add: scanRunArgs_def has_prefix_def)
  moreover have "scanRunArgs (''-p'' # v # rest) =
      scan_args rest \<lparr>sc_has = [''-p''], sc_publishes = [v], sc_detached = False\<rparr>"
    by (simp add: scanRunArgs_def has_prefix_def string_of_byte_def empty_scan_def)
  ultimately show ?thesis by (simp add: scan_args_acc parsePublishHostPort_def)
qed

section \<open>Finding docker\<close>

lemma plain_docker: "plain_elem ''docker''"
  by (simp add: plain_elem_def slash_def)

text \<open>A directory of the search path is skipped, or its docker is the answer.\<close>

definition candidate :: "string \<Rightarrow> string" where
  "candidate entry = path_join [(if entry = [] then ''.'' else entry), ''docker'']"

definition is_shim :: "'w os \<Rightarrow> string \<Rightarrow> string \<Rightarrow> string \<Rightarrow> 'w \<Rightarrow> bool" where
  "is_shim os shim shimReal entry w \<longleftrightarrow>
     clean (if entry = [] then ''.'' else entry) = clean shim \<or>
     (\<exists>real. os_eval_symlinks os (candidate entry) w = Inr real \<and> shimReal \<noteq> [] \<and>
        clean real = clean (path_join [shimReal, ''docker'']))"

lemma find_docker_Cons:
  "find_docker os shim shimReal (entry # dirs) w =
     (if os_is_dir os (candidate entry) w = Some False \<and> \<not> is_shim os shim shimReal entry w
      then Inr (candidate entry) else find_docker os shim shimReal dirs w)"
  by (auto simp: candidate_def is_shim_def Let_def split: sum.split)

lemma find_docker_Inr:
  "find_docker os shim shimReal dirs w = Inr p \<Longrightarrow>
     \<exists>before entry after. dirs = before @ entry # after \<and> p = candidate entry \<and>
        os_is_dir os p w = Some False \<and> \<not> is_shim os shim shimReal entry w \<and>
        (\<forall>d\<in>set before. os_is_dir os (candidate d) w \<noteq> Some False \<or> is_shim os shim shimReal d w)"
proof (induction dirs)
  case (Cons d dirs)
  show ?case
  proof (cases "os_is_dir os (candidate d) w = Some False \<and> \<not> is_shim os shim shimReal d w")
    case True
    then have "p = candidate d" using Cons.prems unfolding find_docker_Cons by simp
    with True show ?thesis by (intro exI [of _ "[]"] exI [of _ d] exI [of _ dirs]) simp
  next
    case False
    then have "find_docker os shim shimReal dirs w = Inr p"
      using Cons.prems unfolding find_docker_Cons by metis
    from Cons.IH [OF this] obtain before entry after where
      "dirs = before @ entry # after" "p = candidate entry" "os_is_dir os p w = Some False"
      "\<not> is_shim os shim shimReal entry w"
      "\<forall>d\<in>set before. os_is_dir os (candidate d) w \<noteq> Some False \<or> is_shim os shim shimReal d w" by blast
    with False show ?thesis
      by (intro exI [of _ "d # before"] exI [of _ entry] exI [of _ after]) auto
  qed
qed simp

lemma not_shim_candidate:
  assumes "\<not> is_shim os shim shimReal entry w" and "shim \<noteq> []"
  shows "candidate entry \<noteq> path_join [shim, ''docker'']"
proof
  define d where "d = (if entry = [] then ''.'' else entry)"
  have d: "d \<noteq> []" by (simp add: d_def)
  assume "candidate entry = path_join [shim, ''docker'']"
  then have "clean (d @ slash # ''docker'') = clean (shim @ slash # ''docker'')"
    unfolding candidate_def d_def [symmetric] path_join_two [OF d list.distinct(2)]
      path_join_two [OF assms(2) list.distinct(2)] .
  then have "clean d = clean shim" by (rule clean_join_inj [OF plain_docker d assms(2)])
  with assms(1) show False by (simp add: is_shim_def d_def)
qed

lemma shimDir_not_Nil: "shimDir os \<noteq> []"
  by (auto simp: shimDir_def path_join_def split: list.split)

text \<open>C25. The shim never runs itself: the docker that is found is the first plain file named docker on
  the search path that is neither the shim under its own name, however the directory is spelled, nor a
  file that resolves to it.\<close>

theorem docker_is_not_the_shim:
  assumes "realDockerPath os w = Inr p"
  shows "p \<noteq> shimPath os \<and>
    (\<forall>real shimReal. os_eval_symlinks os p w = Inr real \<longrightarrow> os_eval_symlinks os (shimDir os) w = Inr shimReal \<longrightarrow>
       shimReal \<noteq> [] \<longrightarrow> clean real \<noteq> clean (path_join [shimReal, ''docker''])) \<and>
    (\<exists>before entry after. split_list (os_getenv os ''PATH'') = before @ entry # after \<and> p = candidate entry \<and>
       os_is_dir os p w = Some False \<and>
       (\<forall>d\<in>set before. os_is_dir os (candidate d) w \<noteq> Some False \<or> is_shim os (shimDir os) (shim_real os w) d w))"
proof -
  from assms obtain before entry after where
    split: "split_list (os_getenv os ''PATH'') = before @ entry # after" and p: "p = candidate entry"
    and plain: "os_is_dir os p w = Some False" and own: "\<not> is_shim os (shimDir os) (shim_real os w) entry w"
    and before: "\<forall>d\<in>set before. os_is_dir os (candidate d) w \<noteq> Some False \<or> is_shim os (shimDir os) (shim_real os w) d w"
    unfolding realDockerPath_def by (blast dest: find_docker_Inr)
  have "p \<noteq> shimPath os" using not_shim_candidate [OF own shimDir_not_Nil] p by (simp add: shimPath_def)
  moreover have "clean real \<noteq> clean (path_join [shimReal, ''docker''])"
    if "os_eval_symlinks os p w = Inr real" "os_eval_symlinks os (shimDir os) w = Inr shimReal" "shimReal \<noteq> []"
    for real shimReal
  proof -
    have "shim_real os w = shimReal" using that(2) by (simp add: shim_real_def)
    then show ?thesis using own that p by (auto simp: is_shim_def)
  qed
  ultimately show ?thesis using split p plain before by blast
qed

text \<open>A world without state: a home directory, the shim and one docker on the search path.\<close>

definition demo_os :: "unit os" where
  "demo_os =
     \<lparr>os_getenv = (\<lambda>v. if v = ''BUNK_HOME'' then ''/u/.bunk'' else if v = ''PATH'' then ''/u/./.bunk/bin/:/s:/usr/bin'' else []),
      os_read = (\<lambda>p w. if p = ''/u/.bunk/state.json'' then Inr [] else Inl ''no such file''),
      os_json = (\<lambda>_. Inr \<lparr>ds_MachineID = ''m'', ds_Key = None, ds_Name = ''me'', ds_ControlPort = 70, ds_Active = ''box'',
        ds_Links = [(''box'', \<lparr>li_Port = 71, li_GPU = ''nvidia'', li_Cores = 2, li_RAMGB = 2\<rparr>)]\<rparr>),
      os_yaml = (\<lambda>_ c. c),
      os_is_dir = (\<lambda>p w. if p \<in> set [''/u/.bunk/bin/docker'', ''/s/docker'', ''/usr/bin/docker''] then Some False else None),
      os_eval_symlinks = (\<lambda>p w. Inr (if p = ''/s/docker'' then ''/u/.bunk/bin/docker'' else p)),
      os_exchange = (\<lambda>_ _ w. (NoDial, w)),
      os_run = (\<lambda>_ _ _ w. (Exited 0, w)),
      os_stdout = (\<lambda>_ w. w), os_stderr = (\<lambda>_ w. w)\<rparr>"

lemma demo_docker: "realDockerPath demo_os () = Inr ''/usr/bin/docker''"
  by code_simp

theorem docker_is_not_the_shim_witness: "''/usr/bin/docker'' \<noteq> shimPath demo_os"
  using docker_is_not_the_shim [OF demo_docker] by blast

section \<open>The pipeline\<close>

lemma inject_Cons: "\<exists>out. injectDefaults g (a # rest) has cfg gpu cores ram = Some (a # out)"
  by (simp add: injectDefaults_def Let_def)

lemma prepare_run_cases:
  "(\<exists>rest out. args = ''run'' # rest \<and>
      injectDefaults (os_getenv os ''BUNK_GPU'') args (sc_has (scanRunArgs rest)) (load_cfg os w) (linkGPU os active w)
        (fst (linkCaps os active w)) (snd (linkCaps os active w)) = Some out \<and>
      prepare_run os active args w = Some (out, sc_publishes (scanRunArgs rest), sc_detached (scanRunArgs rest))) \<or>
   (args = [] \<or> hd args \<noteq> ''run'') \<and> prepare_run os active args w = Some (args, [], False)"
proof (cases "args \<noteq> [] \<and> hd args = ''run''")
  case True
  then obtain rest where a: "args = ''run'' # rest" by (cases args) auto
  from inject_Cons obtain out where
    "injectDefaults (os_getenv os ''BUNK_GPU'') args (sc_has (scanRunArgs rest)) (load_cfg os w) (linkGPU os active w)
        (fst (linkCaps os active w)) (snd (linkCaps os active w)) = Some out" unfolding a by blast
  then show ?thesis unfolding prepare_run_def a by (auto simp: Let_def split: prod.split)
next
  case False
  then show ?thesis by (cases args) (auto simp: prepare_run_def)
qed

lemma prepare_run_Some: "\<exists>r. prepare_run os active args w = Some r"
  using prepare_run_cases [of args os w active] by blast

lemma passthrough_Some: "DockerPassthrough os args dry w \<noteq> None"
proof (cases "active_link os w")
  case (Inr l)
  from prepare_run_Some obtain r where "prepare_run os (snd l) args w = Some r" by (rule exE)
  with Inr show ?thesis by (cases l) (simp only: DockerPassthrough_def sum.case prod.case snd_conv option.map option.distinct not_False_eq_True)
qed (simp only: DockerPassthrough_def sum.case option.distinct not_False_eq_True)

lemma shim_Some: "DockerShim os args w \<noteq> None"
  using passthrough_Some [of os args False w]
  by (cases "active_link os w") (simp_all only: DockerShim_def sum.case option.distinct not_False_eq_True)

text \<open>A dry run for the active machine prints the command line and changes nothing else.\<close>

lemma passthrough_dry_run:
  assumes "active_link os w = Inr (host, active)"
  shows "\<exists>args' pub det. prepare_run os active args w = Some (args', pub, det) \<and>
    DockerPassthrough os args True w =
      Some (0, os_stderr os (''bunk: '' @ join_byte (CHR '' '') ([''--host'', host] @ args') @ [CHR 0x0A]) w)"
proof -
  obtain args' pub det where r: "prepare_run os active args w = Some (args', pub, det)"
    using prepare_run_Some [of os active args w] by auto
  have "DockerPassthrough os args True w =
      Some (0, os_stderr os (''bunk: '' @ join_byte (CHR '' '') ([''--host'', host] @ args') @ [CHR 0x0A]) w)"
    by (simp only: DockerPassthrough_def assms r sum.case prod.case option.map Let_def if_True simp_thms)
  with r show ?thesis by (intro exI conjI)
qed


lemma demo_active: "active_link demo_os () = Inr (''tcp://127.0.0.1:71'', ''box'')"
  by code_simp


end
