(* ===== verification/MgmtProps.thy ===== *)
theory MgmtProps
  imports BunkMain ShimProps
begin

text \<open>
  Properties of the management commands and of the command line: the pid file round trip of start and
  stop, the idle gate's configuration, the arguments of pairing, what is docker and what is not, and
  that every invocation ends with an exit code. The file system's laws are hypotheses.
\<close>

section \<open>What is relied on of the file system\<close>

text \<open>A successful write is what a read returns; printing and sleeping leave the file at \<open>p\<close> alone.\<close>

definition write_law :: "'w mgmt \<Rightarrow> bool" where
  "write_law M \<longleftrightarrow>
     (\<forall>p s m w w'. mg_write M p s m w = (None, w') \<longrightarrow> os_read (mg_os M) p w' = Inr s)"

definition quiet :: "'w mgmt \<Rightarrow> string \<Rightarrow> bool" where
  "quiet M p \<longleftrightarrow>
     (\<forall>s w. os_read (mg_os M) p (os_stdout (mg_os M) s w) = os_read (mg_os M) p w) \<and>
     (\<forall>n w. os_read (mg_os M) p (mg_sleep M n w) = os_read (mg_os M) p w)"

lemma quiet_println: "quiet M p \<Longrightarrow> os_read (mg_os M) p (println (mg_os M) s w) = os_read (mg_os M) p w"
  by (simp add: quiet_def println_def)

section \<open>The pid file\<close>

lemma space_len_end_last:
  assumes "\<forall>x\<in>set unicode_spaces. last x \<noteq> c"
  shows "space_len_end (s @ [c]) = 0"
proof -
  have "last x = c" if "has_suffix (s @ [c]) x" "x \<noteq> []" for x
  proof -
    have "x = drop (length (s @ [c]) - length x) (s @ [c])" "0 < length x" using that by (simp_all add: has_suffix_def)
    then show ?thesis by (metis diff_less last_drop last_snoc length_greater_0_conv snoc_eq_iff_butlast)
  qed
  then have "filter (has_suffix (s @ [c])) unicode_spaces = []"
    using assms unicode_spaces_pos by (auto simp: filter_empty_conv)
  then show ?thesis by (simp add: space_len_end_def)
qed

lemma digit_no_space: "is_digit c \<Longrightarrow> \<forall>x\<in>set unicode_spaces. last x \<noteq> c"
proof -
  have "\<forall>x\<in>set unicode_spaces. byte_val (last x) \<le> 32 \<or> 128 \<le> byte_val (last x)" by (simp add: unicode_spaces_def)
  then show "is_digit c \<Longrightarrow> ?thesis" by (fastforce simp: is_digit_def)
qed

lemma space_len_end_LF: "space_len_end (s @ [LF]) = 1"
proof -
  have "filter (has_suffix (s @ [LF])) unicode_spaces = [[LF]]"
    by (simp add: unicode_spaces_def has_suffix_def)
  then show ?thesis by (simp add: space_len_end_def)
qed

lemma itoa_snoc: "\<exists>cs c. itoa i = cs @ [c] \<and> is_digit c"
proof -
  have "itoa i \<noteq> [] \<and> is_digit (last (itoa i))"
    using bspec [OF nat_digits_all last_in_set [OF nat_digits_not_Nil]] by (simp add: itoa_def)
  then show ?thesis by (metis append_butlast_last_id)
qed

lemma trim_pid_line: "trim_space (itoa i @ [LF]) = itoa i"
proof -
  obtain c cs where "itoa i = c # cs" "is_digit c \<or> c = CHR ''-''" using itoa_Cons by blast
  then have l: "trim_left (itoa i @ [LF]) = itoa i @ [LF]" using trim_left_digit by simp
  obtain ds d where d: "itoa i = ds @ [d]" "is_digit d" using itoa_snoc by blast
  have "space_len_end (itoa i) = 0" unfolding d(1) by (rule space_len_end_last [OF digit_no_space [OF d(2)]])
  then have "trim_right (itoa i) = itoa i" by (subst trim_right.simps) simp
  then show ?thesis unfolding trim_space_def l by (subst trim_right.simps) (simp add: space_len_end_LF)
qed

text \<open>C26. Start and stop meet: when the daemon was started, the pid file holds the pid of the process that
  was started, so stopping sends SIGTERM to exactly it and removes the file, and another start is
  refused while the process answers.\<close>

theorem started_daemon_is_stopped:
  assumes "write_law M" and "quiet M (pidPath (mg_os M))"
    and "\<And>self args log w pid w'. mg_start M self args log w = (Inr pid, w') \<Longrightarrow> is_int64 pid \<and> mg_find_process M pid = None"
    and "StartDaemon M w = (None, w1)"
  shows "\<exists>self pid wa wb. mg_self M = Inr self \<and>
    mg_start M self [''daemon''] (logPath (mg_os M)) wa = (Inr pid, wb) \<and>
    StopDaemon M w1 = (None, println (mg_os M) ''bunk daemon stopped''
      (snd (mg_remove M (pidPath (mg_os M)) (snd (mg_signal M pid SIGTERM w1))))) \<and>
    (fst (mg_signal M pid 0 w1) = None \<longrightarrow> fst (StartDaemon M w1) = Some ''daemon already running'')"
proof -
  obtain w0 where r: "daemonRunning M w = (False, w0)"
    using assms(4) by (cases "daemonRunning M w") (auto simp: StartDaemon_def split: bool.splits)
  obtain self where s: "mg_self M = Inr self" "spawn_daemon M self w0 = (None, w1)"
    using assms(4) r by (cases "mg_self M") (simp_all add: StartDaemon_def)
  obtain wa pid wb wc where sp: "mg_start M self [''daemon''] (logPath (mg_os M)) wa = (Inr pid, wb)"
    "mg_write M (pidPath (mg_os M)) (itoa pid @ [LF]) mode_file wb = (None, wc)"
    "w1 = println (mg_os M) (''bunk daemon started (logs: '' @ logPath (mg_os M) @ '')'') (mg_sleep M 300 wc)"
    using s(2) unfolding spawn_daemon_def Let_def by (auto split: prod.splits option.splits sum.splits)
  have "os_read (mg_os M) (pidPath (mg_os M)) wc = Inr (itoa pid @ [LF])"
    using assms(1) sp(2) unfolding write_law_def by blast
  then have "os_read (mg_os M) (pidPath (mg_os M)) w1 = Inr (itoa pid @ [LF])"
    using assms(2) unfolding sp(3) by (simp add: quiet_println quiet_def)
  moreover note pid = assms(3) [OF sp(1)]
  ultimately have p: "readPid M w1 = Some pid"
    by (simp add: readPid_def trim_pid_line sscanf_itoa_alone)
  have "StopDaemon M w1 = (None, println (mg_os M) ''bunk daemon stopped''
      (snd (mg_remove M (pidPath (mg_os M)) (snd (mg_signal M pid SIGTERM w1)))))"
    using p pid by (simp add: StopDaemon_def)
  moreover have "fst (StartDaemon M w1) = Some ''daemon already running''" if "fst (mg_signal M pid 0 w1) = None"
    using p pid that by (cases "mg_signal M pid 0 w1") (simp add: StartDaemon_def daemonRunning_def)
  ultimately show ?thesis using s(1) sp(1) by (intro exI conjI impI)
qed

text \<open>A world of files, for the examples.\<close>

type_synonym files = "string \<Rightarrow> string option"

definition demo_files_os :: "files os" where
  "demo_files_os =
     \<lparr>os_getenv = (\<lambda>v. if v = ''BUNK_HOME'' then ''b'' else []),
      os_read = (\<lambda>p w. case w p of None \<Rightarrow> Inl ''no such file'' | Some s \<Rightarrow> Inr s),
      os_json = (\<lambda>_. Inl ''bad''), os_yaml = (\<lambda>s c. if s = ''y'' then gate_on default_config else c),
      os_is_dir = (\<lambda>_ _. None), os_eval_symlinks = (\<lambda>p _. Inr p), os_exchange = (\<lambda>_ _ w. (NoDial, w)),
      os_run = (\<lambda>_ _ _ w. (Exited 0, w)), os_stdout = (\<lambda>_ w. w), os_stderr = (\<lambda>_ w. w)\<rparr>"

definition demo_mgmt :: "files mgmt" where
  "demo_mgmt =
     \<lparr>mg_os = demo_files_os, mg_self = Inr ''bunk'', mg_mkdir_all = (\<lambda>_ w. (None, w)),
      mg_open_append = (\<lambda>_ w. (None, w)), mg_start = (\<lambda>_ _ _ w. (Inr 7, w)),
      mg_write = (\<lambda>p s _ w. (None, w(p \<mapsto> s))), mg_sleep = (\<lambda>_ w. w), mg_find_process = (\<lambda>_. None),
      mg_signal = (\<lambda>_ _ w. (None, w)), mg_remove = (\<lambda>p w. (if w p = None then NotExist else Removed, w(p := None))),
      mg_symlink = (\<lambda>_ _ w. (None, w)),
      mg_yaml_marshal = (\<lambda>c. if c = gate_on default_config then Inr ''y'' else Inl ''not supported'')\<rparr>"

lemma demo_laws: "write_law demo_mgmt" "quiet demo_mgmt p"
  by (auto simp: write_law_def quiet_def demo_mgmt_def demo_files_os_def)

theorem started_daemon_is_stopped_witness:
  "fst (StopDaemon demo_mgmt (Map.empty(pidPath demo_files_os \<mapsto> itoa 7 @ [LF]))) = None"
proof -
  have os: "mg_os demo_mgmt = demo_files_os" by (simp add: demo_mgmt_def)
  have "StartDaemon demo_mgmt Map.empty = (None, Map.empty(pidPath demo_files_os \<mapsto> itoa 7 @ [LF]))"
    by (simp add: StartDaemon_def daemonRunning_def readPid_def spawn_daemon_def demo_mgmt_def demo_files_os_def println_def)
  from started_daemon_is_stopped [OF demo_laws _ this] show ?thesis
    by (auto simp: demo_mgmt_def is_int64_def os)
qed

section \<open>The idle gate's configuration\<close>

text \<open>\<open>yaml_law\<close>: reading back what was written gives the value, whatever it is decoded into.\<close>

definition yaml_law :: "'w mgmt \<Rightarrow> bool" where
  "yaml_law M \<longleftrightarrow> (\<forall>c s d. mg_yaml_marshal M c = Inr s \<longrightarrow> os_yaml (mg_os M) s d = c)"

lemma gate_on_idem: "gate_on (gate_on c) = gate_on c"
  by (simp add: gate_on_def)

text \<open>C33. Installing the idle gate keeps the rest of the configuration: what the CLI then loads is what
  it loaded before with the gate enabled and its default threshold made explicit, the gate runs with the
  same threshold and interval as without the command, and installing it again changes nothing.\<close>

theorem install_keeps_config:
  assumes "write_law M" and "yaml_law M" and "quiet M (path_join [Home (mg_os M), ''config.yaml''])"
    and "\<And>p q w. os_read (mg_os M) p (snd (mg_mkdir_all M q w)) = os_read (mg_os M) p w"
    and "InstallIdleGate M w = (None, w1)"
  shows "load_cfg (mg_os M) w1 = gate_on (load_cfg (mg_os M) w) \<and>
    gate_start h (cfg_IdleGate (load_cfg (mg_os M) w1)) = gate_start h (cfg_IdleGate (load_cfg (mg_os M) w)) \<and>
    (\<forall>w2. InstallIdleGate M w1 = (None, w2) \<longrightarrow> load_cfg (mg_os M) w2 = load_cfg (mg_os M) w1)"
proof -
  have load: "load_cfg (mg_os M) w' = gate_on (load_cfg (mg_os M) w)" if i: "InstallIdleGate M w = (None, w')" for w w'
  proof -
    let ?p = "path_join [Home (mg_os M), ''config.yaml'']"
    obtain wa where a: "mg_mkdir_all M (Home (mg_os M)) w = (None, wa)"
      using i unfolding InstallIdleGate_def Let_def by (auto split: prod.splits option.splits)
    have "os_read (mg_os M) ?p wa = os_read (mg_os M) ?p w" using assms(4) [of ?p "Home (mg_os M)" w] a by simp
    then have c: "(case os_read (mg_os M) ?p wa of Inl _ \<Rightarrow> default_config | Inr raw \<Rightarrow> os_yaml (mg_os M) raw default_config) =
        load_cfg (mg_os M) w" by (simp add: load_cfg_def)
    obtain raw wb where b: "mg_yaml_marshal M (gate_on (load_cfg (mg_os M) w)) = Inr raw"
        "mg_write M ?p raw mode_file wa = (None, wb)" "os_read (mg_os M) ?p w' = os_read (mg_os M) ?p wb"
      using i assms(3) unfolding InstallIdleGate_def Let_def a prod.case option.case c
      by (auto simp: quiet_println split: prod.splits option.splits sum.splits)
    have "os_read (mg_os M) ?p w' = Inr raw" using assms(1) b(2,3) unfolding write_law_def by metis
    then show ?thesis using assms(2) b(1) by (simp add: load_cfg_def yaml_law_def)
  qed
  have "gate_threshold (cfg_IdleGate (gate_on c)) = gate_threshold (cfg_IdleGate c)"
    "gate_interval (cfg_IdleGate (gate_on c)) = gate_interval (cfg_IdleGate c)" for c
    by (simp_all add: gate_on_def gate_threshold_def gate_interval_def)
  then have "gate_start h (cfg_IdleGate (gate_on c)) = gate_start h (cfg_IdleGate c)" for c
    unfolding gate_start_def by (simp only:)
  then show ?thesis using load [OF assms(5)] load gate_on_idem by simp
qed



theorem install_keeps_config_witness:
  "load_cfg demo_files_os (Map.empty(path_join [Home demo_files_os, ''config.yaml''] \<mapsto> ''y'')) = gate_on default_config"
proof -
  have os: "mg_os demo_mgmt = demo_files_os" by (simp add: demo_mgmt_def)
  have y: "yaml_law demo_mgmt" by (simp add: yaml_law_def demo_mgmt_def demo_files_os_def)
  have "InstallIdleGate demo_mgmt Map.empty = (None, Map.empty(path_join [Home demo_files_os, ''config.yaml''] \<mapsto> ''y''))"
    by (simp add: InstallIdleGate_def demo_mgmt_def demo_files_os_def println_def)
  from install_keeps_config [OF demo_laws(1) y demo_laws(2) _ this]
  show ?thesis by (simp add: os load_cfg_def [of _ Map.empty]) (simp add: demo_mgmt_def demo_files_os_def load_cfg_def)
qed

text \<open>
  The error of the decoder is dropped: a configuration file that does not parse, of which it leaves the
  defaults, is overwritten with them.
\<close>

lemma install_overwrites_bad_config:
  assumes "mg_mkdir_all M (Home (mg_os M)) w = (None, w)"
    and "os_read (mg_os M) (path_join [Home (mg_os M), ''config.yaml'']) w = Inr raw"
    and "os_yaml (mg_os M) raw default_config = default_config"
    and "mg_yaml_marshal M (gate_on default_config) = Inr s"
    and "mg_write M (path_join [Home (mg_os M), ''config.yaml'']) s mode_file w = (None, w1)"
  shows "fst (InstallIdleGate M w) = None"
  using assms by (simp add: InstallIdleGate_def Let_def)

section \<open>The command line\<close>

text \<open>
  The arguments of \<^verbatim>\<open>bunk pair\<close>: names given with their flag, and any other argument.
\<close>

datatype pair_tok = PName string | POther string

fun pair_tok_args :: "pair_tok \<Rightarrow> string list" where
  "pair_tok_args (PName n) = [''--name'', n]"
| "pair_tok_args (POther a) = [a]"

definition is_code :: "string \<Rightarrow> bool" where
  "is_code a \<longleftrightarrow> a \<noteq> [] \<and> \<not> has_prefix a ''-''"

definition pair_codes :: "pair_tok list \<Rightarrow> string list" where
  "pair_codes ts = filter is_code (concat (map (\<lambda>t. case t of PName _ \<Rightarrow> [] | POther a \<Rightarrow> [a]) ts))"

definition pair_names :: "pair_tok list \<Rightarrow> string list" where
  "pair_names ts = concat (map (\<lambda>t. case t of PName n \<Rightarrow> [n] | POther _ \<Rightarrow> []) ts)"

lemma pair_args_tokens:
  assumes "\<forall>t\<in>set ts. t \<noteq> POther ''--name''"
  shows "pair_args (concat (map pair_tok_args ts)) code name =
    (if code = [] then (case pair_codes ts of [] \<Rightarrow> [] | c # _ \<Rightarrow> c) else code,
     last (name # pair_names ts))"
  using assms
proof (induction ts arbitrary: code name)
  case (Cons t ts)
  then show ?case by (cases t) (auto simp: pair_codes_def pair_names_def is_code_def)
qed (simp add: pair_codes_def pair_names_def)

text \<open>C36. The command line of pairing is read in any order: the code is the first argument that is neither
  a flag nor the value of \<^verbatim>\<open>--name\<close>, the name the last one given, and each is empty when it is not there.\<close>

theorem pair_args_read_back:
  assumes "\<forall>t\<in>set ts. t \<noteq> POther ''--name''"
  shows "pair_args (concat (map pair_tok_args ts)) [] [] =
    (case pair_codes ts of [] \<Rightarrow> [] | c # _ \<Rightarrow> c, if pair_names ts = [] then [] else last (pair_names ts))"
  using pair_args_tokens [OF assms, of "[]" "[]"] by simp

theorem pair_args_read_back_witness: "pair_args [''--name'', ''a'', ''-v'', ''ABC-DEF''] [] [] = (''ABC-DEF'', ''a'')"
proof -
  have "pair_codes [PName ''a'', POther ''-v'', POther ''ABC-DEF''] = [''ABC-DEF'']"
    by (simp add: pair_codes_def is_code_def has_prefix_def)
  then show ?thesis
    using pair_args_read_back [of "[PName ''a'', POther ''-v'', POther ''ABC-DEF'']"] by (simp add: pair_names_def)
qed

definition bunk_commands :: "string list" where
  "bunk_commands =
     [''pair'', ''use'', ''unuse'', ''machines'', ''forward'', ''unforward'', ''forwards'', ''revoke'', ''status'', ''daemon'',
      ''start'', ''stop'', ''restart'', ''enable-shim'', ''disable-shim'', ''install-idle-gate'']"

lemma run_command_None: "run_command quote M dc cmd rest w = None \<longleftrightarrow> cmd \<notin> set bunk_commands"
  unfolding run_command_def bunk_commands_def Let_def by (simp add: case_prod_beta)



text \<open>The words bunk takes for itself are not docker's: stopping a container by name stops bunk's daemon.\<close>

lemma stop_is_not_docker: "run_command quote M dc ''stop'' rest w = Some (StopDaemon M w)"
  by (simp add: run_command_def)

end
