(* ===== verification/UseDocker.thy ===== *)
theory UseDocker
  imports MgmtProps DaemonLife
begin

text \<open>
  The CLI on top of the daemon: an operating system whose control port is the daemon's and whose state
  file is the one the daemon writes. What else the system does is \<open>base\<close>; \<open>enc\<close> is what the daemon's
  JSON encoder makes of the state.
\<close>

record sys =
  sy_daemon :: daemon
  sy_out :: "string list"
  sy_runs :: "string list list"

definition with_daemon :: "denv \<Rightarrow> (daemon \<Rightarrow> daemon) \<Rightarrow> (state \<Rightarrow> string) \<Rightarrow> sys os \<Rightarrow> sys os" where
  "with_daemon env during enc base =
     base\<lparr>os_read := (\<lambda>p w. if p = StatePath base
            then (case d_file (sy_daemon w) of None \<Rightarrow> Inl ''no such file'' | Some st \<Rightarrow> Inr (enc st))
            else os_read base p w),
          os_exchange := (\<lambda>port req w. if port = s_ControlPort (d_st (sy_daemon w))
            then (case handleControlConn [(env, during, Some req)] (sy_daemon w) of
                    (d', resps) \<Rightarrow> (Reply (hd resps), w\<lparr>sy_daemon := d'\<rparr>))
            else (NoDial, w))\<rparr>"

text \<open>Running docker and printing leave the daemon alone; the CLI decodes what the daemon encoded.\<close>

definition base_ok :: "(state \<Rightarrow> string) \<Rightarrow> sys os \<Rightarrow> bool" where
  "base_ok enc base \<longleftrightarrow>
     (\<forall>st. os_json base (enc st) = Inr (mirror st)) \<and>
     (\<forall>q bin args w. sy_daemon (snd (os_run base q bin args w)) = sy_daemon w) \<and>
     (\<forall>s w. sy_daemon (os_stdout base s w) = sy_daemon w) \<and> (\<forall>s w. sy_daemon (os_stderr base s w) = sy_daemon w)"

lemma with_daemon_paths [simp]:
  "Home (with_daemon env during enc base) = Home base" "StatePath (with_daemon env during enc base) = StatePath base"
  by (simp_all add: Home_def StatePath_def with_daemon_def)

lemma with_daemon_calls [simp]:
  "os_stdout (with_daemon env during enc base) = os_stdout base" "os_stderr (with_daemon env during enc base) = os_stderr base"
  "os_run (with_daemon env during enc base) = os_run base" "os_json (with_daemon env during enc base) = os_json base"
  by (simp_all add: with_daemon_def)

lemma read_state_daemon:
  assumes "base_ok enc base" and "d_file (sy_daemon w) = Some st"
  shows "read_state (with_daemon env during enc base) w = Inr (mirror st)"
proof -
  have "os_read (with_daemon env during enc base) (StatePath base) w = Inr (enc st)"
    using assms(2) by (simp add: with_daemon_def)
  then show ?thesis using assms(1) by (simp add: read_state_def base_ok_def)
qed

text \<open>One exchange with the daemon, when its state file has its control port.\<close>

lemma ctl_daemon:
  assumes "base_ok enc base" and "d_file (sy_daemon w) = Some st" and "s_ControlPort st = s_ControlPort (d_st (sy_daemon w))"
    and "execControl env during req (sy_daemon w) = (d', resp)"
  shows "ctl (with_daemon env during enc base) req w =
    (if r_OK resp then Inr resp else Inl (r_Error resp), w\<lparr>sy_daemon := d'\<rparr>)"
proof -
  have p: "ds_ControlPort (mirror st) = s_ControlPort (d_st (sy_daemon w))" using assms(3) by (simp add: mirror_def)
  have "os_exchange (with_daemon env during enc base) (s_ControlPort (d_st (sy_daemon w))) req w =
      (Reply resp, w\<lparr>sy_daemon := d'\<rparr>)"
    using assms(4) by (simp add: with_daemon_def)
  then show ?thesis by (simp add: ctl_def read_state_daemon [OF assms(1,2)] p)
qed

lemma docker_keeps_daemon:
  assumes "base_ok enc base"
  shows "sy_daemon (snd (execDocker (with_daemon env during enc base) args w)) = sy_daemon w"
    and "sy_daemon (snd (execDockerSilent (with_daemon env during enc base) args w)) = sy_daemon w"
proof -
  have run: "sy_daemon w' = sy_daemon w" if "os_run base q bin args w = (r, w')" for q bin r w'
    using assms that unfolding base_ok_def by (metis snd_conv)
  have err: "sy_daemon (os_stderr base s w') = sy_daemon w'" for s w' using assms by (simp add: base_ok_def)
  show "sy_daemon (snd (execDocker (with_daemon env during enc base) args w)) = sy_daemon w"
    using run err by (auto simp: execDocker_def split: sum.split prod.split run_result.split)
  show "sy_daemon (snd (execDockerSilent (with_daemon env during enc base) args w)) = sy_daemon w"
    using run by (auto simp: execDockerSilent_def split: sum.split prod.split run_result.split)
qed

lemma createContext_keeps_daemon:
  assumes "base_ok enc base"
  shows "sy_daemon (createContext (with_daemon env during enc base) name port w) = sy_daemon w"
proof -
  obtain code w1 where c: "execDockerSilent (with_daemon env during enc base) [''context'', ''inspect'', name] w = (code, w1)"
    by (cases "execDockerSilent (with_daemon env during enc base) [''context'', ''inspect'', name] w") auto
  then have "sy_daemon w1 = sy_daemon w"
    using docker_keeps_daemon(2) [OF assms, of env during "[''context'', ''inspect'', name]" w] by simp
  with c show ?thesis using docker_keeps_daemon(1) [OF assms] by (simp add: createContext_def)
qed

lemma println_keeps_daemon:
  "base_ok enc base \<Longrightarrow> sy_daemon (println (with_daemon env during enc base) s w) = sy_daemon w"
  by (simp add: println_def base_ok_def)

section \<open>What a link leaves in the state\<close>

text \<open>Waiting commands see hub messages, which leave the state alone.\<close>

definition calm :: "(daemon \<Rightarrow> daemon) \<Rightarrow> bool" where
  "calm f \<longleftrightarrow> (\<forall>d. conf (f d) = conf d)"

lemma calm_hub: "calm (fold (\<lambda>(env, m). handleHubMsg env m) ms)"
proof -
  have "conf (fold (\<lambda>(env, m). handleHubMsg env m) ms d) = conf d" for d
    by (induction ms arbitrary: d) (simp_all add: case_prod_beta)
  then show ?thesis by (simp add: calm_def)
qed

lemma conf_openChannel: "conf (fst (openChannel env p s dl d)) = conf d"
proof (cases "peerPubKey p d")
  case (Inr pub)
  define cid where "cid = newID env"
  define c where "c = \<lparr>ch_id = cid, ch_peer = p, ch_kind = kindFor s, ch_conn = None, ch_caps = [], ch_done = Some False, ch_closed = False\<rparr>"
  obtain h d1 where a: "add_chan c d = (h, d1)" by (cases "add_chan c d")
  then have "conf d1 = conf d" using conf_frame(6) [of c d] by simp
  moreover obtain d2 e where r: "sendRelay env p pub cid s dl [] d1 = (d2, e)" by (cases "sendRelay env p pub cid s dl [] d1")
  then have "conf d2 = conf d1" using conf_frame(7) [of env p pub cid s dl "[]" d1] by simp
  ultimately show ?thesis
    using Inr a r by (cases e) (simp_all add: openChannel_def c_def cid_def Let_def)
qed (simp add: openChannel_def)

lemma conf_waitCaps:
  assumes "calm during"
  shows "conf (fst (waitCaps env during p d)) = conf d"
proof -
  obtain d1 r where o: "openChannel env p ServiceCaps [] d = (d1, r)" by (cases "openChannel env p ServiceCaps [] d")
  then have "conf d1 = conf d" using conf_openChannel [of env p ServiceCaps "[]" d] by simp
  with o assms show ?thesis by (cases r) (simp_all add: waitCaps_def Let_def calm_def)
qed

lemma EnsureLink_port:
  assumes "EnsureLink env during name d = (d1, Inr (port, gpu))" and "calm during"
    and "resolvePeer env name d = Inr p" and "v_listen env 0 = Inr q" and "0 < q"
  shows "map_option li_Port (map_of (s_Links (d_st d1)) (mi_Name p)) = Some port \<and> 0 < port \<and>
    (\<forall>n. n \<noteq> mi_Name p \<longrightarrow> map_of (s_Links (d_st d1)) n = map_of (s_Links (d_st d)) n)"
proof -
  define old where "old = map_of (s_Links (d_st d)) (mi_Name p)"
  define old_port where "old_port = (case old of None \<Rightarrow> 0 | Some li \<Rightarrow> li_Port li)"
  define old_cores where "old_cores = (case old of None \<Rightarrow> 0 | Some li \<Rightarrow> li_Cores li)"
  show ?thesis
  proof (cases "old_port > 0 \<and> old_cores > 0")
    case True
    then have "d1 = d" "port = old_port"
      using assms(1) by (auto simp: EnsureLink_def assms(3) old_def old_port_def old_cores_def Let_def)
    with True show ?thesis by (auto simp: old_port_def old_def split: option.splits)
  next
    case False
    obtain d2 probed where w: "waitCaps env during (mi_ID p) d = (d2, probed)" by (cases "waitCaps env during (mi_ID p) d")
    then have "conf d2 = conf d" using conf_waitCaps [OF assms(2), of env "mi_ID p" d] by simp
    then have st: "d_st d2 = d_st d" by (simp add: conf_def)
    define d3 where "d3 = d2\<lparr>d_lns := (d_lns d2)(d_next d2 \<mapsto> \<lparr>ln_port = q, ln_open = True, ln_serves = None\<rparr>), d_next := Suc (d_next d2)\<rparr>"
    have l: "listen env 0 d2 = (d3, Inr (d_next d2))" by (simp add: listen_def assms(4) d3_def)
    have d3: "d_st d3 = d_st d" "port_of (d_next d2) d3 = q" by (simp_all add: d3_def st port_of_def)
    define gpu' where "gpu' = (case probed of Inl _ \<Rightarrow> ''none'' | Inr c \<Rightarrow> ca_GPU c)"
    define cores where "cores = (case probed of Inl _ \<Rightarrow> 0 | Inr c \<Rightarrow> ca_Cores c)"
    define ram where "ram = (case probed of Inl _ \<Rightarrow> 0 | Inr c \<Rightarrow> ca_RAMGB c)"
    define d4 where "d4 = d3\<lparr>d_linkLns := AList.update (mi_Name p) (d_next d2) (d_linkLns d3)\<rparr>"
    have d4: "d_st d4 = d_st d" by (simp add: d4_def d3)
    have e: "(if old_port > 0
        then (close_ln (d_next d2) (saveState env (set_link_caps (mi_Name p) gpu' cores ram d4)), Inr (old_port, gpu'))
        else (serve_ln (d_next d2) (ToPeer (mi_ID p) ServiceDocker []) (saveState env (new_link (mi_Name p)
          \<lparr>li_Port = q, li_GPU = gpu', li_Cores = cores, li_RAMGB = ram\<rparr> d4)), Inr (q, gpu'))) = (d1, Inr (port, gpu) :: (int \<times> string) result)"
      using assms(1) unfolding EnsureLink_def assms(3) sum.case Let_def old_def [symmetric] old_port_def [symmetric]
        old_cores_def [symmetric] if_not_P [OF False] w prod.case l gpu'_def [symmetric] cores_def [symmetric] ram_def [symmetric]
        d4_def [symmetric] d3(2) .
    show ?thesis
    proof (cases "old_port > 0")
      case True
      then obtain li where li: "map_of (s_Links (d_st d)) (mi_Name p) = Some li" "li_Port li = old_port"
        by (auto simp: old_port_def old_def split: option.splits)
      have "d1 = close_ln (d_next d2) (saveState env (set_link_caps (mi_Name p) gpu' cores ram d4))" "port = old_port"
        using e True by (auto simp only: if_True prod.inject sum.inject)
      with True li show ?thesis by (simp add: ln_defs set_link_caps_def d4)
    next
      case False
      then have "d1 = serve_ln (d_next d2) (ToPeer (mi_ID p) ServiceDocker []) (saveState env (new_link (mi_Name p)
          \<lparr>li_Port = q, li_GPU = gpu', li_Cores = cores, li_RAMGB = ram\<rparr> d4))" "port = q"
        using e by (auto simp only: if_False prod.inject sum.inject)
      with assms(5) show ?thesis by (simp add: ln_defs new_link_def d4)
    qed
  qed
qed

section \<open>Using a machine\<close>

lemma EnsureLink_succeeds:
  assumes "resolvePeer env name d = Inr p" and "v_listen env 0 = Inr q"
  shows "\<exists>d1 port gpu. EnsureLink env during name d = (d1, Inr (port, gpu))"
proof -
  obtain d2 probed where w: "waitCaps env during (mi_ID p) d = (d2, probed)" by (cases "waitCaps env during (mi_ID p) d")
  obtain d3 h where l: "listen env 0 d2 = (d3, Inr h)" using assms(2) by (simp add: listen_def)
  show ?thesis unfolding EnsureLink_def assms(1) sum.case w prod.case l Let_def by (simp split: if_split)
qed

lemma use_succeeds:
  assumes "base_ok enc base" and "d_file (sy_daemon w) = Some st" and "s_ControlPort st = s_ControlPort (d_st (sy_daemon w))"
    and "resolvePeer env name (sy_daemon w) = Inr p" and "v_listen env 0 = Inr q" and "name \<noteq> []"
  shows "\<exists>w1. cmd_Use (with_daemon env during enc base) name False w = (None, w1)"
proof -
  let ?req = "zero_ctl_req\<lparr>q_Cmd := CtlUse, q_Name := name\<rparr>"
  obtain d1 port gpu where e: "EnsureLink env during name (sy_daemon w) = (d1, Inr (port, gpu))"
    using EnsureLink_succeeds [OF assms(4,5)] by blast
  have q: "q_Name ?req = name" by simp
  have "execControl env during ?req (sy_daemon w) = ctlUse env during ?req (sy_daemon w)"
    by (simp add: execControl_def ctl_cmd_defs)
  also have "\<dots> = (saveState env (set_active name d1), zero_ctl_resp\<lparr>r_OK := True, r_Port := port, r_GPU := gpu, r_Active := name\<rparr>)"
    unfolding ctlUse_def q e using assms(6) by simp
  finally show ?thesis using ctl_daemon [OF assms(1-3)] by (simp add: cmd_Use_def Let_def)
qed

lemma use_daemon:
  assumes "base_ok enc base" and "d_file (sy_daemon w) = Some st" and "s_ControlPort st = s_ControlPort (d_st (sy_daemon w))"
    and "v_save env = None" and "cmd_Use (with_daemon env during enc base) name False w = (None, w1)"
  shows "\<exists>d1 port gpu. EnsureLink env during name (sy_daemon w) = (d1, Inr (port, gpu)) \<and> name \<noteq> [] \<and>
    d_file (sy_daemon w1) = Some ((d_st d1)\<lparr>s_Active := name\<rparr>)"
proof -
  let ?os = "with_daemon env during enc base"
  let ?req = "zero_ctl_req\<lparr>q_Cmd := CtlUse, q_Name := name\<rparr>"
  obtain d2 resp where x: "execControl env during ?req (sy_daemon w) = (d2, resp)" by (cases "execControl env during ?req (sy_daemon w)")
  note c = ctl_daemon [OF assms(1-3) x]
  have ok: "r_OK resp" using assms(5) by (cases "r_OK resp") (simp_all add: cmd_Use_def c)
  have q: "q_Name ?req = name" by simp
  have cu: "ctlUse env during ?req (sy_daemon w) = (d2, resp)" using x by (simp add: execControl_def ctl_cmd_defs)
  have n: "name \<noteq> []"
  proof
    assume "name = []"
    then have "resp = ctl_error ''usage: bunk use <machine>''" using cu unfolding ctlUse_def q by simp
    with ok show False by (simp add: ctl_error_def zero_ctl_resp_def)
  qed
  have u: "(case EnsureLink env during name (sy_daemon w) of
      (d1, Inl e) \<Rightarrow> (d1, ctl_error e)
    | (d1, Inr (port, gpu)) \<Rightarrow> (saveState env (set_active name d1),
         zero_ctl_resp\<lparr>r_OK := True, r_Port := port, r_GPU := gpu, r_Active := name\<rparr>)) = (d2, resp)"
    using cu unfolding ctlUse_def q if_not_P [OF n] .
  obtain d1 r where e: "EnsureLink env during name (sy_daemon w) = (d1, r)" by (cases "EnsureLink env during name (sy_daemon w)")
  then obtain port gpu where r: "r = Inr (port, gpu)" and d2: "d2 = saveState env (set_active name d1)"
    using u ok by (cases r) (auto simp: ctl_error_def zero_ctl_resp_def)
  have "sy_daemon w1 = d2"
    using assms(5) ok createContext_keeps_daemon [OF assms(1)] println_keeps_daemon [OF assms(1)]
    by (auto simp only: cmd_Use_def c if_True if_False prod.case sum.case Let_def prod.inject) simp
  then show ?thesis using e r n d2 assms(4) by (simp add: saveState_def set_active_def)
qed

lemma use_links:
  assumes "base_ok enc base" and "d_file (sy_daemon w) = Some st" and "s_ControlPort st = s_ControlPort (d_st (sy_daemon w))"
    and "v_save env = None" and "cmd_Use (with_daemon env during enc base) name False w = (None, w1)"
    and "calm during" and "v_listen env 0 = Inr q" and "0 < q"
  obtains p port st1 where "resolvePeer env name (sy_daemon w) = Inr p" and "0 < port" and "name \<noteq> []"
    and "read_state (with_daemon env during enc base) w1 = Inr (mirror st1)" and "s_Active st1 = name"
    and "map_option li_Port (map_of (s_Links st1) (mi_Name p)) = Some port"
    and "\<forall>n. n \<noteq> mi_Name p \<longrightarrow> map_of (s_Links st1) n = map_of (s_Links (d_st (sy_daemon w))) n"
proof -
  obtain d1 port gpu where u: "EnsureLink env during name (sy_daemon w) = (d1, Inr (port, gpu))" "name \<noteq> []"
    "d_file (sy_daemon w1) = Some ((d_st d1)\<lparr>s_Active := name\<rparr>)"
    using use_daemon [OF assms(1-5)] by blast
  obtain p where p: "resolvePeer env name (sy_daemon w) = Inr p"
    using u(1) by (cases "resolvePeer env name (sy_daemon w)") (simp_all add: EnsureLink_def)
  note l = EnsureLink_port [OF u(1) assms(6) p assms(7,8)]
  note s = read_state_daemon [OF assms(1) u(3), of env during]
  show thesis
    by (rule that [OF p _ u(2) s, of port]) (use l in simp_all)
qed

text \<open>Used by anything but its name, a machine becomes active under a key that no link has.\<close>

lemma use_by_id_has_no_proxy:
  assumes "base_ok enc base" and "d_file (sy_daemon w) = Some st" and "s_ControlPort st = s_ControlPort (d_st (sy_daemon w))"
    and "v_save env = None" and "cmd_Use (with_daemon env during enc base) mid False w = (None, w1)"
    and "calm during" and "v_listen env 0 = Inr q" and "0 < q"
    and "map_of (d_peers (sy_daemon w)) mid = Some p" and "mi_Name p \<noteq> mid" and "map_of (s_Links (d_st (sy_daemon w))) mid = None"
  shows "active_link (with_daemon env during enc base) w1 =
    Inl (''no proxy for active machine '' @ em_dash @ '' run: bunk use <machine>'')"
proof -
  obtain p' port st1 where u: "resolvePeer env mid (sy_daemon w) = Inr p'" "mid \<noteq> []"
    "read_state (with_daemon env during enc base) w1 = Inr (mirror st1)" "s_Active st1 = mid"
    "\<forall>n. n \<noteq> mi_Name p' \<longrightarrow> map_of (s_Links st1) n = map_of (s_Links (d_st (sy_daemon w))) n"
    by (rule use_links [OF assms(1-8)])
  have "p' = p" using u(1) assms(9) by (auto simp: resolvePeer_def online_result_def split: option.splits)
  then have "map_of (s_Links st1) mid = None" using u(5) assms(10,11) by metis
  then show ?thesis using u(2-4) by (simp add: active_link_def mirror_def)
qed

section \<open>Links are kept by name\<close>

text \<open>A machine gets the link of any machine that had its name before it.\<close>

lemma link_of_namesake:
  assumes "resolvePeer env mid d = Inr p" and "map_of (s_Links (d_st d)) (mi_Name p) = Some li" and "0 < li_Port li" "0 < li_Cores li"
  shows "EnsureLink env during mid d = (d, Inr (li_Port li, li_GPU li))"
  using assms by (simp add: EnsureLink_def Let_def)

end
