(* ===== verification/StateCodec.thy ===== *)
theory StateCodec
  imports Config
begin

text \<open>
  A codec for the state file, to instantiate the encoder and the decoder the daemon and the CLI rely on:
  every \<open>get\<close> reads back what its \<open>put\<close> wrote and leaves the rest. Lengths are written in unary.
\<close>

definition put_nat :: "nat \<Rightarrow> string" where
  "put_nat n = replicate n CHR '' '' @ ''.''"

fun get_nat :: "string \<Rightarrow> nat \<times> string" where
  "get_nat [] = (0, [])"
| "get_nat (c # s) = (if c = CHR '' '' then (case get_nat s of (n, r) \<Rightarrow> (Suc n, r)) else (0, s))"

lemma get_put_nat [simp]: "get_nat (put_nat n @ r) = (n, r)"
  by (induction n) (simp_all add: put_nat_def)

definition put_str :: "string \<Rightarrow> string" where
  "put_str s = put_nat (length s) @ s"

definition get_str :: "string \<Rightarrow> string \<times> string" where
  "get_str t = (case get_nat t of (n, r) \<Rightarrow> (take n r, drop n r))"

lemma get_put_str [simp]: "get_str (put_str s @ r) = (s, r)"
  by (simp add: put_str_def get_str_def)

definition put_int :: "int \<Rightarrow> string" where
  "put_int i = put_nat (nat i) @ put_nat (nat (- i))"

definition get_int :: "string \<Rightarrow> int \<times> string" where
  "get_int t = (case get_nat t of (p, r) \<Rightarrow> case get_nat r of (n, r') \<Rightarrow> (int p - int n, r'))"

lemma get_put_int [simp]: "get_int (put_int i @ r) = (i, r)"
  by (simp add: put_int_def get_int_def)

fun put_links :: "(string, link_info) table \<Rightarrow> string" where
  "put_links [] = []"
| "put_links ((n, li) # ls) =
     put_str n @ put_int (li_Port li) @ put_str (li_GPU li) @ put_int (li_Cores li) @ put_int (li_RAMGB li) @ put_links ls"

fun get_links :: "nat \<Rightarrow> string \<Rightarrow> (string, link_info) table \<times> string" where
  "get_links 0 t = ([], t)"
| "get_links (Suc k) t =
     (case get_str t of (n, t1) \<Rightarrow> case get_int t1 of (port, t2) \<Rightarrow> case get_str t2 of (gpu, t3) \<Rightarrow>
      case get_int t3 of (cores, t4) \<Rightarrow> case get_int t4 of (ram, t5) \<Rightarrow> case get_links k t5 of (ls, t6) \<Rightarrow>
        ((n, \<lparr>li_Port = port, li_GPU = gpu, li_Cores = cores, li_RAMGB = ram\<rparr>) # ls, t6))"

lemma get_put_links [simp]: "get_links (length ls) (put_links ls @ r) = (ls, r)"
  by (induction ls) auto

definition put_key :: "key_pair_json option \<Rightarrow> string" where
  "put_key k = (case k of None \<Rightarrow> put_nat 0 | Some kj \<Rightarrow> put_nat 1 @ put_str (kj_Public kj) @ put_str (kj_Private kj))"

definition get_key :: "string \<Rightarrow> key_pair_json option \<times> string" where
  "get_key t =
     (case get_nat t of (n, t1) \<Rightarrow>
        if n = 0 then (None, t1)
        else (case get_str t1 of (p, t2) \<Rightarrow> case get_str t2 of (q, t3) \<Rightarrow> (Some \<lparr>kj_Public = p, kj_Private = q\<rparr>, t3)))"

lemma get_put_key [simp]: "get_key (put_key k @ r) = (k, r)"
  by (simp add: put_key_def get_key_def split: option.split)

definition put_state :: "state \<Rightarrow> string" where
  "put_state s =
     put_str (s_MachineID s) @ put_key (s_Key s) @ put_str (s_Name s) @ put_int (s_ControlPort s) @
     put_str (s_Active s) @ put_nat (length (s_Links s)) @ put_links (s_Links s)"

definition get_state :: "string \<Rightarrow> daemon_state" where
  "get_state t =
     (case get_str t of (mid, t1) \<Rightarrow> case get_key t1 of (k, t2) \<Rightarrow> case get_str t2 of (n, t3) \<Rightarrow>
      case get_int t3 of (port, t4) \<Rightarrow> case get_str t4 of (act, t5) \<Rightarrow> case get_nat t5 of (m, t6) \<Rightarrow>
        \<lparr>ds_MachineID = mid, ds_Key = k, ds_Name = n, ds_ControlPort = port, ds_Active = act,
         ds_Links = fst (get_links m t6)\<rparr>)"

lemma get_put_state: "get_state (put_state s) = mirror s"
proof -
  have "get_links (length ls) (put_links ls) = (ls, [])" for ls
    using get_put_links [of ls "[]"] by (simp only: append_Nil2)
  then show ?thesis by (simp add: get_state_def put_state_def mirror_def)
qed

end
