(* ===== verification/Spec2Isabelle.thy ===== *)
theory Spec2Isabelle
  imports HubProps HubHandlers HubRace HubMain Pairing UseDocker StateCodec
begin

text \<open>
  A verification library for bunk, a tool that runs containers on machines of people who trust each
  other: a daemon on every machine, a hub that relays sealed frames between them, and a command line
  that is docker's with a few commands of its own. The theories follow the program's packages.

  \<^bold>\<open>The program and its theories.\<close>
  \<^item> \<^verbatim>\<open>Prelude\<close>, \<^verbatim>\<open>GoStd\<close>, \<^verbatim>\<open>GoPath\<close>, \<^verbatim>\<open>Base64\<close>: results (\<open>Inl\<close> is the error's text), keyed tables, map iteration
    orders, the locale of event machines; strings as bytes, 64-bit integers, the functions of \<^verbatim>\<open>strings\<close>,
    \<^verbatim>\<open>strconv\<close>, \<^verbatim>\<open>fmt\<close>, \<^verbatim>\<open>path/filepath\<close> and \<^verbatim>\<open>encoding/base64\<close> the program computes with.
  \<^item> \<^verbatim>\<open>Proto\<close> (\<^verbatim>\<open>internal/proto\<close>): messages and control requests as records.
  \<^item> \<^verbatim>\<open>HubStore\<close> (\<^verbatim>\<open>internal/hub/state.go\<close>): the three tables of the database, one function per method, with the
    locales \<open>link_acl\<close> and \<open>pairing_codes\<close> that say what the hub relies on, interpreted on them.
  \<^item> \<^verbatim>\<open>Hub\<close>, \<^verbatim>\<open>HubRun\<close>, \<^verbatim>\<open>HubTrace\<close>, \<^verbatim>\<open>HubSpec\<close>, \<^verbatim>\<open>HubProps\<close>, \<^verbatim>\<open>HubHandlers\<close>, \<^verbatim>\<open>HubRace\<close> (\<^verbatim>\<open>internal/hub/hub.go\<close>): the hub's
    state and handlers; its events, invariant and runs; what steps send and change; the abstract registry
    of links and codes it refines; the properties; the interleaving of handlers at the one place where
    they give the mutex up.
  \<^item> \<^verbatim>\<open>HubMain\<close> (\<^verbatim>\<open>cmd/bunk-hub\<close>): flags, start, routes, health body, its integer printer.
  \<^item> \<^verbatim>\<open>E2E\<close> (\<^verbatim>\<open>internal/e2e\<close>), \<^verbatim>\<open>Caps\<close> (\<^verbatim>\<open>internal/caps\<close>): sealing; what a machine reports of itself.
  \<^item> \<^verbatim>\<open>Config\<close>, \<^verbatim>\<open>Daemon\<close>, \<^verbatim>\<open>Relay\<close>, \<^verbatim>\<open>Proxy\<close>, \<^verbatim>\<open>Control\<close>, \<^verbatim>\<open>Connect\<close>, \<^verbatim>\<open>IdleGate\<close> (\<^verbatim>\<open>internal/daemon\<close>): configuration and
    state file, the daemon's record with its heaps of channels, connections and listeners, relay
    channels, links and forwards, control commands, the connection to the hub, the idle gate.
  \<^item> \<^verbatim>\<open>DaemonInv\<close>, \<^verbatim>\<open>DaemonOps\<close>, \<^verbatim>\<open>DaemonProps\<close>, \<^verbatim>\<open>DaemonLife\<close>: its invariant, kept by every operation; the daemon as
    a machine of events; what reaches a local connection; forwards, restarts and reconnecting.
  \<^item> \<^verbatim>\<open>CliBase\<close>, \<^verbatim>\<open>Shim\<close>, \<^verbatim>\<open>ShimProps\<close>, \<^verbatim>\<open>Cli\<close>, \<^verbatim>\<open>Mgmt\<close>, \<^verbatim>\<open>BunkMain\<close>, \<^verbatim>\<open>MgmtProps\<close> (\<^verbatim>\<open>internal/cli\<close>, \<^verbatim>\<open>cmd/bunk\<close>): the
    operating system as a record of calls over a world; the docker pipeline; the commands; arguments,
    dispatch and exit codes.
  \<^item> \<^verbatim>\<open>Tunnel\<close>, \<^verbatim>\<open>Pairing\<close>, \<^verbatim>\<open>UseDocker\<close> and this theory: the parts together, daemon to hub to daemon and command
    line to daemon to docker. \<^verbatim>\<open>StateCodec\<close> is a codec that shows the hypotheses on JSON can hold.

  \<^bold>\<open>How the model reads.\<close> A struct is a record, a Go map a table (an association list with unique keys), an
  object shared by pointer an entry of a heap under a handle, a mutex section one step. Goroutines are
  events: \<open>hub_step\<close> and \<open>daemon_step\<close> take one, a run is a list of them, and an operation that waits takes
  what the others do meanwhile as the argument \<open>during\<close>. A range over a map takes its order as an argument
  that only \<open>is_order\<close> constrains. Panics are values: \<open>h_panic\<close>, \<open>d_panic\<close> and \<open>None\<close>.

  \<^bold>\<open>What stands for code outside the repository.\<close> \<open>db_env\<close>: the SQLite driver's failures, clock and row order.
  \<open>box\<close> with \<open>box_ok\<close>: nacl/box. \<open>denv\<close>: one operation's answers of the system to the daemon (binding, dialling,
  saving, randomness, the JSON of capabilities and of docker's container list). \<open>os\<close> and \<open>mgmt\<close>: what the
  CLI asks of the system; YAML and JSON are fields of them, with \<open>yaml_law\<close>, \<open>write_law\<close>, \<open>quiet\<close> and
  \<open>base_ok\<close> where a property needs them. Every such hypothesis has a witness on a concrete instance.

  \<^bold>\<open>Loops and bounds.\<close> All functions are total. A loop that reads from outside is a recursion over what
  the reads return: the frames of a connection, the reads of a pump, the sessions of the reconnect loop,
  the ticks of the idle gate. The retry loops keep the code's bounds (18 capability refreshes, 20
  resolutions), the hub's queues their 64 messages, integers their 64 bits where the code can overflow.
  A send to a full queue waits five seconds in the code: a message that gets a place meanwhile is the same
  step taken later, and the step taken at a full queue is the one that gave up.

  \<^bold>\<open>Not modelled.\<close> HTTP, WebSocket and TCP framing, JSON and YAML texts (the records they carry are), log
  lines, the signal handler that ends the daemon, timers other than the waits and deadlines that are
  results, and the shell scripts and service files. Failures of the disk are only those the code looks at.
\<close>

section \<open>From one machine's connection to the other's\<close>

text \<open>C4. The tunnel delivers the stream: while the sender's queue at the hub has room, what the pump of one
  machine reads from its connection, sealed frame by frame, relayed by the hub to the linked machine and
  opened there, is written to the connection of the same channel: every read, in order, unchanged, and
  nothing else.\<close>

theorem tunnel_delivers:
  assumes "box_ok bx pub_of" and "kp_ok pub_of (d_key dA)" and "kp_ok pub_of (d_key dB)"
    and "map_of (d_peers dA) b = Some pB" and "mi_PubKey pB = kp_PubB64 (d_key dB)"
    and "map_of (d_peers dB) a = Some pA" and "mi_PubKey pA = kp_PubB64 (d_key dA)"
    and "chan_at cid dA = Some (hA, cA)" and "ch_peer cA = b" and "cid \<noteq> []"
    and "list_all (good_read bx) reads" and "v_box envB = bx"
    and "may_relay env h c a b t" and "length (queue h t) + length reads \<le> send_cap"
    and "attached dB cid n"
    and "frames = sent dA (pumpConnToPeer cid teardown reads dA)"
    and "h' = fold (\<lambda>m. hub_step (Inbound env c (Frame m))) frames h"
  shows "out (fold (\<lambda>m. daemon_step (HubMsg envB m)) (queued h h' t) dB) n = out dB n @ map (fst \<circ> snd) reads"
proof -
  let ?pub = "kp_Public (d_key dB)"
  have "kp_PubB64 (d_key dB) \<noteq> []"
  proof -
    have "?pub \<noteq> []" "kp_PubB64 (d_key dB) = b64_encode ?pub" using assms(3) by (auto simp only: kp_ok_def list.size)
    then show ?thesis using b64_encode_not_Nil by simp
  qed
  then have "peerPubKey b dA = Inr ?pub"
    using assms(4,5) DecodePublic_kp [OF assms(3)] by (simp add: peerPubKey_def)
  then have f: "frames = map (pump_frame (d_key dA) ?pub b cid) reads"
    using pump_sends [OF assms(11,8), of ?pub teardown] assms(9,16) by simp
  then have ms: "\<forall>m\<in>set frames. m_Type m = TRelay \<and> m_To m = b \<and> m_Channel m \<noteq> []"
    using assms(10) by (auto simp: pump_frame_def zero_msg_def)
  have "queue h' t = queue h t @ map (relay_msg a) frames"
    unfolding assms(17) by (rule relay_all [OF ms assms(13)]) (use assms(14) f in simp)
  then have q: "queued h h' t = map (relay_msg a \<circ> pump_frame (d_key dA) ?pub b cid) reads"
    by (simp add: queued_def f)
  have opens: "openFrame envB a (m_Data (pump_frame (d_key dA) ?pub b cid r)) d = Inr (fst (snd r))"
    "m_Data (pump_frame (d_key dA) ?pub b cid r) \<noteq> []"
    if "r \<in> set reads" "d_key d = d_key dB" "d_peers d = d_peers dB" for r d
  proof -
    have g: "good_read bx r" using assms(11) that(1) by (simp add: list_all_iff)
    show "openFrame envB a (m_Data (pump_frame (d_key dA) ?pub b cid r)) d = Inr (fst (snd r))"
      "m_Data (pump_frame (d_key dA) ?pub b cid r) \<noteq> []"
      using frame_opens [OF assms(1,12,2), of d a pA r b cid] assms(3,6,7) that(2,3) g by simp_all
  qed
  have m: "m_Type (relay_msg a x) = TRelay" "m_From (relay_msg a x) = a" "m_Channel (relay_msg a x) = m_Channel x"
    "m_Data (relay_msg a x) = m_Data x" for x by (simp_all add: relay_msg_def zero_msg_def)
  have ch: "m_Channel (pump_frame k p b cid r) = cid" for k p r by (simp add: pump_frame_def)
  show ?thesis unfolding q
    by (rule receive_all [OF _ assms(15)]) (auto simp: m ch opens list_all2_conv_all_nth)
qed

definition demo_side :: "string \<Rightarrow> char \<Rightarrow> char \<Rightarrow> daemon" where
  "demo_side other mine theirs =
     demo_daemon\<lparr>d_key := toy_key mine,
       d_peers := [(other, \<lparr>mi_ID = other, mi_Name = other, mi_PubKey = kp_PubB64 (toy_key theirs), mi_Online = True\<rparr>)],
       d_channels := [(''c1'', 1)], d_conns := [0 \<mapsto> \<lparr>cn_out = [], cn_closed = False\<rparr>], d_next := 2,
       d_chans := [1 \<mapsto> \<lparr>ch_id = ''c1'', ch_peer = other, ch_kind = ''link'', ch_conn = Some 0, ch_caps = [],
         ch_done = None, ch_closed = False\<rparr>]\<rparr>"

lemma demo_side:
  "d_key (demo_side other x y) = toy_key x"
  "map_of (d_peers (demo_side other x y)) other = Some \<lparr>mi_ID = other, mi_Name = other, mi_PubKey = kp_PubB64 (toy_key y), mi_Online = True\<rparr>"
  "chan_at ''c1'' (demo_side other x y) = Some (1, \<lparr>ch_id = ''c1'', ch_peer = other, ch_kind = ''link'', ch_conn = Some 0,
     ch_caps = [], ch_done = None, ch_closed = False\<rparr>)"
  "d_conns (demo_side other x y) 0 = Some \<lparr>cn_out = [], cn_closed = False\<rparr>"
  by (simp_all add: demo_side_def chan_at_def)

definition demo_reads :: "(denv \<times> string \<times> bool) list" where
  "demo_reads = [(demo_denv, ''hi'', False), (demo_denv, ''you'', False)]"

theorem tunnel_delivers_witness:
  "\<exists>frames h'. out (fold (\<lambda>m. daemon_step (HubMsg demo_denv m)) (queued demo_hub h' 1) (demo_side ''g'' CHR ''b'' CHR ''a'')) 0 = [''hi'', ''you''] \<and>
     h' = fold (\<lambda>m. hub_step (Inbound (plain_env 4) 2 (Frame m))) frames demo_hub"
proof -
  let ?A = "demo_side ''h'' CHR ''a'' CHR ''b''" and ?B = "demo_side ''g'' CHR ''b'' CHR ''a''"
  let ?f = "sent ?A (pumpConnToPeer ''c1'' True demo_reads ?A)"
  have m: "may_relay (plain_env 4) demo_hub 2 ''g'' ''h'' 1" by code_simp
  have q: "length (queue demo_hub 1) + length demo_reads \<le> send_cap" by code_simp
  have r: "list_all (good_read toy_box) demo_reads" by (simp add: demo_reads_def good_read_def demo_denv_def)
  have at: "attached ?B ''c1'' 0" by (simp add: attached_def demo_side)
  note k = toy_key_ok
  have "out (fold (\<lambda>m. daemon_step (HubMsg demo_denv m)) (queued demo_hub (fold (\<lambda>m. hub_step (Inbound (plain_env 4) 2 (Frame m))) ?f demo_hub) 1) ?B) 0 =
      out ?B 0 @ map (fst \<circ> snd) demo_reads"
    by (rule tunnel_delivers [OF toy_box_ok _ _ demo_side(2) _ demo_side(2) _ demo_side(3) _ _ r _ m q at refl refl])
      (simp_all add: demo_side k)
  moreover have "out ?B 0 = []" by (simp add: out_def demo_side)
  moreover have "map (fst \<circ> snd) demo_reads = [''hi'', ''you'']" by (simp add: demo_reads_def)
  ultimately show ?thesis by (intro exI [of _ ?f] exI conjI) (simp | rule refl)+
qed

section \<open>Pairing\<close>


definition demo_waiting :: hub where
  "demo_waiting = hub_run [Accept 1, Inbound (plain_env 0) 1 (Frame (hello_msg ''h'' ''K'' ''t'')),
     Accept 2, Inbound (plain_env 1) 2 (Frame (hello_msg ''g'' ''L'' ''t''))] (new_hub empty_store ''t'')"


section \<open>From the command to docker\<close>


definition demo_base :: "sys os" where
  "demo_base =
     \<lparr>os_getenv = (\<lambda>_. []), os_read = (\<lambda>_ _. Inl ''no such file''), os_json = (\<lambda>s. Inr (get_state s)),
      os_yaml = (\<lambda>_ c. c), os_is_dir = (\<lambda>_ _. None), os_eval_symlinks = (\<lambda>p _. Inr p),
      os_exchange = (\<lambda>_ _ w. (NoDial, w)), os_run = (\<lambda>_ _ _ w. (Exited 0, w)),
      os_stdout = (\<lambda>s w. w\<lparr>sy_out := sy_out w @ [s]\<rparr>), os_stderr = (\<lambda>s w. w\<lparr>sy_out := sy_out w @ [s]\<rparr>)\<rparr>"

definition demo_world :: sys where
  "demo_world = \<lparr>sy_daemon = demo_peered, sy_out = [], sy_runs = []\<rparr>"


end
